(* ===== verification/QG_Prelude.thy ===== *)
theory QG_Prelude
  imports Complex_Main "HOL-Library.Word" "HOL-Library.Sublist" "HOL-Library.AList"
begin

text \<open>
  The shared layer of the QuarkGate development: Go's 64-bit signed arithmetic, the string
  helpers of the standard library that the gateway calls, maps with string keys, the error
  values every component returns, and the outcome of one call to a remote service
  (PostgreSQL or Redis).  The collections declared here gather the facts that component proofs
  use by name: \<open>i64_simps\<close> for 64-bit arithmetic, \<open>call_defs\<close> for the plumbing of remote
  calls, \<open>inv_rules\<close> for the preservation lemmas of the database invariant.
\<close>

named_theorems i64_simps \<open>64-bit signed arithmetic\<close>
named_theorems call_defs \<open>unfolding of remote calls\<close>
named_theorems inv_rules \<open>preservation of the database invariant\<close>

section \<open>64-bit signed integers\<close>

text \<open>
  A Go \<open>int64\<close> (and \<open>int\<close> on the 64-bit targets the gateway is built for) is an \<open>int\<close>
  between \<open>min_i64\<close> and \<open>max_i64\<close>; every arithmetic operation of the source is followed
  by \<open>i64\<close>, two's complement reduction.
\<close>

definition max_i64 :: int where
  "max_i64 = 9223372036854775807"

definition min_i64 :: int where
  "min_i64 = -9223372036854775808"

definition in_i64 :: "int \<Rightarrow> bool" where
  "in_i64 x \<longleftrightarrow> min_i64 \<le> x \<and> x \<le> max_i64"

definition i64 :: "int \<Rightarrow> int" where
  "i64 x = (x + 9223372036854775808) mod 18446744073709551616 - 9223372036854775808"

lemma in_i64_iff [i64_simps]:
  "in_i64 x \<longleftrightarrow> -9223372036854775808 \<le> x \<and> x \<le> 9223372036854775807"
  by (simp add: in_i64_def min_i64_def max_i64_def)

lemma i64_id [simp]: "in_i64 x \<Longrightarrow> i64 x = x"
  by (simp add: i64_def in_i64_iff)

lemma in_i64_i64 [simp, intro]: "in_i64 (i64 x)"
proof -
  have "0 \<le> (x + 9223372036854775808) mod 18446744073709551616"
    and "(x + 9223372036854775808) mod 18446744073709551616 < 18446744073709551616"
    by simp_all
  then show ?thesis by (simp add: i64_def in_i64_iff)
qed

lemma i64_idem [simp]: "i64 (i64 x) = i64 x"
  by simp

lemma i64_eq_iff_mod: "i64 x = i64 y \<longleftrightarrow> x mod 18446744073709551616 = y mod 18446744073709551616"
proof -
  have "i64 x = i64 y \<longleftrightarrow>
      (x + 9223372036854775808) mod 18446744073709551616 =
      (y + 9223372036854775808) mod 18446744073709551616"
    by (simp add: i64_def)
  also have "\<dots> \<longleftrightarrow> x mod 18446744073709551616 = y mod 18446744073709551616"
    by (simp add: mod_eq_dvd_iff)
  finally show ?thesis .
qed

lemma i64_mod [simp]: "i64 x mod 18446744073709551616 = x mod 18446744073709551616"
  by (simp add: i64_def mod_diff_left_eq)

lemma i64_add_left [simp]: "i64 (i64 x + y) = i64 (x + y)"
proof -
  have "(i64 x + y) mod 18446744073709551616 =
      (i64 x mod 18446744073709551616 + y) mod 18446744073709551616"
    by (simp only: mod_add_left_eq)
  also have "\<dots> = (x + y) mod 18446744073709551616"
    by (simp only: i64_mod mod_add_left_eq)
  finally show ?thesis by (simp only: i64_eq_iff_mod)
qed

lemma i64_add_right [simp]: "i64 (x + i64 y) = i64 (x + y)"
  using i64_add_left [of y x] by (simp only: add.commute)

text \<open>An overflow above the largest value that wraps only once shows as a negative result.\<close>

lemma i64_overflow: "max_i64 < x \<Longrightarrow> x \<le> 2 * max_i64 + 1 \<Longrightarrow> i64 x = x - 18446744073709551616"
proof -
  assume "max_i64 < x" "x \<le> 2 * max_i64 + 1"
  then have "in_i64 (x - 18446744073709551616)" by (simp add: in_i64_iff max_i64_def)
  moreover have "i64 x = i64 (x - 18446744073709551616)" by (simp add: i64_eq_iff_mod)
  ultimately show ?thesis by simp
qed

lemma i64_nonneg_exact:
  assumes "0 \<le> i64 x" "min_i64 \<le> x" "x \<le> 2 * max_i64 + 1"
  shows "i64 x = x"
proof (cases "x \<le> max_i64")
  case True
  with assms show ?thesis by (simp add: in_i64_def)
next
  case False
  with assms i64_overflow [of x] show ?thesis by (simp add: max_i64_def)
qed

text \<open>The reduction is the two's complement reading of a 64-bit machine word.\<close>

lemma i64_word: "i64 x = sint (word_of_int x :: 64 word)"
proof -
  have "sint (word_of_int x :: 64 word) = signed_take_bit 63 x"
    by (simp add: signed_of_int)
  also have "\<dots> = take_bit 64 (x + 2 ^ 63) - 2 ^ 63"
    by (simp add: signed_take_bit_eq_take_bit_shift)
  finally show ?thesis by (simp add: i64_def take_bit_eq_mod)
qed

text \<open>Go's integer division truncates towards zero.\<close>

definition quo :: "int \<Rightarrow> int \<Rightarrow> int" where
  "quo a b = sgn a * sgn b * (\<bar>a\<bar> div \<bar>b\<bar>)"

lemma quo_nonneg [simp]: "0 \<le> a \<Longrightarrow> 0 < b \<Longrightarrow> quo a b = a div b"
  by (cases "a = 0") (simp_all add: quo_def)

section \<open>Strings\<close>

text \<open>A Go string is a sequence of bytes, a \<open>string\<close>.\<close>

definition HasPrefix :: "string \<Rightarrow> string \<Rightarrow> bool" where
  "HasPrefix s p \<longleftrightarrow> length p \<le> length s \<and> take (length p) s = p"

definition TrimPrefix :: "string \<Rightarrow> string \<Rightarrow> string" where
  "TrimPrefix s p = (if HasPrefix s p then drop (length p) s else s)"

text \<open>The ASCII white space that \<open>strings.TrimSpace\<close> cuts.\<close>

definition is_space :: "char \<Rightarrow> bool" where
  "is_space c \<longleftrightarrow> c \<in> {CHR '' '', CHR 0x09, CHR 0x0A, CHR 0x0B, CHR 0x0C, CHR 0x0D}"

definition TrimSpace :: "string \<Rightarrow> string" where
  "TrimSpace s = rev (dropWhile is_space (rev (dropWhile is_space s)))"

definition lower_char :: "char \<Rightarrow> char" where
  "lower_char c =
     (if 65 \<le> (of_char c :: nat) \<and> (of_char c :: nat) \<le> 90
      then char_of ((of_char c :: nat) + 32) else c)"

definition EqualFold :: "string \<Rightarrow> string \<Rightarrow> bool" where
  "EqualFold s t \<longleftrightarrow> map lower_char s = map lower_char t"

lemma HasPrefix_append [simp]: "HasPrefix (p @ s) p"
  by (simp add: HasPrefix_def)

lemma HasPrefix_iff: "HasPrefix s p \<longleftrightarrow> (\<exists>t. s = p @ t)"
  by (auto simp: HasPrefix_def) (metis append_take_drop_id)

lemma HasPrefix_prefix: "HasPrefix s p \<longleftrightarrow> prefix p s"
  by (auto simp: HasPrefix_iff prefix_def)

lemma TrimPrefix_append [simp]: "TrimPrefix (p @ s) p = s"
  by (simp add: TrimPrefix_def)

lemma EqualFold_refl [simp]: "EqualFold s s"
  by (simp add: EqualFold_def)

section \<open>Go maps with string keys\<close>

text \<open>
  A \<open>map[string]T\<close> is an association list with distinct keys; the order of the list is the
  order in which \<open>range\<close> happens to visit the entries.
\<close>

type_synonym 'a gomap = "(string \<times> 'a) list"

abbreviation mget :: "'a gomap \<Rightarrow> string \<Rightarrow> 'a option" where
  "mget m k \<equiv> map_of m k"

abbreviation mset_at :: "string \<Rightarrow> 'a \<Rightarrow> 'a gomap \<Rightarrow> 'a gomap" where
  "mset_at k v m \<equiv> AList.update k v m"

definition wf_map :: "'a gomap \<Rightarrow> bool" where
  "wf_map m \<longleftrightarrow> distinct (map fst m)"

text \<open>The loop \<open>for k, v := range patch { out[k] = v }\<close>.\<close>

fun assign_all :: "'a gomap \<Rightarrow> 'a gomap \<Rightarrow> 'a gomap" where
  "assign_all out [] = out"
| "assign_all out ((k, v) # patch) = assign_all (mset_at k v out) patch"

lemma wf_map_Nil [simp, intro]: "wf_map []"
  by (simp add: wf_map_def)

lemma wf_map_update [simp, intro]: "wf_map m \<Longrightarrow> wf_map (mset_at k v m)"
  by (simp add: wf_map_def distinct_update)

lemma wf_map_assign_all [simp, intro]: "wf_map out \<Longrightarrow> wf_map (assign_all out patch)"
  by (induction out patch rule: assign_all.induct) simp_all

lemma mget_assign_all:
  "wf_map patch \<Longrightarrow>
     mget (assign_all out patch) k = (case mget patch k of Some v \<Rightarrow> Some v | None \<Rightarrow> mget out k)"
proof (induction out patch rule: assign_all.induct)
  case (1 out)
  then show ?case by simp
next
  case (2 out k' v patch)
  then have wf: "wf_map patch" and fresh: "k' \<notin> fst ` set patch"
    by (auto simp: wf_map_def)
  then have "mget patch k' = None"
    by (simp add: map_of_eq_None_iff)
  with 2 wf show ?case
    by (auto simp: update_conv' split: option.splits)
qed

section \<open>Errors and remote calls\<close>

text \<open>
  The error values of the source.  A PostgreSQL error is the constraint that refused the
  statement; \<open>ErrConn\<close> is a call whose reply never came back.
\<close>

datatype goerr =
    ErrConn
  | ErrNoRows
  | ErrUnique string
  | ErrCheck string
  | ErrForeignKey string
  | ErrNotNull string
  | ErrInvalidText string
  | ErrOutOfRange
  | ErrMsg string
  | ErrWrap string goerr

type_synonym 'a result = "goerr + 'a"

text \<open>
  Each call to PostgreSQL or Redis meets one of three fates: it is answered, it is lost before
  the server acts on it, or the server acts on it and the reply is lost.  A server state carries
  the list of fates its next calls will meet; an exhausted list answers.
\<close>

datatype fate = Answered | LostRequest | LostReply

fun next_fate :: "fate list \<Rightarrow> fate \<times> fate list" where
  "next_fate [] = (Answered, [])"
| "next_fate (f # fs) = (f, fs)"

text \<open>A universally unique identifier is 16 bytes; \<open>uuid.Nil\<close> is all zero.\<close>

type_synonym uuid = "128 word"

abbreviation uuid_Nil :: uuid where
  "uuid_Nil \<equiv> 0"

section \<open>Lists\<close>

lemma distinct_map_eqD:
  "distinct (map f xs) \<Longrightarrow> x \<in> set xs \<Longrightarrow> y \<in> set xs \<Longrightarrow> f x = f y \<Longrightarrow> x = y"
  by (auto simp: distinct_map inj_on_def)

lemma find_Some_iff_distinct:
  "distinct (map f xs) \<Longrightarrow> find (\<lambda>x. f x = k) xs = Some y \<longleftrightarrow> y \<in> set xs \<and> f y = k"
  by (induction xs) (auto split: if_splits)

lemma find_SomeD: "find P xs = Some y \<Longrightarrow> y \<in> set xs \<and> P y"
  by (induction xs) (auto split: if_splits)

lemma map_id_on: "(\<And>x. x \<in> set xs \<Longrightarrow> f x = x) \<Longrightarrow> map f xs = xs"
  by (induction xs) auto

end
