(* ===== verification/Go_Float.thy ===== *)
theory Go_Float
  imports QG_Prelude
begin

text \<open>
  Go's \<open>float64\<close>: IEEE 754 binary64 with round-to-nearest-even, as far as the pricing code and
  the circuit breaker use it.  A finite value is the rational number it denotes (the two zeros
  are one value: no operation of the source tells them apart).  Every operation computes the exact
  rational result and rounds it once with \<open>rnd\<close>.
\<close>

section \<open>Rounding\<close>

datatype float64 = Fin rat | PInf | NInf | NaN

fun ilog2 :: "nat \<Rightarrow> nat" where
  "ilog2 n = (if n \<le> 1 then 0 else Suc (ilog2 (n div 2)))"

declare ilog2.simps [simp del]

text \<open>The binary exponent of a positive rational: \<open>2 powi expo x \<le> x < 2 powi (expo x + 1)\<close>.\<close>

definition expo :: "rat \<Rightarrow> int" where
  "expo x =
     (let (n, d) = quotient_of x; e = int (ilog2 (nat n)) - int (ilog2 (nat d))
      in if x < 2 powi e then e - 1 else e)"

definition round_half_even :: "rat \<Rightarrow> int" where
  "round_half_even x =
     (let f = \<lfloor>x\<rfloor>; r = x - of_int f
      in if r < 1 / 2 then f else if 1 / 2 < r then f + 1 else if even f then f else f + 1)"

definition ulp_expo :: "rat \<Rightarrow> int" where
  "ulp_expo x = max (expo \<bar>x\<bar> - 52) (-1074)"

definition rnd_rat :: "rat \<Rightarrow> rat" where
  "rnd_rat x =
     (if x = 0 then 0
      else of_int (round_half_even (x / 2 powi ulp_expo x)) * 2 powi ulp_expo x)"

definition rnd :: "rat \<Rightarrow> float64" where
  "rnd x =
     (let r = rnd_rat x
      in if 2 ^ 1024 \<le> r then PInf else if r \<le> - (2 ^ 1024) then NInf else Fin r)"

section \<open>Operations\<close>

definition inf_sgn :: "rat \<Rightarrow> float64" where
  "inf_sgn s = (if 0 < s then PInf else if s < 0 then NInf else NaN)"

fun fsgn :: "float64 \<Rightarrow> rat" where
  "fsgn (Fin a) = sgn a"
| "fsgn PInf = 1"
| "fsgn NInf = -1"
| "fsgn NaN = 0"

definition fmul :: "float64 \<Rightarrow> float64 \<Rightarrow> float64" where
  "fmul x y =
     (case (x, y) of
        (Fin a, Fin b) \<Rightarrow> rnd (a * b)
      | (NaN, _) \<Rightarrow> NaN
      | (_, NaN) \<Rightarrow> NaN
      | _ \<Rightarrow> inf_sgn (fsgn x * fsgn y))"

fun fadd :: "float64 \<Rightarrow> float64 \<Rightarrow> float64" where
  "fadd (Fin a) (Fin b) = rnd (a + b)"
| "fadd NaN _ = NaN"
| "fadd _ NaN = NaN"
| "fadd PInf NInf = NaN"
| "fadd NInf PInf = NaN"
| "fadd PInf _ = PInf"
| "fadd NInf _ = NInf"
| "fadd (Fin _) y = y"

fun fdiv :: "float64 \<Rightarrow> float64 \<Rightarrow> float64" where
  "fdiv (Fin a) (Fin b) = (if b = 0 then inf_sgn a else rnd (a / b))"
| "fdiv NaN _ = NaN"
| "fdiv _ NaN = NaN"
| "fdiv (Fin _) _ = Fin 0"
| "fdiv x (Fin b) = (if b < 0 then inf_sgn (- fsgn x) else x)"
| "fdiv _ _ = NaN"

text \<open>Comparisons are false on NaN.\<close>

fun flt :: "float64 \<Rightarrow> float64 \<Rightarrow> bool" where
  "flt (Fin a) (Fin b) = (a < b)"
| "flt NaN _ = False"
| "flt _ NaN = False"
| "flt NInf y = (y \<noteq> NInf)"
| "flt _ NInf = False"
| "flt _ PInf = True"
| "flt PInf _ = False"

definition float_of_int :: "int \<Rightarrow> float64" where
  "float_of_int n = rnd (of_int n)"

definition round_away :: "rat \<Rightarrow> int" where
  "round_away x = (if 0 \<le> x then \<lfloor>x + 1 / 2\<rfloor> else - \<lfloor>1 / 2 - x\<rfloor>)"

text \<open>\<open>math.Round\<close>: to the nearest integer, halves away from zero.\<close>

fun fround :: "float64 \<Rightarrow> float64" where
  "fround (Fin x) = Fin (of_int (round_away x))"
| "fround y = y"

text \<open>
  The conversion \<open>int64(f)\<close> drops the fraction; the Go specification leaves the result open when
  the value does not fit: some 64-bit integer, chosen by the parameter \<open>oob\<close>.
\<close>

definition trunc_rat :: "rat \<Rightarrow> int" where
  "trunc_rat x = (if 0 \<le> x then \<lfloor>x\<rfloor> else - \<lfloor>- x\<rfloor>)"

fun int64_of :: "(float64 \<Rightarrow> int) \<Rightarrow> float64 \<Rightarrow> int" where
  "int64_of oob (Fin x) = (if in_i64 (trunc_rat x) then trunc_rat x else i64 (oob (Fin x)))"
| "int64_of oob y = i64 (oob y)"

section \<open>Facts about rounding\<close>

lemma ilog2_bounds: "0 < n \<Longrightarrow> 2 ^ ilog2 n \<le> n \<and> n < 2 ^ Suc (ilog2 n)"
proof (induction n rule: ilog2.induct)
  case (1 n)
  show ?case
  proof (cases "n \<le> 1")
    case True
    with 1 have "n = 1" by simp
    then show ?thesis by (simp add: ilog2.simps [of "Suc 0"])
  next
    case False
    then have "0 < n div 2" by auto
    with 1 False have IH: "2 ^ ilog2 (n div 2) \<le> n div 2" "n div 2 < 2 ^ Suc (ilog2 (n div 2))"
      by auto
    have eq: "ilog2 n = Suc (ilog2 (n div 2))"
      using False by (simp add: ilog2.simps [of n])
    have "2 * 2 ^ ilog2 (n div 2) \<le> n" "n < 2 * 2 ^ Suc (ilog2 (n div 2))"
      using IH by auto
    then show ?thesis by (simp only: eq power_Suc)
  qed
qed

lemma expo_bounds:
  assumes "0 < x"
  shows "2 powi expo x \<le> x \<and> x < 2 powi (expo x + 1)"
proof -
  obtain n d where nd: "quotient_of x = (n, d)" by fastforce
  have d: "0 < d" using nd by (rule quotient_of_denom_pos)
  have x: "x = of_int n / of_int d" using nd by (rule quotient_of_div)
  have n: "0 < n" using assms d by (simp add: x zero_less_divide_iff)
  define a b where "a = ilog2 (nat n)" and "b = ilog2 (nat d)"
  have "nat n < 2 ^ Suc a" "2 ^ a \<le> nat n" "nat d < 2 ^ Suc b" "2 ^ b \<le> nat d"
    using ilog2_bounds [of "nat n"] ilog2_bounds [of "nat d"] n d by (auto simp: a_def b_def)
  then have "n < 2 ^ Suc a" "2 ^ a \<le> n" "d < 2 ^ Suc b" "2 ^ b \<le> d"
    using n d by (simp_all add: nat_less_iff le_nat_iff)
  then have A: "(of_int n :: rat) < 2 ^ Suc a" "2 ^ a \<le> (of_int n :: rat)"
      "(of_int d :: rat) < 2 ^ Suc b" "2 ^ b \<le> (of_int d :: rat)"
    by (metis of_int_less_iff of_int_le_iff of_int_power of_int_numeral)+
  define e where "e = int a - int b"
  have d': "(0::rat) < of_int d" using d by simp
  have lo: "2 powi (e - 1) \<le> x"
  proof -
    have "2 powi (e - 1) = (2 ^ a / 2 ^ Suc b :: rat)"
      by (simp add: e_def power_int_diff)
    also have "\<dots> \<le> of_int n / of_int d"
      using A d' n by (intro frac_le) auto
    finally show ?thesis by (simp add: x)
  qed
  have hi: "x < 2 powi (e + 1)"
  proof -
    have "x < 2 ^ Suc a / 2 ^ b"
      unfolding x using A d' n by (intro frac_less) auto
    also have "\<dots> = 2 powi (e + 1)"
      by (simp add: e_def power_int_diff power_int_add)
    finally show ?thesis .
  qed
  have "expo x = (if x < 2 powi e then e - 1 else e)"
    by (simp add: expo_def nd e_def a_def b_def Let_def)
  then show ?thesis using lo hi by auto
qed

lemma powi_mono2: "a \<le> b \<Longrightarrow> (2 powi a :: rat) \<le> 2 powi b"
  by (simp add: power_int_increasing)

lemma powi_pos2 [simp]: "(0::rat) < 2 powi a"
  by simp

lemma expo_mono: "0 < x \<Longrightarrow> x \<le> y \<Longrightarrow> expo x \<le> expo y"
proof (rule ccontr)
  assume x: "0 < x" "x \<le> y" and "\<not> expo x \<le> expo y"
  then have "(2 powi (expo y + 1) :: rat) \<le> 2 powi expo x"
    by (intro powi_mono2) simp
  then show False
    using x expo_bounds [of x] expo_bounds [of y] by linarith
qed

lemma expo_eqI:
  assumes "2 powi e \<le> x" and "x < 2 powi (e + 1)"
  shows "expo x = e"
proof -
  have x: "0 < x" using assms(1) powi_pos2 [of e] by linarith
  have "\<not> e < expo x"
  proof
    assume "e < expo x"
    then have "(2 powi (e + 1) :: rat) \<le> 2 powi expo x" by (intro powi_mono2) simp
    with assms expo_bounds [OF x] show False by linarith
  qed
  moreover have "\<not> expo x < e"
  proof
    assume "expo x < e"
    then have "(2 powi (expo x + 1) :: rat) \<le> 2 powi e" by (intro powi_mono2) simp
    with assms expo_bounds [OF x] show False by linarith
  qed
  ultimately show ?thesis by simp
qed

lemma rhe_bounds:
  "of_int (round_half_even x) \<le> x + 1 / 2" "x - 1 / 2 \<le> of_int (round_half_even x)"
  unfolding round_half_even_def Let_def by (auto split: if_splits) linarith+

lemma rhe_int [simp]: "round_half_even (of_int n) = n"
  by (simp add: round_half_even_def)

lemma rhe_near:
  assumes "\<bar>x - of_int m\<bar> < 1 / 2"
  shows "round_half_even x = m"
proof -
  have "(of_int (round_half_even x) :: rat) < of_int (m + 1)"
    "(of_int (m - 1) :: rat) < of_int (round_half_even x)"
    using rhe_bounds [of x] assms unfolding abs_diff_less_iff
    by (auto simp only: of_int_add of_int_diff of_int_1)
  then show ?thesis by (simp only: of_int_less_iff)
qed

lemma rhe_ge: "of_int n \<le> x \<Longrightarrow> n \<le> round_half_even x"
  unfolding round_half_even_def Let_def by (auto simp: le_floor_iff) linarith+

lemma rhe_floor: "\<lfloor>x\<rfloor> \<le> round_half_even x \<and> round_half_even x \<le> \<lfloor>x\<rfloor> + 1"
  by (simp add: round_half_even_def Let_def)

lemma rhe_mono: "x \<le> y \<Longrightarrow> round_half_even x \<le> round_half_even y"
proof (cases "\<lfloor>x\<rfloor> = \<lfloor>y\<rfloor>")
  case True
  assume "x \<le> y"
  with True show ?thesis by (auto simp: round_half_even_def Let_def)
next
  case False
  assume "x \<le> y"
  with False have "\<lfloor>x\<rfloor> + 1 \<le> \<lfloor>y\<rfloor>" using floor_mono [of x y] by linarith
  with rhe_floor [of x] rhe_floor [of y] show ?thesis by linarith
qed

lemma rhe_le: "x \<le> of_int n \<Longrightarrow> round_half_even x \<le> n"
  using rhe_mono [of x "of_int n"] by simp

lemma rnd_rat_nonneg: "0 \<le> x \<Longrightarrow> 0 \<le> rnd_rat x"
proof -
  assume "0 \<le> x"
  then have "0 \<le> round_half_even (x / 2 powi ulp_expo x)"
    by (intro rhe_ge) simp
  then show ?thesis by (simp add: rnd_rat_def)
qed

lemma powi_split: "(2 powi (a + int k) :: rat) = 2 powi a * of_int (2 ^ k)"
  by (simp add: power_int_add)

text \<open>A dyadic number with at most 53 significant bits is its own rounding.\<close>

lemma rnd_rat_dyadic:
  assumes "\<bar>m\<bar> < 2 ^ 53" and "-1074 \<le> k"
  shows "rnd_rat (of_int m * 2 powi k) = of_int m * 2 powi k"
proof (cases "m = 0")
  case True
  then show ?thesis by (simp add: rnd_rat_def)
next
  case False
  define x :: rat where "x = of_int m * 2 powi k"
  have ax: "\<bar>x\<bar> = of_int \<bar>m\<bar> * 2 powi k" by (simp add: x_def abs_mult)
  have pos: "0 < \<bar>x\<bar>" using False by (simp add: x_def)
  have "(of_int \<bar>m\<bar> :: rat) < of_int (2 ^ 53)" using assms(1) by (simp only: of_int_less_iff)
  then have "\<bar>x\<bar> < of_int (2 ^ 53) * 2 powi k" by (simp add: ax)
  also have "\<dots> = 2 powi (k + int 53)" by (simp only: powi_split mult.commute)
  finally have "(2 powi expo \<bar>x\<bar> :: rat) < 2 powi (k + int 53)"
    using expo_bounds [OF pos] by linarith
  then have "expo \<bar>x\<bar> < k + 53" using powi_mono2 [of "k + 53" "expo \<bar>x\<bar>"] by force
  then have q: "ulp_expo x \<le> k" using assms(2) by (simp add: ulp_expo_def)
  define j where "j = nat (k - ulp_expo x)"
  have k: "k = ulp_expo x + int j" using q by (simp add: j_def)
  have "x / 2 powi ulp_expo x = of_int (m * 2 ^ j)"
    by (subst (1) x_def, subst k) (simp add: power_int_add)
  then have "rnd_rat x = of_int (m * 2 ^ j) * 2 powi ulp_expo x"
    using False by (simp add: rnd_rat_def x_def del: of_int_mult)
  also have "\<dots> = of_int m * 2 powi k" by (subst k) (simp add: power_int_add)
  finally show ?thesis by (simp add: x_def)
qed

lemma rnd_rat_int: "\<bar>n\<bar> < 2 ^ 53 \<Longrightarrow> rnd_rat (of_int n) = of_int n"
  using rnd_rat_dyadic [of n 0] by simp

lemma rnd_rat_le_pow:
  assumes "0 < x" "x \<le> 2 powi e" "ulp_expo x \<le> e"
  shows "rnd_rat x \<le> 2 powi e"
proof -
  define j where "j = nat (e - ulp_expo x)"
  have e: "e = ulp_expo x + int j" using assms(3) by (simp add: j_def)
  have "x / 2 powi ulp_expo x \<le> of_int (2 ^ j)"
    using assms(2) by (simp add: divide_le_eq e power_int_add mult.commute)
  then have "round_half_even (x / 2 powi ulp_expo x) \<le> 2 ^ j" by (rule rhe_le)
  then have "rnd_rat x \<le> of_int (2 ^ j) * 2 powi ulp_expo x"
    using assms(1) by (simp add: rnd_rat_def del: of_int_power)
  also have "\<dots> = 2 powi e" by (simp add: e power_int_add)
  finally show ?thesis .
qed

lemma rnd_rat_ge_pow:
  assumes "2 powi e \<le> x" "ulp_expo x \<le> e"
  shows "2 powi e \<le> rnd_rat x"
proof -
  have x: "0 < x" using assms(1) powi_pos2 [of e] by linarith
  define j where "j = nat (e - ulp_expo x)"
  have e: "e = ulp_expo x + int j" using assms(2) by (simp add: j_def)
  have "of_int (2 ^ j) \<le> x / 2 powi ulp_expo x"
    using assms(1) by (simp add: le_divide_eq e power_int_add mult.commute)
  then have "2 ^ j \<le> round_half_even (x / 2 powi ulp_expo x)" by (rule rhe_ge)
  then have "of_int (2 ^ j) * 2 powi ulp_expo x \<le> rnd_rat x"
    using x by (simp add: rnd_rat_def del: of_int_power)
  moreover have "of_int (2 ^ j) * 2 powi ulp_expo x = (2 powi e :: rat)"
    by (simp add: e power_int_add)
  ultimately show ?thesis by simp
qed

lemma rnd_rat_mono:
  assumes "0 \<le> x" "x \<le> y"
  shows "rnd_rat x \<le> rnd_rat y"
proof (cases "x = 0")
  case True
  then show ?thesis using assms rnd_rat_nonneg [of y] by (simp add: rnd_rat_def)
next
  case False
  with assms have x: "0 < x" and y: "0 < y" by auto
  have ex: "expo x \<le> expo y" using x assms(2) by (rule expo_mono)
  show ?thesis
  proof (cases "ulp_expo x = ulp_expo y")
    case True
    have "round_half_even (x / 2 powi ulp_expo x) \<le> round_half_even (y / 2 powi ulp_expo x)"
      using assms(2) by (intro rhe_mono divide_right_mono) auto
    with True x y show ?thesis by (simp add: rnd_rat_def)
  next
    case False
    with ex x y have less: "expo x + 1 \<le> expo y" and qx: "ulp_expo x \<le> expo y"
      and qy: "ulp_expo y \<le> expo y"
      by (auto simp: ulp_expo_def max_def split: if_splits)
    have "x \<le> 2 powi expo y"
      using expo_bounds [OF x] powi_mono2 [OF less] by linarith
    then have "rnd_rat x \<le> 2 powi expo y" using x qx by (intro rnd_rat_le_pow)
    also have "\<dots> \<le> rnd_rat y"
      using expo_bounds [OF y] qy by (intro rnd_rat_ge_pow) auto
    finally show ?thesis .
  qed
qed

lemma rnd_int [simp]: "\<bar>n\<bar> < 2 ^ 53 \<Longrightarrow> rnd (of_int n) = Fin (of_int n)"
proof -
  assume n: "\<bar>n\<bar> < 2 ^ 53"
  have "(2::int) ^ 53 < 2 ^ 1024" by simp
  with n have "n < 2 ^ 1024" "- (2 ^ 1024) < n" by linarith+
  then have "(of_int n :: rat) < of_int (2 ^ 1024)" "(of_int (- (2 ^ 1024)) :: rat) < of_int n"
    by (simp_all only: of_int_less_iff)
  then show ?thesis using rnd_rat_int [OF n] by (simp add: rnd_def)
qed

lemma float_of_int_exact [simp]: "\<bar>n\<bar> < 2 ^ 53 \<Longrightarrow> float_of_int n = Fin (of_int n)"
  by (simp add: float_of_int_def)

lemma round_away_int [simp]: "round_away (of_int n) = n"
  by (auto simp: round_away_def floor_eq_iff)

lemma trunc_rat_int [simp]: "trunc_rat (of_int n) = n"
  by (simp add: trunc_rat_def)

lemma round_away_mono: "x \<le> y \<Longrightarrow> round_away x \<le> round_away y"
  by (auto simp: round_away_def intro: floor_mono) linarith+

lemma round_away_nonneg: "0 \<le> x \<Longrightarrow> 0 \<le> round_away x"
  by (simp add: round_away_def)

text \<open>Products and sums of integers below \<open>2 ^ 53\<close> are exact.\<close>

lemma fmul_int:
  "\<bar>a * b\<bar> < 2 ^ 53 \<Longrightarrow> fmul (Fin (of_int a)) (Fin (of_int b)) = Fin (of_int (a * b))"
  using rnd_int [of "a * b"] by (simp add: fmul_def del: rnd_int)

lemma int64_of_round_int [simp]: "in_i64 n \<Longrightarrow> int64_of oob (fround (Fin (of_int n))) = n"
  by simp

text \<open>How to evaluate a rounding: give the exponent.\<close>

lemma rnd_eval:
  assumes lo: "2 ^ 52 \<le> x * 2 ^ k" and hi: "x * 2 ^ k < 2 ^ 53" and k: "k \<le> 1074"
    and near: "\<bar>x * 2 ^ k - of_int m\<bar> < 1 / 2"
  shows "rnd x = Fin (of_int m / 2 ^ k)"
proof -
  have pk: "(2 powi (- int k) :: rat) = 1 / 2 ^ k"
    by (simp add: power_int_minus divide_inverse)
  have e52: "(2 powi (52 - int k) :: rat) = 2 ^ 52 / 2 ^ k"
    using power_int_diff [of "2::rat" 52 "int k"] by simp
  have e53: "(2 powi (53 - int k) :: rat) = 2 ^ 53 / 2 ^ k"
    using power_int_diff [of "2::rat" 53 "int k"] by simp
  have "2 powi (52 - int k) \<le> x" "x < 2 powi (52 - int k + 1)"
    using lo hi by (simp_all add: e52 e53 divide_le_eq less_divide_eq)
  then have ex: "expo x = 52 - int k" by (rule expo_eqI)
  have "0 < x * 2 ^ k" using lo by (rule order_less_le_trans [rotated]) simp
  then have x: "0 < x" by (simp add: zero_less_mult_iff)
  have q: "ulp_expo x = - int k" using x k by (simp add: ulp_expo_def ex)
  have "round_half_even (x * 2 ^ k) = m"
    using near by (rule rhe_near)
  then have r: "rnd_rat x = of_int m / 2 ^ k"
    using x by (simp add: rnd_rat_def q pk)
  have m: "0 \<le> (of_int m :: rat)" "(of_int m :: rat) \<le> 2 ^ 54"
    using near hi lo unfolding abs_diff_less_iff by simp_all
  have "0 \<le> rnd_rat x" unfolding r using m by simp
  moreover have "rnd_rat x \<le> 2 ^ 54"
    unfolding r using m by (simp add: divide_le_eq order_trans [OF m(2)])
  ultimately have "rnd_rat x < 2 ^ 1024" "- (2 ^ 1024) < rnd_rat x"
    by simp_all
  then show ?thesis by (simp add: rnd_def r)
qed

lemma in_i64_int64_of [simp, intro]: "in_i64 (int64_of oob x)"
  by (cases x) simp_all

end
