(* ===== verification/Go_Json.thy ===== *)
theory Go_Json
  imports Go_Float "HOL-Library.Char_ord" "HOL-Library.List_Lexorder"
begin

text \<open>
  The part of Go's \<open>encoding/json\<close> the gateway uses: JSON documents, a decoder from text that
  works byte by byte with an explicit stack of open containers, an encoder, and the translation
  between documents and the dynamically typed values (\<open>interface{}\<close>) the source manipulates.

  Numbers keep what the source can observe of their spelling: \<open>JInt n\<close> is a literal without
  fraction and exponent (the only kind that fits an integer field), \<open>JDec m e\<close> is any other
  literal, denoting \<open>m\<close> times ten to the \<open>e\<close>.  The encoder writes the exact decimal
  expansion of a float where Go writes the shortest one that reads back as the same float.  Bytes
  above 127 are taken to be well-formed UTF-8.
\<close>

section \<open>Documents\<close>

datatype json =
    JNull
  | JBool bool
  | JInt int
  | JDec int int
  | JStr string
  | JArr "json list"
  | JObj "(string \<times> json) list"

text \<open>A byte string seen through the decoder: empty, malformed, or a document.\<close>

datatype jtext = JEmpty | JBad | JDoc json

section \<open>Decoding\<close>

definition is_digit :: "char \<Rightarrow> bool" where
  "is_digit c \<longleftrightarrow> 48 \<le> (of_char c :: nat) \<and> (of_char c :: nat) \<le> 57"

definition digit_val :: "char \<Rightarrow> nat" where
  "digit_val c = of_char c - 48"

definition nat_of_digits :: "string \<Rightarrow> nat" where
  "nat_of_digits s = foldl (\<lambda>n c. 10 * n + digit_val c) 0 s"

definition hex_val :: "char \<Rightarrow> nat option" where
  "hex_val c =
     (let n = (of_char c :: nat)
      in if 48 \<le> n \<and> n \<le> 57 then Some (n - 48)
         else if 97 \<le> n \<and> n \<le> 102 then Some (n - 87)
         else if 65 \<le> n \<and> n \<le> 70 then Some (n - 55)
         else None)"

definition parse_exp :: "string \<Rightarrow> int option" where
  "parse_exp s =
     (let (neg, ds) =
        (case s of
           [] \<Rightarrow> (False, [])
         | c # t \<Rightarrow> if c = CHR ''-'' then (True, t) else if c = CHR ''+'' then (False, t) else (False, s))
      in if ds \<noteq> [] \<and> list_all is_digit ds
         then Some (if neg then - int (nat_of_digits ds) else int (nat_of_digits ds))
         else None)"

definition parse_num :: "string \<Rightarrow> json option" where
  "parse_num s =
     (let (neg, s1) = (case s of [] \<Rightarrow> (False, []) | c # t \<Rightarrow> if c = CHR ''-'' then (True, t) else (False, s));
          ip = takeWhile is_digit s1; s2 = dropWhile is_digit s1;
          sg = (if neg then -1 else 1 :: int)
      in if ip = [] \<or> (hd ip = CHR ''0'' \<and> tl ip \<noteq> []) then None
         else
           (case s2 of
              [] \<Rightarrow> Some (JInt (sg * int (nat_of_digits ip)))
            | c # t \<Rightarrow>
                (let (fp, s3) =
                   (if c = CHR ''.'' then (takeWhile is_digit t, dropWhile is_digit t) else ([], s2))
                 in if c = CHR ''.'' \<and> fp = [] then None
                    else
                      (case s3 of
                         [] \<Rightarrow> Some (JDec (sg * int (nat_of_digits (ip @ fp))) (- int (length fp)))
                       | x # ex \<Rightarrow>
                           if x = CHR ''e'' \<or> x = CHR ''E''
                           then map_option
                             (\<lambda>k. JDec (sg * int (nat_of_digits (ip @ fp))) (k - int (length fp)))
                             (parse_exp ex)
                           else None))))"

text \<open>The content of a string literal: bytes as they stand and \<open>\uXXXX\<close> escapes.\<close>

datatype sitem = SByte char | SUni nat

definition utf8 :: "nat \<Rightarrow> string" where
  "utf8 n =
     (if n < 128 then [char_of n]
      else if n < 2048 then [char_of (192 + n div 64), char_of (128 + n mod 64)]
      else if n < 65536 then
        [char_of (224 + n div 4096), char_of (128 + n div 64 mod 64), char_of (128 + n mod 64)]
      else
        [char_of (240 + n div 262144), char_of (128 + n div 4096 mod 64),
         char_of (128 + n div 64 mod 64), char_of (128 + n mod 64)])"

fun unquote :: "sitem list \<Rightarrow> string" where
  "unquote [] = []"
| "unquote (SByte b # xs) = b # unquote xs"
| "unquote (SUni h # SUni l # xs) =
     (if 55296 \<le> h \<and> h < 56320 \<and> 56320 \<le> l \<and> l < 57344
      then utf8 (65536 + (h - 55296) * 1024 + (l - 56320)) @ unquote xs
      else utf8 (if 55296 \<le> h \<and> h < 57344 then 65533 else h) @ unquote (SUni l # xs))"
| "unquote (SUni h # xs) =
     utf8 (if 55296 \<le> h \<and> h < 57344 then 65533 else h) @ unquote xs"

datatype frame =
    FArr "json list"
  | FObj "(string \<times> json) list"
  | FKey "(string \<times> json) list" string

datatype mode =
    MValue
  | MValueOrEnd
  | MKeyOrEnd
  | MKey
  | MColon
  | MStr bool "sitem list"
  | MEsc bool "sitem list"
  | MHex bool "sitem list" "nat list"
  | MNum string
  | MLit string json
  | MAfter
  | MDone json
  | MFail

type_synonym pstate = "mode \<times> frame list"

fun complete :: "json \<Rightarrow> frame list \<Rightarrow> pstate" where
  "complete v [] = (MDone v, [])"
| "complete v (FArr vs # st) = (MAfter, FArr (v # vs) # st)"
| "complete v (FKey kvs k # st) = (MAfter, FObj ((k, v) # kvs) # st)"
| "complete v (FObj kvs # st) = (MFail, [])"

fun close_string :: "bool \<Rightarrow> string \<Rightarrow> frame list \<Rightarrow> pstate" where
  "close_string False s st = complete (JStr s) st"
| "close_string True s (FObj kvs # st) = (MColon, FKey kvs s # st)"
| "close_string True s st = (MFail, [])"

definition is_ws :: "char \<Rightarrow> bool" where
  "is_ws c \<longleftrightarrow> c \<in> {CHR '' '', CHR 0x09, CHR 0x0A, CHR 0x0D}"

definition is_numchar :: "char \<Rightarrow> bool" where
  "is_numchar c \<longleftrightarrow> is_digit c \<or> c \<in> {CHR ''-'', CHR ''+'', CHR ''.'', CHR ''e'', CHR ''E''}"

definition begin_value :: "char \<Rightarrow> frame list \<Rightarrow> pstate" where
  "begin_value c st =
     (if c = CHR ''{'' then (MKeyOrEnd, FObj [] # st)
      else if c = CHR ''['' then (MValueOrEnd, FArr [] # st)
      else if c = CHR 0x22 then (MStr False [], st)
      else if c = CHR ''t'' then (MLit ''rue'' (JBool True), st)
      else if c = CHR ''f'' then (MLit ''alse'' (JBool False), st)
      else if c = CHR ''n'' then (MLit ''ull'' JNull, st)
      else if c = CHR ''-'' \<or> is_digit c then (MNum [c], st)
      else (MFail, []))"

fun after_value :: "char \<Rightarrow> frame list \<Rightarrow> pstate" where
  "after_value c (FArr vs # st) =
     (if is_ws c then (MAfter, FArr vs # st)
      else if c = CHR '','' then (MValue, FArr vs # st)
      else if c = CHR '']'' then complete (JArr (rev vs)) st
      else (MFail, []))"
| "after_value c (FObj kvs # st) =
     (if is_ws c then (MAfter, FObj kvs # st)
      else if c = CHR '','' then (MKey, FObj kvs # st)
      else if c = CHR ''}'' then complete (JObj (rev kvs)) st
      else (MFail, []))"
| "after_value c st = (MFail, [])"

definition esc_char :: "char \<Rightarrow> char option" where
  "esc_char c =
     (if c = CHR 0x22 \<or> c = CHR 0x5C \<or> c = CHR ''/'' then Some c
      else if c = CHR ''b'' then Some (CHR 0x08)
      else if c = CHR ''f'' then Some (CHR 0x0C)
      else if c = CHR ''n'' then Some (CHR 0x0A)
      else if c = CHR ''r'' then Some (CHR 0x0D)
      else if c = CHR ''t'' then Some (CHR 0x09)
      else None)"

fun settle :: "pstate \<Rightarrow> pstate" where
  "settle (MNum acc, st) =
     (case parse_num (rev acc) of Some v \<Rightarrow> complete v st | None \<Rightarrow> (MFail, []))"
| "settle s = s"

fun step_settled :: "pstate \<Rightarrow> char \<Rightarrow> pstate" where
  "step_settled (MAfter, st) c = after_value c st"
| "step_settled (MDone v, st) c = (if is_ws c then (MDone v, st) else (MFail, []))"
| "step_settled s c = (MFail, [])"

fun json_step :: "pstate \<Rightarrow> char \<Rightarrow> pstate" where
  "json_step (MValue, st) c = (if is_ws c then (MValue, st) else begin_value c st)"
| "json_step (MValueOrEnd, st) c =
     (if is_ws c then (MValueOrEnd, st)
      else if c = CHR '']'' then after_value c st
      else begin_value c st)"
| "json_step (MKeyOrEnd, st) c =
     (if is_ws c then (MKeyOrEnd, st)
      else if c = CHR ''}'' then after_value c st
      else if c = CHR 0x22 then (MStr True [], st)
      else (MFail, []))"
| "json_step (MKey, st) c =
     (if is_ws c then (MKey, st) else if c = CHR 0x22 then (MStr True [], st) else (MFail, []))"
| "json_step (MColon, st) c =
     (if is_ws c then (MColon, st) else if c = CHR '':'' then (MValue, st) else (MFail, []))"
| "json_step (MStr k acc, st) c =
     (if c = CHR 0x22 then close_string k (unquote (rev acc)) st
      else if c = CHR 0x5C then (MEsc k acc, st)
      else if (of_char c :: nat) < 32 then (MFail, [])
      else (MStr k (SByte c # acc), st))"
| "json_step (MEsc k acc, st) c =
     (if c = CHR ''u'' then (MHex k acc [], st)
      else (case esc_char c of Some d \<Rightarrow> (MStr k (SByte d # acc), st) | None \<Rightarrow> (MFail, [])))"
| "json_step (MHex k acc hs, st) c =
     (case hex_val c of
        None \<Rightarrow> (MFail, [])
      | Some h \<Rightarrow>
          if length hs = 3 then (MStr k (SUni (foldl (\<lambda>n d. 16 * n + d) 0 (rev (h # hs))) # acc), st)
          else (MHex k acc (h # hs), st))"
| "json_step (MNum acc, st) c =
     (if is_numchar c then (MNum (c # acc), st) else step_settled (settle (MNum acc, st)) c)"
| "json_step (MLit [] v, st) c = (MFail, [])"
| "json_step (MLit (x # xs) v, st) c =
     (if c \<noteq> x then (MFail, []) else if xs = [] then complete v st else (MLit xs v, st))"
| "json_step (MAfter, st) c = after_value c st"
| "json_step (MDone v, st) c = (if is_ws c then (MDone v, st) else (MFail, []))"
| "json_step (MFail, st) c = (MFail, st)"

definition json_decode :: "string \<Rightarrow> jtext" where
  "json_decode s =
     (if s = [] then JEmpty
      else (case settle (foldl json_step (MValue, []) s) of
              (MDone v, []) \<Rightarrow> JDoc v
            | _ \<Rightarrow> JBad))"

section \<open>Encoding\<close>

fun show_nat :: "nat \<Rightarrow> string" where
  "show_nat n =
     (if n < 10 then [char_of (48 + n)] else show_nat (n div 10) @ [char_of (48 + n mod 10)])"

declare show_nat.simps [simp del]

definition show_int :: "int \<Rightarrow> string" where
  "show_int n = (if n < 0 then CHR ''-'' # show_nat (nat (- n)) else show_nat (nat n))"

definition hex_digit :: "nat \<Rightarrow> char" where
  "hex_digit n = (if n < 10 then char_of (48 + n) else char_of (87 + n))"

definition enc_char :: "char \<Rightarrow> string" where
  "enc_char c =
     (if c = CHR 0x22 \<or> c = CHR 0x5C then [CHR 0x5C, c]
      else if c = CHR 0x0A then [CHR 0x5C, CHR ''n'']
      else if c = CHR 0x0D then [CHR 0x5C, CHR ''r'']
      else if c = CHR 0x09 then [CHR 0x5C, CHR ''t'']
      else if (of_char c :: nat) < 32 \<or> c = CHR ''<'' \<or> c = CHR ''>'' \<or> c = CHR ''&''
      then [CHR 0x5C, CHR ''u'', CHR ''0'', CHR ''0'',
            hex_digit (of_char c div 16), hex_digit (of_char c mod 16)]
      else [c])"

definition enc_string :: "string \<Rightarrow> string" where
  "enc_string s = CHR 0x22 # concat (map enc_char s) @ [CHR 0x22]"

fun comma_sep :: "string list \<Rightarrow> string" where
  "comma_sep [] = []"
| "comma_sep [x] = x"
| "comma_sep (x # y # ys) = x @ CHR '','' # comma_sep (y # ys)"

primrec json_encode :: "json \<Rightarrow> string" where
  "json_encode JNull = ''null''"
| "json_encode (JBool b) = (if b then ''true'' else ''false'')"
| "json_encode (JInt n) = show_int n"
| "json_encode (JDec m e) = show_int m @ CHR ''e'' # show_int e"
| "json_encode (JStr s) = enc_string s"
| "json_encode (JArr xs) = CHR ''['' # comma_sep (map json_encode xs) @ '']''"
| "json_encode (JObj kvs) =
     CHR ''{'' # comma_sep (map (\<lambda>(k, s). enc_string k @ CHR '':'' # s)
       (map (map_prod id json_encode) kvs)) @ ''}''"

section \<open>Dynamically typed values\<close>

datatype gval =
    GNil
  | GBool bool
  | GFloat float64
  | GInt int
  | GInt64 int
  | GStr string
  | GArr "gval list"
  | GMap "(string \<times> gval) list"
  | GRaw string

type_synonym gmap = "gval gomap"

definition num_float :: "json \<Rightarrow> float64" where
  "num_float j =
     (case j of JInt n \<Rightarrow> rnd (of_int n) | JDec m e \<Rightarrow> rnd (of_int m * 10 powi e) | _ \<Rightarrow> NaN)"

text \<open>
  Decoding into an \<open>interface{}\<close>: every number becomes a \<open>float64\<close>; one that overflows leaves
  \<open>nil\<close> behind and makes \<open>Unmarshal\<close> report an error at the end (\<open>any_err\<close>).
\<close>

definition any_num :: "json \<Rightarrow> gval" where
  "any_num j = (case num_float j of Fin r \<Rightarrow> GFloat (Fin r) | _ \<Rightarrow> GNil)"

primrec any_of :: "json \<Rightarrow> gval" where
  "any_of JNull = GNil"
| "any_of (JBool b) = GBool b"
| "any_of (JInt n) = any_num (JInt n)"
| "any_of (JDec m e) = any_num (JDec m e)"
| "any_of (JStr s) = GStr s"
| "any_of (JArr xs) = GArr (map any_of xs)"
| "any_of (JObj kvs) = GMap (assign_all [] (map (map_prod id any_of) kvs))"

primrec any_err :: "json \<Rightarrow> bool" where
  "any_err JNull = False"
| "any_err (JBool b) = False"
| "any_err (JInt n) = (any_num (JInt n) = GNil)"
| "any_err (JDec m e) = (any_num (JDec m e) = GNil)"
| "any_err (JStr s) = False"
| "any_err (JArr xs) = list_ex id (map any_err xs)"
| "any_err (JObj kvs) = list_ex snd (map (map_prod id any_err) kvs)"

text \<open>
  \<open>json.Unmarshal\<close> into a nil \<open>map[string]interface{}\<close>: the map it leaves (\<open>None\<close> is the nil
  map) and whether it reports an error.
\<close>

fun unmarshal_map :: "jtext \<Rightarrow> gmap option \<times> bool" where
  "unmarshal_map (JDoc JNull) = (None, False)"
| "unmarshal_map (JDoc (JObj kvs)) =
     (Some (assign_all [] (map (map_prod id any_of) kvs)), any_err (JObj kvs))"
| "unmarshal_map _ = (None, True)"

text \<open>\<open>json.Unmarshal\<close> into an \<open>int64\<close> that holds 0: the value it leaves.\<close>

fun unmarshal_int64 :: "jtext \<Rightarrow> int" where
  "unmarshal_int64 (JDoc (JInt n)) = (if in_i64 n then n else 0)"
| "unmarshal_int64 _ = 0"

text \<open>
  \<open>json.Marshal\<close> fails only on an infinity, a NaN or a \<open>json.RawMessage\<close> (\<open>GRaw\<close>, nil when empty) that
  is not JSON; it writes the keys of a map in order.
\<close>

definition json_of_float :: "float64 \<Rightarrow> json option" where
  "json_of_float f =
     (case f of
        Fin q \<Rightarrow>
          (let (n, d) = quotient_of q
           in if d = 1 \<and> \<bar>n\<bar> < 1000000000000000000000 then Some (JInt n)
              else Some (JDec (n * 5 ^ ilog2 (nat d)) (- int (ilog2 (nat d)))))
      | _ \<Rightarrow> None)"

fun seq_opt :: "'a option list \<Rightarrow> 'a list option" where
  "seq_opt [] = Some []"
| "seq_opt (None # xs) = None"
| "seq_opt (Some x # xs) = map_option ((#) x) (seq_opt xs)"

primrec json_of :: "gval \<Rightarrow> json option" where
  "json_of GNil = Some JNull"
| "json_of (GBool b) = Some (JBool b)"
| "json_of (GFloat f) = json_of_float f"
| "json_of (GInt n) = Some (JInt n)"
| "json_of (GInt64 n) = Some (JInt n)"
| "json_of (GStr s) = Some (JStr s)"
| "json_of (GArr xs) = map_option JArr (seq_opt (map json_of xs))"
| "json_of (GRaw s) =
     (if s = [] then Some JNull else (case json_decode s of JDoc j \<Rightarrow> Some j | _ \<Rightarrow> None))"
| "json_of (GMap kvs) =
     map_option JObj
       (seq_opt (map (\<lambda>(k, r). map_option (Pair k) r) (sort_key fst (map (map_prod id json_of) kvs))))"

text \<open>The text \<open>json.Marshal\<close> returns; on an error the source goes on with nil bytes.\<close>

definition marshal :: "gval \<Rightarrow> string" where
  "marshal v = (case json_of v of Some j \<Rightarrow> json_encode j | None \<Rightarrow> [])"

text \<open>Type assertions \<open>v.(T)\<close> with the comma-ok form.\<close>

fun as_string :: "gval option \<Rightarrow> string option" where
  "as_string (Some (GStr s)) = Some s"
| "as_string _ = None"

fun as_map :: "gval option \<Rightarrow> gmap option" where
  "as_map (Some (GMap m)) = Some m"
| "as_map _ = None"

fun as_float :: "gval option \<Rightarrow> float64 option" where
  "as_float (Some (GFloat f)) = Some f"
| "as_float _ = None"

fun as_int :: "gval option \<Rightarrow> int option" where
  "as_int (Some (GInt n)) = Some n"
| "as_int _ = None"

fun as_bool :: "gval option \<Rightarrow> bool option" where
  "as_bool (Some (GBool b)) = Some b"
| "as_bool _ = None"

definition str_or_empty :: "gval option \<Rightarrow> string" where
  "str_or_empty v = (case as_string v of Some s \<Rightarrow> s | None \<Rightarrow> [])"

section \<open>Decoding into Go types\<close>

text \<open>
  The decoders of \<open>encoding/json\<close> for the field types the structs of the source use.  Each takes the present value of
  the field and returns the new one, or \<open>None\<close> when \<open>Unmarshal\<close> records a type error: every caller
  drops the struct once an error is recorded.  A null leaves a scalar alone and makes a map nil; an
  object is merged into the map the field already has.
\<close>

fun dec_bool :: "bool \<Rightarrow> json \<Rightarrow> bool option" where
  "dec_bool old JNull = Some old"
| "dec_bool old (JBool b) = Some b"
| "dec_bool old _ = None"

definition dec_num :: "json \<Rightarrow> float64 option" where
  "dec_num j = (case num_float j of Fin r \<Rightarrow> Some (Fin r) | _ \<Rightarrow> None)"

fun dec_float :: "float64 \<Rightarrow> json \<Rightarrow> float64 option" where
  "dec_float old JNull = Some old"
| "dec_float old (JInt n) = dec_num (JInt n)"
| "dec_float old (JDec m e) = dec_num (JDec m e)"
| "dec_float old _ = None"

fun dec_int64 :: "int \<Rightarrow> json \<Rightarrow> int option" where
  "dec_int64 old JNull = Some old"
| "dec_int64 old (JInt n) = (if in_i64 n then Some n else None)"
| "dec_int64 old _ = None"

fun dec_entries :: "('a \<Rightarrow> json \<Rightarrow> 'a option) \<Rightarrow> 'a \<Rightarrow> 'a gomap \<Rightarrow> (string \<times> json) list \<Rightarrow> 'a gomap option" where
  "dec_entries dec zero m [] = Some m"
| "dec_entries dec zero m ((k, j) # kvs) =
     (case dec zero j of None \<Rightarrow> None | Some v \<Rightarrow> dec_entries dec zero (mset_at k v m) kvs)"

fun dec_map :: "('a \<Rightarrow> json \<Rightarrow> 'a option) \<Rightarrow> 'a \<Rightarrow> 'a gomap option \<Rightarrow> json \<Rightarrow> 'a gomap option option" where
  "dec_map dec zero old JNull = Some None"
| "dec_map dec zero old (JObj kvs) =
     map_option Some (dec_entries dec zero (case old of None \<Rightarrow> [] | Some m \<Rightarrow> m) kvs)"
| "dec_map dec zero old _ = None"

fun dec_string :: "string \<Rightarrow> json \<Rightarrow> string option" where
  "dec_string old JNull = Some old"
| "dec_string old (JStr s) = Some s"
| "dec_string old _ = None"

fun dec_list :: "(json \<Rightarrow> 'a option) \<Rightarrow> 'a list option \<Rightarrow> json \<Rightarrow> 'a list option option" where
  "dec_list dec old JNull = Some None"
| "dec_list dec old (JArr js) = map_option Some (seq_opt (map dec js))"
| "dec_list dec old _ = None"

text \<open>
  A \<open>json.RawMessage\<close> field keeps the text of the value; here it is the text the encoder writes for
  it, so that white space and the spelling of numbers and escapes are normalised.
\<close>

definition dec_raw :: "json \<Rightarrow> string option" where
  "dec_raw j = Some (json_encode j)"

text \<open>A map of untyped values: null makes it nil, an object is merged into it.\<close>

fun dec_anymap :: "gmap option \<Rightarrow> json \<Rightarrow> gmap option option" where
  "dec_anymap old JNull = Some None"
| "dec_anymap old (JObj kvs) =
     (if any_err (JObj kvs) then None
      else Some (Some (assign_all (case old of None \<Rightarrow> [] | Some m \<Rightarrow> m) (map (map_prod id any_of) kvs))))"
| "dec_anymap old _ = None"

text \<open>
  Structs.  A field is found by its exact name or, failing that, by its name in other letter case (no
  struct of the source has two names that differ in case only); unknown names are skipped.
\<close>

fun dec_object :: "(string \<times> ('r \<Rightarrow> json \<Rightarrow> 'r option)) list \<Rightarrow> 'r \<Rightarrow> (string \<times> json) list \<Rightarrow> 'r option" where
  "dec_object fs r [] = Some r"
| "dec_object fs r ((k, j) # kvs) =
     (case find (\<lambda>f. EqualFold k (fst f)) fs of
        None \<Rightarrow> dec_object fs r kvs
      | Some f \<Rightarrow> (case snd f r j of None \<Rightarrow> None | Some r' \<Rightarrow> dec_object fs r' kvs))"

fun dec_struct :: "(string \<times> ('r \<Rightarrow> json \<Rightarrow> 'r option)) list \<Rightarrow> 'r \<Rightarrow> json \<Rightarrow> 'r option" where
  "dec_struct fs old JNull = Some old"
| "dec_struct fs old (JObj kvs) = dec_object fs old kvs"
| "dec_struct fs old _ = None"

definition unmarshal_struct :: "(string \<times> ('r \<Rightarrow> json \<Rightarrow> 'r option)) list \<Rightarrow> 'r \<Rightarrow> jtext \<Rightarrow> 'r option" where
  "unmarshal_struct fs zero t = (case t of JDoc j \<Rightarrow> dec_struct fs zero j | _ \<Rightarrow> None)"

text \<open>What every field decoder keeps, the struct decoder keeps.\<close>

lemma dec_object_keeps:
  assumes "\<And>n f r j r'. (n, f) \<in> set fs \<Longrightarrow> P r \<Longrightarrow> f r j = Some r' \<Longrightarrow> P r'"
  shows "P r \<Longrightarrow> dec_object fs r kvs = Some r' \<Longrightarrow> P r'"
proof (induction kvs arbitrary: r)
  case Nil
  then show ?case by simp
next
  case (Cons e kvs)
  obtain k j where e: "e = (k, j)" by (cases e)
  show ?case
  proof (cases "find (\<lambda>f. EqualFold k (fst f)) fs")
    case None
    with Cons e show ?thesis by simp
  next
    case (Some nf)
    with Cons.prems e obtain r1 where r1: "snd nf r j = Some r1" "dec_object fs r1 kvs = Some r'"
      by (auto split: option.splits)
    have "(fst nf, snd nf) \<in> set fs" using find_SomeD [OF Some] by simp
    from assms [OF this Cons.prems(1) r1(1)] r1(2) show ?thesis by (rule Cons.IH)
  qed
qed

lemma unmarshal_struct_keeps:
  assumes "\<And>n f r j r'. (n, f) \<in> set fs \<Longrightarrow> P r \<Longrightarrow> f r j = Some r' \<Longrightarrow> P r'" and "P zero"
    and "unmarshal_struct fs zero t = Some r"
  shows "P r"
proof -
  from assms(3) obtain j where j: "dec_struct fs zero j = Some r"
    by (auto simp: unmarshal_struct_def split: jtext.splits)
  have "dec_object fs zero kvs = Some r \<Longrightarrow> P r" for kvs
    using dec_object_keeps [of fs P] assms(1,2) by blast
  with j assms(2) show ?thesis by (cases j) auto
qed

lemma dec_int64_range: "dec_int64 old j = Some n \<Longrightarrow> in_i64 old \<Longrightarrow> in_i64 n"
  by (cases j) (auto split: if_splits)

lemma unmarshal_int64_range [simp, intro]: "in_i64 (unmarshal_int64 t)"
  by (induction t rule: unmarshal_int64.induct) (simp_all add: in_i64_iff)

section \<open>Decimal text\<close>

lemma digit_char [simp]:
  "n < 10 \<Longrightarrow> is_digit (char_of (48 + n))" "n < 10 \<Longrightarrow> digit_val (char_of (48 + n)) = n"
  by (simp_all add: is_digit_def digit_val_def)

lemma nat_of_digits_snoc [simp]: "nat_of_digits (s @ [c]) = 10 * nat_of_digits s + digit_val c"
  by (simp add: nat_of_digits_def)

lemma show_nat_ne [simp]: "show_nat n \<noteq> []"
  by (subst show_nat.simps) simp

lemma nat_of_digits_show_nat [simp]: "nat_of_digits (show_nat n) = n"
proof (induction n rule: show_nat.induct)
  case (1 n)
  show ?case
  proof (cases "n < 10")
    case True
    then show ?thesis by (subst show_nat.simps) (simp add: nat_of_digits_def)
  next
    case False
    with 1 have "nat_of_digits (show_nat (n div 10)) = n div 10" by simp
    with False show ?thesis by (subst show_nat.simps) simp
  qed
qed

lemma show_nat_digits [simp]: "list_all is_digit (show_nat n)"
proof (induction n rule: show_nat.induct)
  case (1 n)
  then show ?case by (cases "n < 10"; subst show_nat.simps) simp_all
qed

lemma show_nat_hd: "show_nat n = c # t \<Longrightarrow> is_digit c"
  using show_nat_digits [of n] by simp

lemma not_digit [simp]: "\<not> is_digit (CHR ''-'')" "\<not> is_digit (CHR ''+'')"
  by (simp_all add: is_digit_def)

lemma show_nat_inj: "show_nat m = show_nat n \<Longrightarrow> m = n"
  by (metis nat_of_digits_show_nat)

lemma show_nat_no_sign: "CHR ''-'' # t \<noteq> show_nat n"
  using show_nat_hd [of n "CHR ''-''" t] not_digit(1) by metis

lemma show_int_inj: "show_int m = show_int n \<Longrightarrow> m = n"
  using show_nat_inj [of "nat m" "nat n"] show_nat_inj [of "nat (- m)" "nat (- n)"]
    show_nat_no_sign [of "show_nat (nat (- m))" "nat n"] show_nat_no_sign [of "show_nat (nat (- n))" "nat m"]
  by (simp add: show_int_def split: if_splits)

lemma show_nat_no_leading_zero: "0 < n \<Longrightarrow> hd (show_nat n) \<noteq> CHR ''0''"
proof (induction n rule: show_nat.induct)
  case (1 n)
  show ?case
  proof (cases "n < 10")
    case True
    have "CHR ''0'' = char_of (48 :: nat)" by code_simp
    moreover have "char_of (48 + n) \<noteq> (char_of (48 :: nat) :: char)"
      using True 1(2) by (metis add_cancel_right_right less_irrefl digit_char(2) add.right_neutral zero_less_numeral)
    ultimately show ?thesis using True by (subst show_nat.simps) simp
  next
    case False
    with 1 have "hd (show_nat (n div 10)) \<noteq> CHR ''0''" by simp
    with False show ?thesis by (subst show_nat.simps) simp
  qed
qed

lemma parse_num_digits:
  assumes "list_all is_digit (c # t)" "\<not> (c = CHR ''0'' \<and> t \<noteq> [])"
  shows "parse_num (c # t) = Some (JInt (int (nat_of_digits (c # t))))"
    and "parse_num (CHR ''-'' # c # t) = Some (JInt (- int (nat_of_digits (c # t))))"
proof -
  have c: "c \<noteq> CHR ''-''" using assms(1) by auto
  have tw: "takeWhile is_digit (c # t) = c # t" "dropWhile is_digit (c # t) = []"
    using assms(1) by (simp_all add: takeWhile_eq_all_conv list_all_iff)
  show "parse_num (c # t) = Some (JInt (int (nat_of_digits (c # t))))"
    using c tw assms(2) by (simp add: parse_num_def Let_def)
  show "parse_num (CHR ''-'' # c # t) = Some (JInt (- int (nat_of_digits (c # t))))"
    using tw assms(2) by (simp add: parse_num_def Let_def)
qed

lemma show_nat_shape:
  obtains c t where "show_nat n = c # t" "list_all is_digit (c # t)" "\<not> (c = CHR ''0'' \<and> t \<noteq> [])"
proof -
  obtain c t where s: "show_nat n = c # t" by (cases "show_nat n") simp_all
  have "\<not> (c = CHR ''0'' \<and> t \<noteq> [])"
  proof (cases "n = 0")
    case True
    then have "show_nat n = [char_of (48 :: nat)]" by (subst show_nat.simps) simp
    then show ?thesis using s by simp
  next
    case False
    then show ?thesis using show_nat_no_leading_zero [of n] s by simp
  qed
  with s show thesis using show_nat_digits [of n] by (intro that) simp_all
qed

lemma parse_num_show_nat:
  "parse_num (show_nat n) = Some (JInt (int n))" "parse_num (CHR ''-'' # show_nat n) = Some (JInt (- int n))"
proof -
  obtain c t where s: "show_nat n = c # t" "list_all is_digit (c # t)" "\<not> (c = CHR ''0'' \<and> t \<noteq> [])"
    by (rule show_nat_shape)
  have "nat_of_digits (c # t) = n" using nat_of_digits_show_nat [of n] by (simp add: s(1))
  with parse_num_digits [OF s(2,3)]
  show "parse_num (show_nat n) = Some (JInt (int n))" "parse_num (CHR ''-'' # show_nat n) = Some (JInt (- int n))"
    by (simp_all add: s(1))
qed

lemma digits_step: "list_all is_digit s \<Longrightarrow> foldl json_step (MNum acc, st) s = (MNum (rev s @ acc), st)"
  by (induction s arbitrary: acc) (simp_all add: is_numchar_def)

text \<open>The decoder reads an integer that was written in decimal.\<close>

lemma number_start: "c = CHR ''-'' \<or> is_digit c \<Longrightarrow> json_step (MValue, st) c = (MNum [c], st)"
proof -
  assume c: "c = CHR ''-'' \<or> is_digit c"
  have "\<forall>x \<in> set [CHR '' '', CHR 0x09, CHR 0x0A, CHR 0x0D, CHR ''{'', CHR ''['', CHR 0x22, CHR ''t'', CHR ''f'', CHR ''n''].
      \<not> is_digit x \<and> x \<noteq> CHR ''-''"
    by code_simp
  with c show ?thesis by (auto simp: is_ws_def begin_value_def)
qed

lemma json_decode_number:
  assumes "c = CHR ''-'' \<or> is_digit c" "list_all is_digit t" "parse_num (c # t) = Some v"
  shows "json_decode (c # t) = JDoc v"
  using assms by (simp add: json_decode_def number_start digits_step del: json_step.simps)

lemma json_decode_show_int [simp]: "json_decode (show_int n) = JDoc (JInt n)"
proof (cases "n < 0")
  case True
  then show ?thesis
    using json_decode_number [of "CHR ''-''" "show_nat (nat (- n))"] parse_num_show_nat(2) [of "nat (- n)"]
    by (simp add: show_int_def)
next
  case False
  obtain c t where s: "show_nat (nat n) = c # t" "list_all is_digit (c # t)" by (rule show_nat_shape)
  from False json_decode_number [of c t] s parse_num_show_nat(1) [of "nat n"] show ?thesis
    by (simp add: show_int_def)
qed

end
