(* ===== verification/Models.thy ===== *)
theory Models
  imports Go_Json
begin

text \<open>
  The data of \<open>internal/models/models.go\<close>, one record per struct, fields in the source's order
  under the source's names with the initials of the struct in front.  An instant is a number of
  microseconds since the epoch (PostgreSQL's resolution); a \<open>*T\<close> field is an \<open>option\<close>; a
  \<open>json.RawMessage\<close> is the byte string it is.
\<close>

type_synonym RawMessage = string
type_synonym instant = int

record User =
  u_ID :: uuid
  u_Email :: string
  u_Status :: string
  u_CreditBalanceMicro :: int
  u_CreatedAt :: instant
  u_UpdatedAt :: instant

record QuarkGateKey =
  k_ID :: uuid
  k_UserID :: uuid
  k_KeyPrefix :: string
  k_KeyHash :: string
  k_Name :: string
  k_Scopes :: RawMessage
  k_RateLimitRPM :: int
  k_Status :: string
  k_LastUsedAt :: "instant option"
  k_CreatedAt :: instant
  k_RevokedAt :: "instant option"

record ProviderConfig =
  p_ID :: uuid
  p_ProviderSlug :: string
  p_DisplayName :: string
  p_Category :: string
  p_BaseURL :: string
  p_AuthInjection :: RawMessage
  p_PricingModel :: RawMessage
  p_HealthCheckPath :: string
  p_Enabled :: bool
  p_DriverModule :: string

record UsageLog =
  ul_ID :: uuid
  ul_UserID :: uuid
  ul_QuarkGateKeyID :: uuid
  ul_ProviderSlug :: string
  ul_Operation :: string
  ul_RequestID :: uuid
  ul_Status :: string
  ul_RawUsage :: RawMessage
  ul_NormalizedUsage :: RawMessage
  ul_CreditsReservedMicro :: int
  ul_CreditsCapturedMicro :: int
  ul_LatencyMs :: "int option"
  ul_TraceID :: string
  ul_StartedAt :: instant
  ul_CompletedAt :: "instant option"
  ul_CaptureTxnID :: "uuid option"
  ul_ReleaseTxnID :: "uuid option"

record LedgerTransaction =
  lt_ID :: uuid
  lt_UserID :: uuid
  lt_Type :: string
  lt_AmountMicro :: int
  lt_BalanceAfterMicro :: int
  lt_ReferenceType :: string
  lt_ReferenceID :: "uuid option"
  lt_IdempotencyKey :: string
  lt_CreatedAt :: instant

record MeteringEvent =
  me_RequestID :: string
  me_UserID :: string
  me_KeyID :: string
  me_Provider :: string
  me_Operation :: string
  me_Status :: string
  me_RawUsage :: RawMessage
  me_Partial :: bool
  me_DurationMs :: int
  me_Timestamp :: string
  me_Error :: string
  me_HoldMicro :: int
  me_IdempotencyKey :: string
  me_Envelope :: RawMessage

record MeteringHints =
  mh_EstimatedMaxCredits :: int
  mh_Priority :: string

record QuarkGateEnvelope =
  e_QuarkgateVersion :: string
  e_Provider :: string
  e_Operation :: string
  e_Payload :: RawMessage
  e_MeteringHints :: "MeteringHints option"
  e_TraceID :: string

record DownstreamRequest =
  dr_URL :: string
  dr_Method :: string
  dr_Headers :: "string gomap"
  dr_Body :: RawMessage
  dr_Streaming :: bool
  dr_Provider :: string
  dr_Operation :: string
  dr_EstimateMicro :: int

record RouteMatch =
  rm_Provider :: string
  rm_Operation :: string
  rm_Compat :: bool

end
