(* ===== verification/Postgres.thy ===== *)
theory Postgres
  imports Models
begin

text \<open>
  The PostgreSQL database as the SQL statements of the source see it: the tables that
  \<open>migrations/001_initial.sql\<close> and \<open>003_usage_ledger_links.sql\<close> create with the constraints
  these declare, the statements that more than one operation issues, single statements outside a
  transaction (\<open>pg_call\<close>), and transactions (\<open>in_tx\<close>: \<open>Begin\<close>, the deferred \<open>Rollback\<close>, and
  \<open>Commit\<close>).  The list order of a table is the order in which a scan happens to return its rows,
  which SQL leaves open; facts hold for every order.
\<close>

section \<open>Tables\<close>

record provider_row =
  pr_ID :: uuid
  pr_provider_slug :: string
  pr_display_name :: string
  pr_category :: string
  pr_base_url :: string
  pr_auth_injection :: RawMessage
  pr_pricing_model :: RawMessage
  pr_health_check_path :: "string option"
  pr_enabled :: bool
  pr_driver_module :: string

record vault_row =
  cv_ID :: uuid
  cv_provider_config_id :: uuid
  cv_label :: string
  cv_encrypted_blob :: string
  cv_rotated_at :: "instant option"

record session_row =
  ms_request_id :: uuid
  ms_user_id :: uuid
  ms_hold_micro :: int
  ms_expires_at :: instant

record tables =
  t_users :: "User list"
  t_keys :: "QuarkGateKey list"
  t_providers :: "provider_row list"
  t_vault :: "vault_row list"
  t_ledger :: "LedgerTransaction list"
  t_usage :: "UsageLog list"
  t_sessions :: "session_row list"
  t_migrations :: "string list"

text \<open>
  The server: its tables, its clock (\<open>NOW()\<close>), the identifiers \<open>gen_random_uuid()\<close> will return,
  and the fates of the calls to come.
\<close>

record pg =
  pg_tabs :: tables
  pg_now :: instant
  pg_uuids :: "uuid list"
  pg_fates :: "fate list"

fun next_uuid :: "uuid list \<Rightarrow> uuid \<times> uuid list" where
  "next_uuid [] = (uuid_Nil, [])"
| "next_uuid (i # us) = (i, us)"

type_synonym 'a stmt = "pg \<Rightarrow> 'a result \<times> pg"

section \<open>Calls and transactions\<close>

definition pg_call :: "'a stmt \<Rightarrow> 'a stmt" where
  "pg_call q d =
     (let d1 = d\<lparr>pg_fates := tl (pg_fates d)\<rparr>
      in case fst (next_fate (pg_fates d)) of
           Answered \<Rightarrow> q d1
         | LostRequest \<Rightarrow> (Inl ErrConn, d1)
         | LostReply \<Rightarrow> (Inl ErrConn, snd (q d1)))"

definition pg_commit :: "tables \<Rightarrow> 'a \<Rightarrow> 'a stmt" where
  "pg_commit T0 x d =
     (let d1 = d\<lparr>pg_fates := tl (pg_fates d)\<rparr>
      in case fst (next_fate (pg_fates d)) of
           Answered \<Rightarrow> (Inr x, d1)
         | LostRequest \<Rightarrow> (Inl ErrConn, d1\<lparr>pg_tabs := T0\<rparr>)
         | LostReply \<Rightarrow> (Inl ErrConn, d1))"

definition in_tx :: "'a stmt \<Rightarrow> 'a stmt" where
  "in_tx body d =
     (case pg_call (\<lambda>d. (Inr (), d)) d of
        (Inl e, d1) \<Rightarrow> (Inl e, d1)
      | (Inr _, d1) \<Rightarrow>
          (case body d1 of
             (Inl e, d2) \<Rightarrow> (Inl e, d2\<lparr>pg_tabs := pg_tabs d1\<rparr>)
           | (Inr x, d2) \<Rightarrow> pg_commit (pg_tabs d1) x d2))"

text \<open>\<open>if err != nil { return err }\<close> between two statements.\<close>

definition and_then :: "'a stmt \<Rightarrow> ('a \<Rightarrow> 'b stmt) \<Rightarrow> 'b stmt" where
  "and_then m f d = (case m d of (Inl e, d1) \<Rightarrow> (Inl e, d1) | (Inr x, d1) \<Rightarrow> f x d1)"

definition stmt_return :: "'a \<Rightarrow> 'a stmt" where
  "stmt_return x d = (Inr x, d)"

definition stmt_fail :: "goerr \<Rightarrow> 'a stmt" where
  "stmt_fail e d = (Inl e, d)"

section \<open>Statements\<close>

text \<open>A query that returns one row to \<open>Scan\<close>.\<close>

definition select_row :: "(tables \<Rightarrow> 'a option) \<Rightarrow> 'a stmt" where
  "select_row f d = (case f (pg_tabs d) of None \<Rightarrow> (Inl ErrNoRows, d) | Some x \<Rightarrow> (Inr x, d))"

definition user_by_id :: "uuid \<Rightarrow> tables \<Rightarrow> User option" where
  "user_by_id i T = find (\<lambda>u. u_ID u = i) (t_users T)"

definition balance_of :: "uuid \<Rightarrow> tables \<Rightarrow> int option" where
  "balance_of i T = map_option u_CreditBalanceMicro (user_by_id i T)"

text \<open>\<open>UPDATE users SET credit_balance_micro = v, updated_at = NOW() WHERE id = i\<close>.\<close>

definition set_balance_row :: "uuid \<Rightarrow> int \<Rightarrow> instant \<Rightarrow> User \<Rightarrow> User" where
  "set_balance_row i v n u =
     (if u_ID u = i then u\<lparr>u_CreditBalanceMicro := v, u_UpdatedAt := n\<rparr> else u)"

definition update_balance :: "uuid \<Rightarrow> int \<Rightarrow> unit stmt" where
  "update_balance i v d =
     (let T = pg_tabs d
      in if v < 0 \<and> user_by_id i T \<noteq> None
         then (Inl (ErrCheck ''users_credit_balance_micro_check''), d)
         else (Inr (), d\<lparr>pg_tabs := T\<lparr>t_users := map (set_balance_row i v (pg_now d)) (t_users T)\<rparr>\<rparr>))"

text \<open>\<open>INSERT INTO credit_ledger_transactions \<dots> RETURNING id\<close>.\<close>

definition insert_ledger ::
    "uuid \<Rightarrow> string \<Rightarrow> int \<Rightarrow> int \<Rightarrow> string \<Rightarrow> uuid option \<Rightarrow> string \<Rightarrow> uuid stmt" where
  "insert_ledger i ty amount after rty rid idem d =
     (let (x, us) = next_uuid (pg_uuids d); d1 = d\<lparr>pg_uuids := us\<rparr>; T = pg_tabs d
      in if x \<in> lt_ID ` set (t_ledger T) then (Inl (ErrUnique ''credit_ledger_transactions_pkey''), d1)
         else if idem \<in> lt_IdempotencyKey ` set (t_ledger T)
         then (Inl (ErrUnique ''credit_ledger_transactions_idempotency_key_key''), d1)
         else if i \<notin> u_ID ` set (t_users T)
         then (Inl (ErrForeignKey ''credit_ledger_transactions_user_id_fkey''), d1)
         else (Inr x, d1\<lparr>pg_tabs := T\<lparr>t_ledger := t_ledger T @
           [\<lparr>lt_ID = x, lt_UserID = i, lt_Type = ty, lt_AmountMicro = amount,
             lt_BalanceAfterMicro = after, lt_ReferenceType = rty, lt_ReferenceID = rid,
             lt_IdempotencyKey = idem, lt_CreatedAt = pg_now d\<rparr>]\<rparr>\<rparr>))"

text \<open>A parameter bound to a \<open>JSONB NOT NULL\<close> column has to be a JSON document.\<close>

definition valid_jsonb :: "RawMessage \<Rightarrow> bool" where
  "valid_jsonb s \<longleftrightarrow> (case json_decode s of JDoc _ \<Rightarrow> True | _ \<Rightarrow> False)"

definition valid_int4 :: "int \<Rightarrow> bool" where
  "valid_int4 n \<longleftrightarrow> -2147483648 \<le> n \<and> n \<le> 2147483647"

definition usage_statuses :: "string list" where
  "usage_statuses = [''pending'', ''completed'', ''failed'', ''partial'']"

section \<open>Facts about calls\<close>

lemma pg_call_Inr_iff:
  "pg_call q d = (Inr x, d') \<longleftrightarrow>
     fst (next_fate (pg_fates d)) = Answered \<and> q (d\<lparr>pg_fates := tl (pg_fates d)\<rparr>) = (Inr x, d')"
  by (cases "fst (next_fate (pg_fates d))") (simp_all add: pg_call_def)

lemma pg_call_InrD:
  "pg_call q d = (Inr x, d') \<Longrightarrow> q (d\<lparr>pg_fates := tl (pg_fates d)\<rparr>) = (Inr x, d')"
  by (simp add: pg_call_Inr_iff)

lemma pg_call_cases:
  obtains "fst (next_fate (pg_fates d)) = Answered"
      "pg_call q d = q (d\<lparr>pg_fates := tl (pg_fates d)\<rparr>)"
  | "pg_call q d = (Inl ErrConn, d\<lparr>pg_fates := tl (pg_fates d)\<rparr>)"
  | "pg_call q d = (Inl ErrConn, snd (q (d\<lparr>pg_fates := tl (pg_fates d)\<rparr>)))"
  by (cases "fst (next_fate (pg_fates d))") (simp_all add: pg_call_def)

lemma pg_commit_Inr:
  "pg_commit T0 x d = (Inr y, d') \<Longrightarrow> y = x \<and> pg_tabs d' = pg_tabs d \<and> pg_now d' = pg_now d"
  by (cases "fst (next_fate (pg_fates d))") (auto simp: pg_commit_def)

lemma and_then_Inr:
  assumes "and_then m f d = (Inr y, d')"
  obtains x d1 where "m d = (Inr x, d1)" "f x d1 = (Inr y, d')"
proof (cases "m d")
  case (Pair r d1)
  with assms that show thesis by (cases r) (simp_all add: and_then_def)
qed

text \<open>A committed transaction is its body; an uncommitted one may still have taken effect.\<close>

lemma in_tx_Inr:
  assumes "in_tx body d = (Inr x, d')"
  obtains d1 d2 where "d1 = d\<lparr>pg_fates := tl (pg_fates d)\<rparr>" "body d1 = (Inr x, d2)"
    "pg_tabs d' = pg_tabs d2" "pg_now d' = pg_now d2"
proof -
  let ?d1 = "d\<lparr>pg_fates := tl (pg_fates d)\<rparr>"
  obtain r d2 where b: "body ?d1 = (r, d2)" by (cases "body ?d1")
  from assms have "fst (next_fate (pg_fates d)) = Answered"
    by (cases "fst (next_fate (pg_fates d))") (simp_all add: in_tx_def pg_call_def)
  with assms b obtain y where r: "r = Inr y" and c: "pg_commit (pg_tabs d) y d2 = (Inr x, d')"
    by (cases r) (simp_all add: in_tx_def pg_call_def)
  from pg_commit_Inr [OF c] b r show thesis by (intro that [OF refl]) simp_all
qed

text \<open>
  \<open>keeps P q\<close>: whatever becomes of the call, a table state that satisfied \<open>P\<close> still does.
  \<open>on_success P q\<close> only speaks of answered calls.
\<close>

definition keeps :: "(tables \<Rightarrow> bool) \<Rightarrow> 'a stmt \<Rightarrow> bool" where
  "keeps P q \<longleftrightarrow> (\<forall>d. P (pg_tabs d) \<longrightarrow> P (pg_tabs (snd (q d))))"

definition on_success :: "(tables \<Rightarrow> bool) \<Rightarrow> 'a stmt \<Rightarrow> bool" where
  "on_success P q \<longleftrightarrow> (\<forall>d x d'. P (pg_tabs d) \<longrightarrow> q d = (Inr x, d') \<longrightarrow> P (pg_tabs d'))"

lemma keepsI: "(\<And>d. P (pg_tabs d) \<Longrightarrow> P (pg_tabs (snd (q d)))) \<Longrightarrow> keeps P q"
  by (simp add: keeps_def)

lemma keepsD: "keeps P q \<Longrightarrow> P (pg_tabs d) \<Longrightarrow> P (pg_tabs (snd (q d)))"
  by (simp add: keeps_def)

lemma keeps_pairD: "keeps P q \<Longrightarrow> P (pg_tabs d) \<Longrightarrow> q d = (r, d') \<Longrightarrow> P (pg_tabs d')"
  using keepsD [of P q d] by simp

lemma keeps_pg_call [inv_rules]:
  assumes "keeps P q"
  shows "keeps P (pg_call q)"
proof (rule keepsI)
  fix d :: pg
  assume "P (pg_tabs d)"
  then have "P (pg_tabs (d\<lparr>pg_fates := tl (pg_fates d)\<rparr>))" by simp
  from this keepsD [OF assms this] show "P (pg_tabs (snd (pg_call q d)))"
    by (cases rule: pg_call_cases [of d q]) simp_all
qed

lemma keeps_and_then [inv_rules]:
  assumes "keeps P m" and "\<And>x. keeps P (f x)"
  shows "keeps P (and_then m f)"
proof (rule keepsI)
  fix d :: pg
  assume d: "P (pg_tabs d)"
  obtain r d1 where m: "m d = (r, d1)" by (cases "m d")
  have "P (pg_tabs d1)" using keeps_pairD [OF assms(1) d m] .
  then show "P (pg_tabs (snd (and_then m f d)))"
    using m keepsD [OF assms(2)] by (cases r) (simp_all add: and_then_def)
qed

lemma keeps_select_row [inv_rules]: "keeps P (select_row f)"
proof (rule keepsI)
  fix d :: pg
  assume "P (pg_tabs d)"
  then show "P (pg_tabs (snd (select_row f d)))"
    by (cases "f (pg_tabs d)") (simp_all add: select_row_def)
qed

lemma keeps_return [inv_rules]: "keeps P (stmt_return x)" "keeps P (stmt_fail e)"
  by (simp_all add: keeps_def stmt_return_def stmt_fail_def)

text \<open>A transaction keeps what its body establishes whenever the body runs to its end.\<close>

lemma keeps_in_tx:
  assumes "on_success P body"
  shows "keeps P (in_tx body)"
proof (rule keepsI)
  fix d :: pg
  assume P: "P (pg_tabs d)"
  let ?d1 = "d\<lparr>pg_fates := tl (pg_fates d)\<rparr>"
  obtain r d2 where b: "body ?d1 = (r, d2)" by (cases "body ?d1")
  have ok: "r = Inr x \<Longrightarrow> P (pg_tabs d2)" for x
    using assms [unfolded on_success_def, rule_format, of ?d1 x d2] P b by simp
  show "P (pg_tabs (snd (in_tx body d)))"
  proof (cases "fst (next_fate (pg_fates d)) = Answered")
    case True
    with b P ok show ?thesis
      by (cases r; cases "fst (next_fate (pg_fates d2))")
        (simp_all add: in_tx_def pg_call_def pg_commit_def)
  next
    case False
    with P show ?thesis
      by (cases "fst (next_fate (pg_fates d))") (simp_all add: in_tx_def pg_call_def)
  qed
qed

end
