(* ===== verification/Store.thy ===== *)
theory Store
  imports Postgres
begin

text \<open>
  The operations of \<open>internal/store/store.go\<close>, in the source's order.  An operation that the source
  runs inside \<open>pool.Begin\<close> \<dots> \<open>tx.Commit\<close> is an \<open>in_tx\<close>; every SQL statement is one \<open>pg_call\<close>.
  Where the source returns a value beside an error, the callers drop the value, and so does the
  model.  The text form of an identifier (\<open>uuid.String\<close> of \<open>github.com/google/uuid\<close>) is the
  parameter \<open>ustr\<close>.
\<close>

section \<open>Operations\<close>

subsection \<open>Users and deposits\<close>

definition CreateUser :: "string \<Rightarrow> User stmt" where
  "CreateUser email =
     pg_call (\<lambda>d.
       let (i, us) = next_uuid (pg_uuids d); d1 = d\<lparr>pg_uuids := us\<rparr>; T = pg_tabs d;
           u = \<lparr>u_ID = i, u_Email = email, u_Status = ''active'', u_CreditBalanceMicro = 0,
                u_CreatedAt = pg_now d, u_UpdatedAt = pg_now d\<rparr>
       in if i \<in> u_ID ` set (t_users T) then (Inl (ErrUnique ''users_pkey''), d1)
          else if email \<in> u_Email ` set (t_users T) then (Inl (ErrUnique ''users_email_key''), d1)
          else (Inr u, d1\<lparr>pg_tabs := T\<lparr>t_users := t_users T @ [u]\<rparr>\<rparr>))"

definition GetUser :: "uuid \<Rightarrow> User stmt" where
  "GetUser i = pg_call (select_row (user_by_id i))"

text \<open>\<open>UPDATE users SET credit_balance_micro = credit_balance_micro + amount \<dots> RETURNING\<close>.\<close>

definition add_balance :: "uuid \<Rightarrow> int \<Rightarrow> int stmt" where
  "add_balance i amount d =
     (case balance_of i (pg_tabs d) of
        None \<Rightarrow> (Inl ErrNoRows, d)
      | Some b \<Rightarrow>
          if \<not> in_i64 (b + amount) then (Inl ErrOutOfRange, d)
          else and_then (update_balance i (b + amount)) (\<lambda>_. stmt_return (b + amount)) d)"

text \<open>The statements between \<open>Begin\<close> and \<open>Commit\<close> of a transaction are the \<open>_tx\<close> definitions.\<close>

definition deposit_tx :: "uuid \<Rightarrow> int \<Rightarrow> string \<Rightarrow> int stmt" where
  "deposit_tx userID amountMicro idempotencyKey =
     and_then (pg_call (add_balance userID amountMicro)) (\<lambda>balance.
     and_then
       (pg_call (insert_ledger userID ''deposit'' amountMicro balance ''admin'' None idempotencyKey))
       (\<lambda>_. stmt_return balance))"

definition DepositCredits :: "uuid \<Rightarrow> int \<Rightarrow> string \<Rightarrow> int stmt" where
  "DepositCredits userID amountMicro idempotencyKey =
     in_tx (deposit_tx userID amountMicro idempotencyKey)"

subsection \<open>API keys\<close>

definition CreateKey ::
    "uuid \<Rightarrow> string \<Rightarrow> string \<Rightarrow> string \<Rightarrow> RawMessage \<Rightarrow> int \<Rightarrow> QuarkGateKey stmt" where
  "CreateKey userID name keyPrefix hash scopes rpm =
     pg_call (\<lambda>d.
       let (i, us) = next_uuid (pg_uuids d); d1 = d\<lparr>pg_uuids := us\<rparr>; T = pg_tabs d;
           k = \<lparr>k_ID = i, k_UserID = userID, k_KeyPrefix = keyPrefix, k_KeyHash = hash, k_Name = name,
                k_Scopes = scopes, k_RateLimitRPM = rpm, k_Status = ''active'', k_LastUsedAt = None,
                k_CreatedAt = pg_now d, k_RevokedAt = None\<rparr>
       in if \<not> valid_jsonb scopes then (Inl (ErrInvalidText ''scopes''), d)
          else if \<not> valid_int4 rpm then (Inl ErrOutOfRange, d)
          else if i \<in> k_ID ` set (t_keys T) then (Inl (ErrUnique ''quarkgate_keys_pkey''), d1)
          else if hash \<in> k_KeyHash ` set (t_keys T)
          then (Inl (ErrUnique ''quarkgate_keys_key_hash_key''), d1)
          else if userID \<notin> u_ID ` set (t_users T)
          then (Inl (ErrForeignKey ''quarkgate_keys_user_id_fkey''), d1)
          else (Inr k, d1\<lparr>pg_tabs := T\<lparr>t_keys := t_keys T @ [k]\<rparr>\<rparr>))"

definition FindKeyByHash :: "string \<Rightarrow> QuarkGateKey stmt" where
  "FindKeyByHash hash =
     pg_call (select_row (\<lambda>T. find (\<lambda>k. k_KeyHash k = hash \<and> k_Status k = ''active'') (t_keys T)))"

subsection \<open>Providers\<close>

text \<open>\<open>Scan\<close> refuses to store a NULL \<open>health_check_path\<close> in a Go string.\<close>

definition scan_provider :: "provider_row \<Rightarrow> ProviderConfig result" where
  "scan_provider r =
     (case pr_health_check_path r of
        None \<Rightarrow> Inl (ErrMsg ''cannot scan NULL into *string'')
      | Some h \<Rightarrow>
          Inr \<lparr>p_ID = pr_ID r, p_ProviderSlug = pr_provider_slug r, p_DisplayName = pr_display_name r,
               p_Category = pr_category r, p_BaseURL = pr_base_url r,
               p_AuthInjection = pr_auth_injection r, p_PricingModel = pr_pricing_model r,
               p_HealthCheckPath = h, p_Enabled = pr_enabled r, p_DriverModule = pr_driver_module r\<rparr>)"

fun scan_all :: "('r \<Rightarrow> 'a result) \<Rightarrow> 'r list \<Rightarrow> 'a list result" where
  "scan_all f [] = Inr []"
| "scan_all f (r # rs) =
     (case f r of
        Inl e \<Rightarrow> Inl e
      | Inr x \<Rightarrow> (case scan_all f rs of Inl e \<Rightarrow> Inl e | Inr xs \<Rightarrow> Inr (x # xs)))"

definition ListProviderConfigs :: "ProviderConfig list stmt" where
  "ListProviderConfigs =
     pg_call (\<lambda>d. (scan_all scan_provider (filter pr_enabled (t_providers (pg_tabs d))), d))"

definition GetProviderBySlug :: "string \<Rightarrow> ProviderConfig stmt" where
  "GetProviderBySlug slug =
     pg_call (\<lambda>d.
       case find (\<lambda>r. pr_provider_slug r = slug \<and> pr_enabled r) (t_providers (pg_tabs d)) of
         None \<Rightarrow> (Inl ErrNoRows, d)
       | Some r \<Rightarrow> (scan_provider r, d))"

subsection \<open>Usage logs and metering sessions\<close>

definition CreateUsageLog :: "UsageLog \<Rightarrow> unit stmt" where
  "CreateUsageLog usageLog =
     pg_call (\<lambda>d.
       let T = pg_tabs d;
           row = usageLog\<lparr>ul_RawUsage := ''{}'', ul_NormalizedUsage := ''{}'', ul_CreditsCapturedMicro := 0,
                     ul_LatencyMs := None, ul_CompletedAt := None, ul_CaptureTxnID := None,
                     ul_ReleaseTxnID := None\<rparr>
       in if ul_Status usageLog \<notin> set usage_statuses then (Inl (ErrInvalidText ''usage_log_status''), d)
          else if ul_ID usageLog \<in> ul_ID ` set (t_usage T) then (Inl (ErrUnique ''usage_logs_pkey''), d)
          else if ul_RequestID usageLog \<in> ul_RequestID ` set (t_usage T)
          then (Inl (ErrUnique ''usage_logs_request_id_key''), d)
          else if ul_UserID usageLog \<notin> u_ID ` set (t_users T)
          then (Inl (ErrForeignKey ''usage_logs_user_id_fkey''), d)
          else if ul_QuarkGateKeyID usageLog \<notin> k_ID ` set (t_keys T)
          then (Inl (ErrForeignKey ''usage_logs_quarkgate_key_id_fkey''), d)
          else (Inr (), d\<lparr>pg_tabs := T\<lparr>t_usage := t_usage T @ [row]\<rparr>\<rparr>))"

definition CreateMeteringSession :: "uuid \<Rightarrow> uuid \<Rightarrow> int \<Rightarrow> instant \<Rightarrow> unit stmt" where
  "CreateMeteringSession requestID userID holdMicro expiresAt =
     pg_call (\<lambda>d.
       let T = pg_tabs d
       in if requestID \<in> ms_request_id ` set (t_sessions T)
          then (Inl (ErrUnique ''metering_sessions_pkey''), d)
          else if userID \<notin> u_ID ` set (t_users T)
          then (Inl (ErrForeignKey ''metering_sessions_user_id_fkey''), d)
          else (Inr (), d\<lparr>pg_tabs := T\<lparr>t_sessions := t_sessions T @
            [\<lparr>ms_request_id = requestID, ms_user_id = userID, ms_hold_micro = holdMicro,
              ms_expires_at = expiresAt\<rparr>]\<rparr>\<rparr>))"

definition DeleteMeteringSession :: "uuid \<Rightarrow> unit stmt" where
  "DeleteMeteringSession requestID =
     pg_call (\<lambda>d.
       let T = pg_tabs d
       in (Inr (), d\<lparr>pg_tabs := T\<lparr>t_sessions :=
            filter (\<lambda>s. ms_request_id s \<noteq> requestID) (t_sessions T)\<rparr>\<rparr>))"

definition GetExpiredSessions :: "nat \<Rightarrow> uuid list stmt" where
  "GetExpiredSessions limit =
     pg_call (\<lambda>d.
       (Inr (map ms_request_id
          (take limit (filter (\<lambda>s. ms_expires_at s < pg_now d) (t_sessions (pg_tabs d))))), d))"

subsection \<open>Hold, capture and release\<close>

definition hold_tx :: "uuid \<Rightarrow> int \<Rightarrow> uuid \<Rightarrow> string \<Rightarrow> int stmt" where
  "hold_tx userID holdMicro requestID idempotencyKey =
     and_then (pg_call (select_row (balance_of userID))) (\<lambda>balance.
       if balance < holdMicro then stmt_fail (ErrMsg ''insufficient credits'')
       else
         let newBalance = i64 (balance - holdMicro)
         in and_then (pg_call (update_balance userID newBalance)) (\<lambda>_.
            and_then
              (pg_call (insert_ledger userID ''hold'' (i64 (- holdMicro)) newBalance ''usage_log''
                 (Some requestID) idempotencyKey))
              (\<lambda>_. stmt_return newBalance)))"

definition ApplyHold :: "uuid \<Rightarrow> int \<Rightarrow> uuid \<Rightarrow> string \<Rightarrow> int stmt" where
  "ApplyHold userID holdMicro requestID idempotencyKey =
     in_tx (hold_tx userID holdMicro requestID idempotencyKey)"

record LedgerTxnIDs =
  CaptureTxnID :: "uuid option"
  ReleaseTxnID :: "uuid option"

text \<open>
  \<open>UPDATE usage_logs SET status, raw_usage, \<dots> WHERE request_id = $1\<close>.  The parameters are checked
  against the column types before any row is looked at.
\<close>

definition complete_usage ::
    "uuid \<Rightarrow> UsageLog \<Rightarrow> int \<Rightarrow> LedgerTxnIDs \<Rightarrow> unit stmt" where
  "complete_usage requestID usage captureMicro ids d =
     (let T = pg_tabs d;
          upd = (\<lambda>l. if ul_RequestID l = requestID
                 then l\<lparr>ul_Status := ul_Status usage, ul_RawUsage := ul_RawUsage usage,
                        ul_NormalizedUsage := ul_NormalizedUsage usage,
                        ul_CreditsCapturedMicro := captureMicro, ul_LatencyMs := ul_LatencyMs usage,
                        ul_CompletedAt := Some (pg_now d), ul_CaptureTxnID := CaptureTxnID ids,
                        ul_ReleaseTxnID := ReleaseTxnID ids\<rparr>
                 else l)
      in if ul_Status usage \<notin> set usage_statuses then (Inl (ErrInvalidText ''usage_log_status''), d)
         else if \<not> valid_jsonb (ul_RawUsage usage) then (Inl (ErrInvalidText ''raw_usage''), d)
         else if \<not> valid_jsonb (ul_NormalizedUsage usage) then (Inl (ErrInvalidText ''normalized_usage''), d)
         else if (case ul_LatencyMs usage of None \<Rightarrow> False | Some n \<Rightarrow> \<not> valid_int4 n)
         then (Inl ErrOutOfRange, d)
         else (Inr (), d\<lparr>pg_tabs := T\<lparr>t_usage := map upd (t_usage T)\<rparr>\<rparr>))"

text \<open>One optional ledger row of a settlement.\<close>

definition ledger_row_if_positive ::
    "int \<Rightarrow> uuid \<Rightarrow> string \<Rightarrow> int \<Rightarrow> int \<Rightarrow> uuid \<Rightarrow> string \<Rightarrow> uuid option stmt" where
  "ledger_row_if_positive micro userID ty amount after requestID idem =
     (if micro > 0
      then and_then (pg_call (insert_ledger userID ty amount after ''usage_log'' (Some requestID) idem))
             (\<lambda>i. stmt_return (Some i))
      else stmt_return None)"

definition settle_idem :: "(uuid \<Rightarrow> string) \<Rightarrow> string \<Rightarrow> uuid \<Rightarrow> string \<Rightarrow> string" where
  "settle_idem ustr pre requestID clientIdem =
     pre @ (if clientIdem \<noteq> [] then clientIdem else ustr requestID)"

definition settle_tx ::
    "(uuid \<Rightarrow> string) \<Rightarrow> uuid \<Rightarrow> uuid \<Rightarrow> int \<Rightarrow> int \<Rightarrow> UsageLog \<Rightarrow> string \<Rightarrow> LedgerTxnIDs stmt" where
  "settle_tx ustr userID requestID captureMicro releaseMicro usage clientIdem =
     and_then (pg_call (select_row (balance_of userID))) (\<lambda>balance.
       let captureIdem = settle_idem ustr ''capture-'' requestID clientIdem;
           releaseIdem = settle_idem ustr ''release-'' requestID clientIdem;
           balance1 = (if captureMicro > 0 then i64 (balance - captureMicro) else balance);
           balance2 = (if releaseMicro > 0 then i64 (balance1 + releaseMicro) else balance1)
       in and_then
            (ledger_row_if_positive captureMicro userID ''capture'' (i64 (- captureMicro)) balance1
               requestID captureIdem) (\<lambda>captureID.
          and_then
            (ledger_row_if_positive releaseMicro userID ''release'' releaseMicro balance2
               requestID releaseIdem) (\<lambda>releaseID.
          and_then (pg_call (update_balance userID balance2)) (\<lambda>_.
          let out = \<lparr>CaptureTxnID = captureID, ReleaseTxnID = releaseID\<rparr>
          in and_then (pg_call (complete_usage requestID usage captureMicro out)) (\<lambda>_.
             stmt_return out)))))"

definition CaptureAndRelease ::
    "(uuid \<Rightarrow> string) \<Rightarrow> uuid \<Rightarrow> uuid \<Rightarrow> int \<Rightarrow> int \<Rightarrow> UsageLog \<Rightarrow> string \<Rightarrow> LedgerTxnIDs stmt" where
  "CaptureAndRelease ustr userID requestID captureMicro releaseMicro usage clientIdem =
     in_tx (settle_tx ustr userID requestID captureMicro releaseMicro usage clientIdem)"

subsection \<open>Queries and repair\<close>

definition ledger_sum :: "uuid \<Rightarrow> tables \<Rightarrow> int" where
  "ledger_sum i T = sum_list (map lt_AmountMicro (filter (\<lambda>t. lt_UserID t = i) (t_ledger T)))"

definition scan_int8 :: "int \<Rightarrow> int result" where
  "scan_int8 n = (if in_i64 n then Inr n else Inl ErrOutOfRange)"

definition LedgerBalance :: "uuid \<Rightarrow> int stmt" where
  "LedgerBalance userID = pg_call (\<lambda>d. (scan_int8 (ledger_sum userID (pg_tabs d)), d))"

definition GetUsageLogByRequestID :: "uuid \<Rightarrow> UsageLog stmt" where
  "GetUsageLogByRequestID requestID =
     pg_call (select_row (\<lambda>T. find (\<lambda>l. ul_RequestID l = requestID) (t_usage T)))"

definition GetMeteringSession :: "uuid \<Rightarrow> int stmt" where
  "GetMeteringSession requestID =
     pg_call (select_row (\<lambda>T.
       map_option ms_hold_micro (find (\<lambda>s. ms_request_id s = requestID) (t_sessions T))))"

definition IsIdempotencyUsed :: "string \<Rightarrow> bool stmt" where
  "IsIdempotencyUsed key =
     pg_call (\<lambda>d. (Inr (list_ex (\<lambda>t. lt_IdempotencyKey t = key) (t_ledger (pg_tabs d))), d))"

definition revoke_row :: "uuid \<Rightarrow> instant \<Rightarrow> QuarkGateKey \<Rightarrow> QuarkGateKey" where
  "revoke_row keyID n k =
     (if k_ID k = keyID \<and> k_Status k = ''active''
      then k\<lparr>k_Status := ''revoked'', k_RevokedAt := Some n\<rparr> else k)"

definition RevokeKey :: "uuid \<Rightarrow> unit stmt" where
  "RevokeKey keyID =
     pg_call (\<lambda>d.
       let T = pg_tabs d
       in (Inr (), d\<lparr>pg_tabs := T\<lparr>t_keys := map (revoke_row keyID (pg_now d)) (t_keys T)\<rparr>\<rparr>))"

definition ReconcileUserBalance :: "uuid \<Rightarrow> (int \<times> int) stmt" where
  "ReconcileUserBalance userID =
     and_then (GetUser userID) (\<lambda>u.
     and_then (LedgerBalance userID) (\<lambda>ledger.
     stmt_return (u_CreditBalanceMicro u, ledger)))"

definition SetUserBalanceFromLedger :: "uuid \<Rightarrow> int \<Rightarrow> unit stmt" where
  "SetUserBalanceFromLedger userID ledgerSum = pg_call (update_balance userID ledgerSum)"

record UsageSummaryRow =
  us_ProviderSlug :: string
  us_TotalMicro :: int
  us_Count :: int

definition day_us :: int where
  "day_us = 86400000000"

definition recent_usage :: "uuid \<Rightarrow> pg \<Rightarrow> UsageLog list" where
  "recent_usage userID d =
     filter (\<lambda>l. ul_UserID l = userID \<and> ul_StartedAt l > pg_now d - day_us) (t_usage (pg_tabs d))"

definition summary_row :: "UsageLog list \<Rightarrow> string \<Rightarrow> UsageSummaryRow result" where
  "summary_row ls p =
     (let g = filter (\<lambda>l. ul_ProviderSlug l = p) ls
      in case scan_int8 (sum_list (map ul_CreditsCapturedMicro g)) of
           Inl e \<Rightarrow> Inl e
         | Inr s \<Rightarrow> Inr \<lparr>us_ProviderSlug = p, us_TotalMicro = s, us_Count = int (length g)\<rparr>)"

definition UsageSummary24h :: "uuid \<Rightarrow> UsageSummaryRow list stmt" where
  "UsageSummary24h userID =
     pg_call (\<lambda>d.
       let ls = recent_usage userID d
       in (scan_all (summary_row ls) (remdups (map ul_ProviderSlug ls)), d))"

definition BurnRate24h :: "uuid \<Rightarrow> int stmt" where
  "BurnRate24h userID =
     pg_call (\<lambda>d. (scan_int8 (sum_list (map ul_CreditsCapturedMicro (recent_usage userID d))), d))"

definition ListLedgerByReference :: "uuid \<Rightarrow> LedgerTransaction list stmt" where
  "ListLedgerByReference requestID =
     pg_call (\<lambda>d.
       (Inr (sort_key lt_CreatedAt
          (filter (\<lambda>t. lt_ReferenceID t = Some requestID) (t_ledger (pg_tabs d)))), d))"

end
