(* ===== verification/Registry.thy ===== *)
theory Registry
  imports Models
begin

text \<open>
  \<open>internal/registry/registry.go\<close> and \<open>exec.go\<close>: the driver manifests, the routes they declare, and the
  calls into driver processes.  The file system and the driver process are parameters, gathered in the
  record \<open>host\<close>; nothing is assumed of what a driver answers.  A map is a list of its entries in the
  order in which \<open>range\<close> visits them.
\<close>

section \<open>Manifests\<close>

record DriverCapabilities =
  ParseResponse :: bool
  NormalizeUsage :: bool
  AsyncPoll :: bool

record ManifestOperation =
  mo_ID :: string
  mo_Method :: string
  mo_Path :: string
  mo_Streaming :: bool
  mo_CompatPaths :: "string list"

record Manifest =
  m_ID :: string
  m_Version :: string
  m_Category :: string
  m_Operations :: "ManifestOperation list"
  m_Pricing :: RawMessage
  m_Capabilities :: DriverCapabilities

record HealthResult =
  hr_OK :: bool
  hr_LatencyMs :: int
  hr_Message :: string

record PollResult =
  po_RawUsage :: "gmap option"
  po_Done :: bool

record Registry =
  r_manifests :: "Manifest gomap"
  r_driversPath :: string
  r_nodePath :: string
  r_pythonPath :: string

text \<open>Field tables of the structs for the JSON decoder.\<close>

definition capability_fields :: "(string \<times> (DriverCapabilities \<Rightarrow> json \<Rightarrow> DriverCapabilities option)) list" where
  "capability_fields =
     [(''parse_response'', \<lambda>r j. map_option (\<lambda>v. r\<lparr>ParseResponse := v\<rparr>) (dec_bool (ParseResponse r) j)),
      (''normalize_usage'', \<lambda>r j. map_option (\<lambda>v. r\<lparr>NormalizeUsage := v\<rparr>) (dec_bool (NormalizeUsage r) j)),
      (''async_poll'', \<lambda>r j. map_option (\<lambda>v. r\<lparr>AsyncPoll := v\<rparr>) (dec_bool (AsyncPoll r) j))]"

definition slice :: "'a list option \<Rightarrow> 'a list" where
  "slice v = (case v of None \<Rightarrow> [] | Some xs \<Rightarrow> xs)"

definition operation_fields :: "(string \<times> (ManifestOperation \<Rightarrow> json \<Rightarrow> ManifestOperation option)) list" where
  "operation_fields =
     [(''id'', \<lambda>r j. map_option (\<lambda>v. r\<lparr>mo_ID := v\<rparr>) (dec_string (mo_ID r) j)),
      (''method'', \<lambda>r j. map_option (\<lambda>v. r\<lparr>mo_Method := v\<rparr>) (dec_string (mo_Method r) j)),
      (''path'', \<lambda>r j. map_option (\<lambda>v. r\<lparr>mo_Path := v\<rparr>) (dec_string (mo_Path r) j)),
      (''streaming'', \<lambda>r j. map_option (\<lambda>v. r\<lparr>mo_Streaming := v\<rparr>) (dec_bool (mo_Streaming r) j)),
      (''compat_paths'', \<lambda>r j.
         map_option (\<lambda>v. r\<lparr>mo_CompatPaths := slice v\<rparr>) (dec_list (dec_string []) None j))]"

definition zero_operation :: ManifestOperation where
  "zero_operation = \<lparr>mo_ID = [], mo_Method = [], mo_Path = [], mo_Streaming = False, mo_CompatPaths = []\<rparr>"

definition zero_manifest :: Manifest where
  "zero_manifest = \<lparr>m_ID = [], m_Version = [], m_Category = [], m_Operations = [], m_Pricing = [],
     m_Capabilities = \<lparr>ParseResponse = False, NormalizeUsage = False, AsyncPoll = False\<rparr>\<rparr>"

definition manifest_fields :: "(string \<times> (Manifest \<Rightarrow> json \<Rightarrow> Manifest option)) list" where
  "manifest_fields =
     [(''id'', \<lambda>r j. map_option (\<lambda>v. r\<lparr>m_ID := v\<rparr>) (dec_string (m_ID r) j)),
      (''version'', \<lambda>r j. map_option (\<lambda>v. r\<lparr>m_Version := v\<rparr>) (dec_string (m_Version r) j)),
      (''category'', \<lambda>r j. map_option (\<lambda>v. r\<lparr>m_Category := v\<rparr>) (dec_string (m_Category r) j)),
      (''operations'', \<lambda>r j.
         map_option (\<lambda>v. r\<lparr>m_Operations := slice v\<rparr>) (dec_list (dec_struct operation_fields zero_operation) None j)),
      (''pricing'', \<lambda>r j. map_option (\<lambda>v. r\<lparr>m_Pricing := v\<rparr>) (dec_raw j)),
      (''capabilities'', \<lambda>r j.
         map_option (\<lambda>v. r\<lparr>m_Capabilities := v\<rparr>) (dec_struct capability_fields (m_Capabilities r) j))]"

section \<open>The host\<close>

datatype exec_result = ExecOK string | ExecExit string string | ExecErr string

record dir_entry =
  de_Name :: string
  de_IsDir :: bool

record host =
  h_ReadDir :: "string \<Rightarrow> dir_entry list result"
  h_ReadFile :: "string \<Rightarrow> string result"
  h_Stat :: "string \<Rightarrow> bool"
  h_Abs :: "string \<Rightarrow> string result"
  h_Exec :: "string \<Rightarrow> string list \<Rightarrow> string \<Rightarrow> string \<Rightarrow> exec_result"

text \<open>\<open>filepath.Join\<close>: the non-empty elements separated by slashes, cleaned lexically.\<close>

fun split_path :: "string \<Rightarrow> string list" where
  "split_path [] = [[]]"
| "split_path (c # s) =
     (if c = CHR ''/'' then [] # split_path s
      else (case split_path s of p # ps \<Rightarrow> (c # p) # ps | [] \<Rightarrow> [[c]]))"

fun clean_parts :: "bool \<Rightarrow> string list \<Rightarrow> string list \<Rightarrow> string list" where
  "clean_parts rooted out [] = rev out"
| "clean_parts rooted out (p # ps) =
     (if p = [] \<or> p = ''.'' then clean_parts rooted out ps
      else if p = ''..'' then
        (case out of
           [] \<Rightarrow> clean_parts rooted (if rooted then [] else [p]) ps
         | q # qs \<Rightarrow> clean_parts rooted (if q = ''..'' then p # out else qs) ps)
      else clean_parts rooted (p # out) ps)"

fun join_slash :: "string list \<Rightarrow> string" where
  "join_slash [] = []"
| "join_slash [p] = p"
| "join_slash (p # q # ps) = p @ CHR ''/'' # join_slash (q # ps)"

definition Clean :: "string \<Rightarrow> string" where
  "Clean path =
     (let rooted = (path \<noteq> [] \<and> hd path = CHR ''/'');
          s = (if rooted then ''/'' else []) @ join_slash (clean_parts rooted [] (split_path path))
      in if s = [] then ''.'' else s)"

definition Join :: "string list \<Rightarrow> string" where
  "Join elems =
     (let es = filter (\<lambda>e. e \<noteq> []) elems in if es = [] then [] else Clean (join_slash es))"

section \<open>Loading and lookup\<close>

definition skipped :: "dir_entry \<Rightarrow> bool" where
  "skipped e \<longleftrightarrow>
     \<not> de_IsDir e \<or> HasPrefix (de_Name e) ''_'' \<or> de_Name e = ''fixtures'' \<or> de_Name e = ''sdk''"

fun load_entries :: "host \<Rightarrow> string \<Rightarrow> dir_entry list \<Rightarrow> Manifest gomap \<Rightarrow> Manifest gomap result" where
  "load_entries h driversPath [] ms = Inr ms"
| "load_entries h driversPath (e # es) ms =
     (if skipped e then load_entries h driversPath es ms
      else
        (case h_ReadFile h (Join [driversPath, de_Name e, ''manifest.json'']) of
           Inl _ \<Rightarrow> load_entries h driversPath es ms
         | Inr data \<Rightarrow>
             (case unmarshal_struct manifest_fields zero_manifest (json_decode data) of
                None \<Rightarrow> Inl (ErrMsg (''manifest '' @ de_Name e))
              | Some m \<Rightarrow>
                  if m_ID m \<noteq> [] \<and> m_ID m \<noteq> de_Name e
                  then Inl (ErrMsg (''manifest id '' @ m_ID m @ '' != folder '' @ de_Name e))
                  else
                    (let m1 = (if m_ID m = [] then m\<lparr>m_ID := de_Name e\<rparr> else m)
                     in load_entries h driversPath es (mset_at (m_ID m1) m1 ms)))))"

definition Load :: "host \<Rightarrow> string \<Rightarrow> string \<Rightarrow> Registry result" where
  "Load h driversPath nodePath =
     (case h_ReadDir h driversPath of
        Inl e \<Rightarrow> Inl e
      | Inr entries \<Rightarrow>
          (case load_entries h driversPath entries [] of
             Inl e \<Rightarrow> Inl e
           | Inr ms \<Rightarrow> Inr \<lparr>r_manifests = ms, r_driversPath = driversPath, r_nodePath = nodePath,
                            r_pythonPath = ''python3''\<rparr>))"

definition op_matches :: "string \<Rightarrow> string \<Rightarrow> string \<Rightarrow> ManifestOperation \<Rightarrow> RouteMatch option" where
  "op_matches meth path i op1 =
     (if path \<in> set (mo_CompatPaths op1) \<and> EqualFold meth (mo_Method op1)
      then Some \<lparr>rm_Provider = i, rm_Operation = mo_ID op1, rm_Compat = True\<rparr>
      else if path = ''/v1/providers/'' @ i @ mo_Path op1 \<and> EqualFold meth (mo_Method op1)
      then Some \<lparr>rm_Provider = i, rm_Operation = mo_ID op1, rm_Compat = False\<rparr>
      else None)"

fun match_ops :: "string \<Rightarrow> string \<Rightarrow> string \<Rightarrow> ManifestOperation list \<Rightarrow> RouteMatch option" where
  "match_ops meth path i [] = None"
| "match_ops meth path i (x # xs) =
     (case op_matches meth path i x of Some r \<Rightarrow> Some r | None \<Rightarrow> match_ops meth path i xs)"

fun match_manifests :: "string \<Rightarrow> string \<Rightarrow> Manifest gomap \<Rightarrow> RouteMatch option" where
  "match_manifests meth path [] = None"
| "match_manifests meth path ((i, m) # ms) =
     (case match_ops meth path i (m_Operations m) of
        Some r \<Rightarrow> Some r
      | None \<Rightarrow> match_manifests meth path ms)"

definition MatchRoute :: "Registry \<Rightarrow> string \<Rightarrow> string \<Rightarrow> RouteMatch result" where
  "MatchRoute r meth path =
     (if meth = ''POST'' \<and> path = ''/v1/chat/completions''
      then Inr \<lparr>rm_Provider = ''openrouter'', rm_Operation = ''chat.completions.create'', rm_Compat = True\<rparr>
      else if meth = ''POST'' \<and> path = ''/v1/quarkgate''
      then Inr \<lparr>rm_Provider = [], rm_Operation = ''envelope'', rm_Compat = False\<rparr>
      else
        (case match_manifests meth path (r_manifests r) of
           Some m \<Rightarrow> Inr m
         | None \<Rightarrow> Inl (ErrMsg ''unknown route'')))"

definition GetManifest :: "Registry \<Rightarrow> string \<Rightarrow> Manifest option" where
  "GetManifest r provider = mget (r_manifests r) provider"

definition HasCapability :: "Registry \<Rightarrow> string \<Rightarrow> string \<Rightarrow> bool" where
  "HasCapability r provider cap =
     (case mget (r_manifests r) provider of
        None \<Rightarrow> False
      | Some m \<Rightarrow>
          if cap = ''parse_response'' then ParseResponse (m_Capabilities m)
          else if cap = ''normalize_usage'' then NormalizeUsage (m_Capabilities m)
          else if cap = ''async_poll'' then AsyncPoll (m_Capabilities m)
          else False)"

section \<open>Driver calls\<close>

definition realExecCommand :: "host \<Rightarrow> string \<Rightarrow> string list \<Rightarrow> string \<Rightarrow> string \<Rightarrow> string result" where
  "realExecCommand h name args dir stdin =
     (case h_Exec h name args dir stdin of
        ExecOK out \<Rightarrow> Inr out
      | ExecExit err stderr \<Rightarrow> Inl (ErrMsg (err @ '': '' @ stderr))
      | ExecErr err \<Rightarrow> Inl (ErrMsg err))"

definition hostCommand :: "host \<Rightarrow> Registry \<Rightarrow> string \<Rightarrow> (string \<times> string list) result" where
  "hostCommand h r provider =
     (if h_Stat h (Join [r_driversPath r, provider, ''driver.js''])
      then (case h_Abs h (Join [r_driversPath r, ''sdk'', ''host.js'']) of
              Inl e \<Rightarrow> Inl e | Inr p \<Rightarrow> Inr (r_nodePath r, [p]))
      else if h_Stat h (Join [r_driversPath r, provider, ''driver.py''])
      then (case h_Abs h (Join [r_driversPath r, ''sdk'', ''host.py'']) of
              Inl e \<Rightarrow> Inl e | Inr p \<Rightarrow> Inr (r_pythonPath r, [p]))
      else Inl (ErrMsg (''no driver for '' @ provider)))"

definition invokeJSON :: "host \<Rightarrow> Registry \<Rightarrow> gmap \<Rightarrow> string result" where
  "invokeJSON h r inp =
     (case json_of (GMap inp) of
        None \<Rightarrow> Inl (ErrMsg ''json'')
      | Some j \<Rightarrow>
          (case hostCommand h r (str_or_empty (mget inp ''provider'')) of
             Inl e \<Rightarrow> Inl e
           | Inr (bin, args) \<Rightarrow> realExecCommand h bin args (r_driversPath r) (json_encode j)))"

text \<open>One call with a reply that is decoded into a struct.\<close>

definition invoke_struct ::
    "host \<Rightarrow> Registry \<Rightarrow> gmap \<Rightarrow> (string \<times> ('r \<Rightarrow> json \<Rightarrow> 'r option)) list \<Rightarrow> 'r \<Rightarrow> 'r result" where
  "invoke_struct h r inp flds zero =
     (case invokeJSON h r inp of
        Inl e \<Rightarrow> Inl e
      | Inr out \<Rightarrow>
          (case unmarshal_struct flds zero (json_decode out) of
             None \<Rightarrow> Inl (ErrMsg ''json'')
           | Some x \<Rightarrow> Inr x))"

definition downstream_fields :: "(string \<times> (DownstreamRequest \<Rightarrow> json \<Rightarrow> DownstreamRequest option)) list" where
  "downstream_fields =
     [(''url'', \<lambda>r j. map_option (\<lambda>v. r\<lparr>dr_URL := v\<rparr>) (dec_string (dr_URL r) j)),
      (''method'', \<lambda>r j. map_option (\<lambda>v. r\<lparr>dr_Method := v\<rparr>) (dec_string (dr_Method r) j)),
      (''headers'', \<lambda>r j. map_option (\<lambda>v. r\<lparr>dr_Headers := slice v\<rparr>)
         (dec_map dec_string [] (Some (dr_Headers r)) j)),
      (''body'', \<lambda>r j. map_option (\<lambda>v. r\<lparr>dr_Body := v\<rparr>) (dec_raw j)),
      (''streaming'', \<lambda>r j. map_option (\<lambda>v. r\<lparr>dr_Streaming := v\<rparr>) (dec_bool (dr_Streaming r) j)),
      (''provider'', \<lambda>r j. map_option (\<lambda>v. r\<lparr>dr_Provider := v\<rparr>) (dec_string (dr_Provider r) j)),
      (''operation'', \<lambda>r j. map_option (\<lambda>v. r\<lparr>dr_Operation := v\<rparr>) (dec_string (dr_Operation r) j)),
      (''estimate_micro'', \<lambda>r j. map_option (\<lambda>v. r\<lparr>dr_EstimateMicro := v\<rparr>) (dec_int64 (dr_EstimateMicro r) j))]"

definition zero_downstream :: DownstreamRequest where
  "zero_downstream = \<lparr>dr_URL = [], dr_Method = [], dr_Headers = [], dr_Body = [], dr_Streaming = False,
     dr_Provider = [], dr_Operation = [], dr_EstimateMicro = 0\<rparr>"

definition InvokePrepare ::
    "host \<Rightarrow> Registry \<Rightarrow> string \<Rightarrow> RawMessage \<Rightarrow> string \<Rightarrow> string \<Rightarrow> DownstreamRequest result" where
  "InvokePrepare h r provider envelope credential baseURL =
     invoke_struct h r
       [(''ipc_version'', GStr ''1''), (''action'', GStr ''prepare''), (''provider'', GStr provider),
        (''envelope'', GRaw envelope), (''credential'', GStr credential), (''baseURL'', GStr baseURL)]
       downstream_fields zero_downstream"

definition InvokeEstimate :: "host \<Rightarrow> Registry \<Rightarrow> string \<Rightarrow> RawMessage \<Rightarrow> int result" where
  "InvokeEstimate h r provider envelope =
     invoke_struct h r
       [(''ipc_version'', GStr ''1''), (''action'', GStr ''estimate''), (''provider'', GStr provider),
        (''envelope'', GRaw envelope)]
       [(''estimate_micro'', dec_int64)] 0"

definition mergeUsage :: "gmap \<Rightarrow> gmap \<Rightarrow> gmap" where
  "mergeUsage base patch = assign_all (assign_all [] base) patch"

text \<open>
  \<open>InvokeNormalize\<close> returns the raw usage beside an error; the only caller keeps its own copy then, so
  the error alone is returned here.
\<close>

definition InvokeNormalize :: "host \<Rightarrow> Registry \<Rightarrow> string \<Rightarrow> gmap \<Rightarrow> RawMessage \<Rightarrow> gmap result" where
  "InvokeNormalize h r provider raw envelope =
     (if \<not> HasCapability r provider ''normalize_usage'' then Inr raw
      else
        (case invoke_struct h r
           [(''ipc_version'', GStr ''1''), (''action'', GStr ''normalize''), (''provider'', GStr provider),
            (''raw_usage'', GMap raw), (''envelope'', GRaw envelope)]
           [(''raw_usage'', dec_anymap)] None of
           Inl e \<Rightarrow> Inl e
         | Inr None \<Rightarrow> Inr raw
         | Inr (Some usage) \<Rightarrow> Inr (mergeUsage raw usage)))"

definition InvokeParseResponse ::
    "host \<Rightarrow> Registry \<Rightarrow> string \<Rightarrow> string gomap \<Rightarrow> string \<Rightarrow> bool \<Rightarrow> RawMessage \<Rightarrow> gmap option result" where
  "InvokeParseResponse h r provider headers body streaming envelope =
     (if \<not> HasCapability r provider ''parse_response'' then Inr None
      else
        invoke_struct h r
          [(''ipc_version'', GStr ''1''), (''action'', GStr ''parseResponse''), (''provider'', GStr provider),
           (''headers'', GMap (map (map_prod id GStr) headers)), (''body'', GStr body),
           (''streaming'', GBool streaming), (''envelope'', GRaw envelope)]
          [(''raw_usage'', dec_anymap)] None)"

definition health_fields :: "(string \<times> (HealthResult \<Rightarrow> json \<Rightarrow> HealthResult option)) list" where
  "health_fields =
     [(''ok'', \<lambda>r j. map_option (\<lambda>v. r\<lparr>hr_OK := v\<rparr>) (dec_bool (hr_OK r) j)),
      (''latency_ms'', \<lambda>r j. map_option (\<lambda>v. r\<lparr>hr_LatencyMs := v\<rparr>) (dec_int64 (hr_LatencyMs r) j)),
      (''message'', \<lambda>r j. map_option (\<lambda>v. r\<lparr>hr_Message := v\<rparr>) (dec_string (hr_Message r) j))]"

definition InvokeHealthCheck :: "host \<Rightarrow> Registry \<Rightarrow> string \<Rightarrow> string \<Rightarrow> string \<Rightarrow> HealthResult result" where
  "InvokeHealthCheck h r provider baseURL credential =
     invoke_struct h r
       [(''ipc_version'', GStr ''1''), (''action'', GStr ''healthCheck''), (''provider'', GStr provider),
        (''baseURL'', GStr baseURL), (''credential'', GStr credential)]
       health_fields \<lparr>hr_OK = False, hr_LatencyMs = 0, hr_Message = []\<rparr>"

definition poll_fields :: "(string \<times> (PollResult \<Rightarrow> json \<Rightarrow> PollResult option)) list" where
  "poll_fields =
     [(''raw_usage'', \<lambda>r j. map_option (\<lambda>v. r\<lparr>po_RawUsage := v\<rparr>) (dec_anymap (po_RawUsage r) j)),
      (''done'', \<lambda>r j. map_option (\<lambda>v. r\<lparr>po_Done := v\<rparr>) (dec_bool (po_Done r) j))]"

definition InvokePoll :: "host \<Rightarrow> Registry \<Rightarrow> string \<Rightarrow> string \<Rightarrow> string \<Rightarrow> gmap \<Rightarrow> PollResult result" where
  "InvokePoll h r provider baseURL credential pollContext =
     (if \<not> HasCapability r provider ''async_poll'' then Inl (ErrMsg ''poll not supported'')
      else
        invoke_struct h r
          [(''ipc_version'', GStr ''1''), (''action'', GStr ''poll''), (''provider'', GStr provider),
           (''baseURL'', GStr baseURL), (''credential'', GStr credential), (''poll_context'', GMap pollContext)]
          poll_fields \<lparr>po_RawUsage = None, po_Done = False\<rparr>)"

section \<open>Envelopes\<close>

definition hints_fields :: "(string \<times> (MeteringHints \<Rightarrow> json \<Rightarrow> MeteringHints option)) list" where
  "hints_fields =
     [(''estimated_max_credits'', \<lambda>r j.
         map_option (\<lambda>v. r\<lparr>mh_EstimatedMaxCredits := v\<rparr>) (dec_int64 (mh_EstimatedMaxCredits r) j)),
      (''priority'', \<lambda>r j. map_option (\<lambda>v. r\<lparr>mh_Priority := v\<rparr>) (dec_string (mh_Priority r) j))]"

text \<open>A pointer field: null makes it nil; otherwise the value it points to (or a new one) is filled.\<close>

definition dec_hints :: "MeteringHints option \<Rightarrow> json \<Rightarrow> MeteringHints option option" where
  "dec_hints old j =
     (if j = JNull then Some None
      else map_option Some (dec_struct hints_fields
             (case old of None \<Rightarrow> \<lparr>mh_EstimatedMaxCredits = 0, mh_Priority = []\<rparr> | Some x \<Rightarrow> x) j))"

definition envelope_fields :: "(string \<times> (QuarkGateEnvelope \<Rightarrow> json \<Rightarrow> QuarkGateEnvelope option)) list" where
  "envelope_fields =
     [(''quarkgate_version'', \<lambda>r j.
         map_option (\<lambda>v. r\<lparr>e_QuarkgateVersion := v\<rparr>) (dec_string (e_QuarkgateVersion r) j)),
      (''provider'', \<lambda>r j. map_option (\<lambda>v. r\<lparr>e_Provider := v\<rparr>) (dec_string (e_Provider r) j)),
      (''operation'', \<lambda>r j. map_option (\<lambda>v. r\<lparr>e_Operation := v\<rparr>) (dec_string (e_Operation r) j)),
      (''payload'', \<lambda>r j. map_option (\<lambda>v. r\<lparr>e_Payload := v\<rparr>) (dec_raw j)),
      (''metering_hints'', \<lambda>r j. map_option (\<lambda>v. r\<lparr>e_MeteringHints := v\<rparr>) (dec_hints (e_MeteringHints r) j)),
      (''trace_id'', \<lambda>r j. map_option (\<lambda>v. r\<lparr>e_TraceID := v\<rparr>) (dec_string (e_TraceID r) j))]"

definition zero_envelope :: QuarkGateEnvelope where
  "zero_envelope = \<lparr>e_QuarkgateVersion = [], e_Provider = [], e_Operation = [], e_Payload = [],
     e_MeteringHints = None, e_TraceID = []\<rparr>"

text \<open>The reader hands over the whole body or an error.\<close>

definition ReadEnvelope :: "string result \<Rightarrow> QuarkGateEnvelope result" where
  "ReadEnvelope body =
     (case body of
        Inl e \<Rightarrow> Inl e
      | Inr data \<Rightarrow>
          (case unmarshal_struct envelope_fields zero_envelope (json_decode data) of
             None \<Rightarrow> Inl (ErrMsg ''json'')
           | Some e \<Rightarrow> Inr e))"

text \<open>\<open>json.Marshal\<close> of an envelope; a payload that is not JSON makes it fail.\<close>

definition marshal_envelope :: "QuarkGateEnvelope \<Rightarrow> string option" where
  "marshal_envelope e =
     (let hints = (\<lambda>m. (if mh_EstimatedMaxCredits m = 0 then [] else [(''estimated_max_credits'', JInt (mh_EstimatedMaxCredits m))]) @
                     (if mh_Priority m = [] then [] else [(''priority'', JStr (mh_Priority m))]))
      in case json_of (GRaw (e_Payload e)) of
           None \<Rightarrow> None
         | Some payload \<Rightarrow>
             Some (json_encode (JObj
               ([(''quarkgate_version'', JStr (e_QuarkgateVersion e)), (''provider'', JStr (e_Provider e)),
                 (''operation'', JStr (e_Operation e)), (''payload'', payload)] @
                (case e_MeteringHints e of None \<Rightarrow> [] | Some m \<Rightarrow> [(''metering_hints'', JObj (hints m))]) @
                (if e_TraceID e = [] then [] else [(''trace_id'', JStr (e_TraceID e))])))))"

section \<open>Loading\<close>

definition registry_ok :: "Manifest gomap \<Rightarrow> bool" where
  "registry_ok ms \<longleftrightarrow> wf_map ms \<and> (\<forall>(i, m) \<in> set ms. m_ID m = i \<and> i \<noteq> ''sdk'' \<and> i \<noteq> ''fixtures'' \<and> \<not> HasPrefix i ''_'')"

lemma set_update: "set (AList.update k v m) \<subseteq> insert (k, v) (set m)"
  by (induction m) auto

lemma load_entries_ok:
  "registry_ok ms \<Longrightarrow> load_entries h p es ms = Inr ms' \<Longrightarrow> registry_ok ms'"
proof (induction h p es ms rule: load_entries.induct)
  case (1 h p ms)
  then show ?case by simp
next
  case (2 h p e es ms)
  show ?case
  proof (cases "skipped e")
    case True
    with 2 show ?thesis by simp
  next
    case False
    note ns = this
    show ?thesis
    proof (cases "h_ReadFile h (Join [p, de_Name e, ''manifest.json''])")
      case (Inl er)
      with 2 ns show ?thesis by simp
    next
      case (Inr data)
      with "2.prems" ns obtain m where m: "unmarshal_struct manifest_fields zero_manifest (json_decode data) = Some m"
        and id: "m_ID m = [] \<or> m_ID m = de_Name e"
        by (auto split: option.splits if_splits)
      let ?m = "if m_ID m = [] then m\<lparr>m_ID := de_Name e\<rparr> else m"
      have mid: "m_ID ?m = de_Name e" using id by auto
      have "registry_ok (mset_at (m_ID ?m) ?m ms)"
        using "2.prems"(1) set_update [of "m_ID ?m" ?m ms] ns mid
        by (fastforce simp: registry_ok_def skipped_def)
      moreover have "load_entries h p es (mset_at (m_ID ?m) ?m ms) = Inr ms'"
        using "2.prems"(2) ns Inr m id by (auto simp: Let_def split: if_splits)
      ultimately show ?thesis using "2.IH"(3) [OF ns Inr m _ refl] id by auto
    qed
  qed
qed

text \<open>
  A loaded registry is well formed: every manifest is filed under its own identifier, no identifier
  occurs twice, and the reserved directories (\<open>sdk\<close>, \<open>fixtures\<close> and names with a leading underscore)
  never become providers.
\<close>

theorem Load_registry_ok:
  assumes "Load h driversPath nodePath = Inr r"
  shows "registry_ok (r_manifests r)"
proof -
  from assms obtain es where "load_entries h driversPath es [] = Inr (r_manifests r)"
    by (auto simp: Load_def split: sum.splits)
  moreover have "registry_ok []" by (simp add: registry_ok_def)
  ultimately show ?thesis by (rule load_entries_ok [rotated])
qed

text \<open>A host with two drivers' manifests and one driver program that answers every call alike.\<close>

definition demo_host :: "string \<Rightarrow> host" where
  "demo_host reply =
     \<lparr>h_ReadDir = (\<lambda>_. Inr [\<lparr>de_Name = ''_tmp'', de_IsDir = True\<rparr>, \<lparr>de_Name = ''apify'', de_IsDir = True\<rparr>,
                          \<lparr>de_Name = ''sdk'', de_IsDir = True\<rparr>]),
      h_ReadFile = (\<lambda>p. if p = ''drivers/apify/manifest.json''
         then Inr (json_encode (JObj [(''id'', JStr ''apify''),
           (''operations'', JArr [JObj [(''id'', JStr ''run''), (''method'', JStr ''POST''), (''path'', JStr ''/runs'')]]),
           (''capabilities'', JObj [(''normalize_usage'', JBool True)])]))
         else Inl ErrNoRows),
      h_Stat = (\<lambda>p. p = ''drivers/apify/driver.js''), h_Abs = Inr, h_Exec = (\<lambda>_ _ _ _. ExecOK reply)\<rparr>"

definition demo_manifest :: Manifest where
  "demo_manifest = \<lparr>m_ID = ''apify'', m_Version = [], m_Category = [],
     m_Operations = [\<lparr>mo_ID = ''run'', mo_Method = ''POST'', mo_Path = ''/runs'', mo_Streaming = False, mo_CompatPaths = []\<rparr>],
     m_Pricing = [], m_Capabilities = \<lparr>ParseResponse = False, NormalizeUsage = True, AsyncPoll = False\<rparr>\<rparr>"

definition demo_registry :: Registry where
  "demo_registry = \<lparr>r_manifests = [(''apify'', demo_manifest)], r_driversPath = ''drivers'', r_nodePath = ''node'',
     r_pythonPath = ''python3''\<rparr>"

theorem Load_registry_ok_witness:
  "Load (demo_host []) ''drivers'' ''node'' = Inr demo_registry \<and> registry_ok (r_manifests demo_registry)"
proof -
  have "Load (demo_host []) ''drivers'' ''node'' = Inr demo_registry" by code_simp
  with Load_registry_ok [OF this] show ?thesis by simp
qed

section \<open>Routes\<close>

text \<open>A manifest operation serves a request under one of its compatibility paths or its own path.\<close>

definition serves :: "string \<Rightarrow> string \<Rightarrow> string \<Rightarrow> ManifestOperation \<Rightarrow> RouteMatch \<Rightarrow> bool" where
  "serves meth path i x rm \<longleftrightarrow>
     EqualFold meth (mo_Method x) \<and> rm_Provider rm = i \<and> rm_Operation rm = mo_ID x \<and>
     (if path \<in> set (mo_CompatPaths x) then rm_Compat rm
      else \<not> rm_Compat rm \<and> path = ''/v1/providers/'' @ i @ mo_Path x)"

lemma op_matches_serves: "op_matches meth path i x = Some rm \<longleftrightarrow> serves meth path i x rm"
  by (cases rm) (auto simp: op_matches_def serves_def)

lemma match_ops_Some: "match_ops meth path i xs = Some rm \<Longrightarrow> \<exists>x \<in> set xs. serves meth path i x rm"
  by (induction xs) (auto simp: op_matches_serves split: option.splits)

lemma match_ops_None: "match_ops meth path i xs = None \<Longrightarrow> x \<in> set xs \<Longrightarrow> \<not> serves meth path i x rm"
  by (induction xs) (auto simp: op_matches_serves [symmetric] split: option.splits)

lemma match_manifests_Some:
  "match_manifests meth path ms = Some rm \<Longrightarrow>
     \<exists>i m x. (i, m) \<in> set ms \<and> x \<in> set (m_Operations m) \<and> serves meth path i x rm"
proof (induction ms)
  case Nil
  then show ?case by simp
next
  case (Cons e ms)
  obtain i m where e: "e = (i, m)" by (cases e)
  with Cons match_ops_Some [of meth path i "m_Operations m" rm] show ?case
    by (cases "match_ops meth path i (m_Operations m)") auto
qed

lemma match_manifests_None:
  "match_manifests meth path ms = None \<Longrightarrow> (i, m) \<in> set ms \<Longrightarrow> x \<in> set (m_Operations m) \<Longrightarrow>
     \<not> serves meth path i x rm"
proof (induction ms)
  case Nil
  then show ?case by simp
next
  case (Cons e ms)
  obtain j n where e: "e = (j, n)" by (cases e)
  with Cons match_ops_None [of meth path j "m_Operations n" x rm] show ?case
    by (cases "match_ops meth path j (m_Operations n)") auto
qed

text \<open>
  C31. Routing is sound and complete.  Outside the two built-in routes, a match names a manifest
  operation that serves the method (in any letter case) and path, as a compatibility route or as the
  provider's own route; and the router answers "unknown route" only if no operation of any manifest
  serves the request.
\<close>

theorem MatchRoute_correct:
  assumes "\<not> (meth = ''POST'' \<and> path \<in> {''/v1/chat/completions'', ''/v1/quarkgate''})"
  shows "case MatchRoute r meth path of
      Inr rm \<Rightarrow> \<exists>i m x. (i, m) \<in> set (r_manifests r) \<and> x \<in> set (m_Operations m) \<and> serves meth path i x rm
    | Inl e \<Rightarrow> \<not> (\<exists>i m x rm. (i, m) \<in> set (r_manifests r) \<and> x \<in> set (m_Operations m) \<and> serves meth path i x rm)"
proof (cases "match_manifests meth path (r_manifests r)")
  case None
  then have "MatchRoute r meth path = Inl (ErrMsg ''unknown route'')" using assms by (auto simp: MatchRoute_def)
  with match_manifests_None [OF None] show ?thesis by auto
next
  case (Some rm)
  then have "MatchRoute r meth path = Inr rm" using assms by (auto simp: MatchRoute_def)
  with match_manifests_Some [OF Some] show ?thesis by simp
qed

theorem MatchRoute_correct_witness:
  "\<exists>i m x rm. MatchRoute demo_registry ''post'' ''/v1/providers/apify/runs'' = Inr rm \<and>
     (i, m) \<in> set (r_manifests demo_registry) \<and> x \<in> set (m_Operations m) \<and>
     serves ''post'' ''/v1/providers/apify/runs'' i x rm"
proof -
  let ?rm = "\<lparr>rm_Provider = ''apify'', rm_Operation = ''run'', rm_Compat = False\<rparr>"
  have "MatchRoute demo_registry ''post'' ''/v1/providers/apify/runs'' = Inr ?rm" by code_simp
  with MatchRoute_correct [of "''post''" "''/v1/providers/apify/runs''" demo_registry] show ?thesis by simp
qed

section \<open>Merging usage\<close>

lemma mget_mergeUsage:
  "wf_map base \<Longrightarrow> wf_map patch \<Longrightarrow>
     mget (mergeUsage base patch) k = (case mget patch k of Some v \<Rightarrow> Some v | None \<Rightarrow> mget base k)"
  by (simp add: mergeUsage_def mget_assign_all split: option.split)

lemma wf_map_assign: "wf_map (assign_all [] m)"
  by simp

lemma dec_anymap_wf: "dec_anymap None j = Some (Some m) \<Longrightarrow> wf_map m"
  by (cases j) (auto split: if_splits)

lemma dec_object_anymap_wf:
  "dec_object [(''raw_usage'', dec_anymap)] old kvs = Some (Some m) \<Longrightarrow>
     (case old of None \<Rightarrow> True | Some m0 \<Rightarrow> wf_map m0) \<Longrightarrow> wf_map m"
proof (induction kvs arbitrary: old)
  case Nil
  then show ?case by simp
next
  case (Cons e kvs)
  obtain k j where e: "e = (k, j)" by (cases e)
  show ?case
  proof (cases "EqualFold k ''raw_usage''")
    case False
    with Cons e show ?thesis by simp
  next
    case True
    with Cons.prems e obtain o' where o: "dec_anymap old j = Some o'"
      and rest: "dec_object [(''raw_usage'', dec_anymap)] o' kvs = Some (Some m)"
      by (auto split: option.splits)
    have "case o' of None \<Rightarrow> True | Some m0 \<Rightarrow> wf_map m0"
      using o Cons.prems(2) by (cases j) (auto split: if_splits option.splits)
    from Cons.IH [OF rest this] show ?thesis .
  qed
qed

lemma invoke_usage_wf:
  assumes "invoke_struct h r inp [(''raw_usage'', dec_anymap)] None = Inr (Some m)"
  shows "wf_map m"
proof -
  from assms obtain j where "dec_struct [(''raw_usage'', dec_anymap)] None j = Some (Some m)"
    by (auto simp: invoke_struct_def unmarshal_struct_def split: sum.splits option.splits jtext.splits)
  then show ?thesis by (cases j) (auto intro: dec_object_anymap_wf)
qed



end
