(* ===== verification/Stream_Meter.thy ===== *)
theory Stream_Meter
  imports Models
begin

text \<open>
  \<open>internal/proxy/stream_meter.go\<close>: forwarding a streamed response line by line while counting its
  usage.  What the loop meets is a parameter: the results of its successive reads (\<open>body\<close>), which may
  never end, and for each pass the state of the request context and the readings of the clock
  (\<open>ticks\<close>, in nanoseconds).  The loop is a partial function: \<open>None\<close> is a loop that never returns.
  What the loop writes to the client is collected in \<open>mr_out\<close>; the source ignores the results of
  these writes.
\<close>

section \<open>The reader\<close>

text \<open>
  The result of one \<open>ReadBytes('\n')\<close>: the bytes up to and including the next newline, or the rest of
  the body together with the reason for its end.
\<close>

record read =
  rd_line :: string
  rd_err :: "goerr option"

type_synonym body = "nat \<Rightarrow> read"

definition newline :: char where "newline = CHR 0x0A"

definition io_EOF :: goerr where "io_EOF = ErrMsg ''EOF''"
definition DeadlineExceeded :: goerr where "DeadlineExceeded = ErrMsg ''context deadline exceeded''"
definition insufficient_credits :: goerr where "insufficient_credits = ErrMsg ''insufficient_credits''"

record tick =
  tk_done :: "goerr option"
  tk_now :: instant
  tk_active :: instant
  tk_since :: instant
  tk_kept :: instant

type_synonym ticks = "nat \<Rightarrow> tick"

record meteringReader =
  mr_idleSec :: int
  mr_maxStream :: int
  mr_usage :: "gmap option"
  mr_body :: string
  mr_dataChunks :: int
  mr_estOutput :: int
  mr_holdMicro :: int
  mr_softCapExceeded :: bool
  mr_out :: "string list"

definition newMeteringReader :: "int \<Rightarrow> int \<Rightarrow> int \<Rightarrow> meteringReader" where
  "newMeteringReader idleSec maxStream holdMicro =
     \<lparr>mr_idleSec = idleSec, mr_maxStream = maxStream, mr_usage = None, mr_body = [], mr_dataChunks = 0,
      mr_estOutput = 0, mr_holdMicro = holdMicro, mr_softCapExceeded = False, mr_out = []\<rparr>"

definition chunk_usage :: "jtext \<Rightarrow> gmap option" where
  "chunk_usage t =
     (case unmarshal_map t of
        (Some chunk, False) \<Rightarrow> as_map (mget chunk ''usage'')
      | _ \<Rightarrow> None)"

definition parseLine :: "string \<Rightarrow> meteringReader \<Rightarrow> meteringReader" where
  "parseLine line m =
     (let s = TrimSpace line
      in if \<not> HasPrefix s ''data: '' then m
         else
           (let data = TrimPrefix s ''data: ''
            in if data = ''[DONE]'' then m
               else
                 (let est = i64 (mr_estOutput m + int (length data) div 4);
                      m1 = m\<lparr>mr_dataChunks := i64 (mr_dataChunks m + 1), mr_estOutput := est\<rparr>;
                      m2 = (if mr_holdMicro m > 0 \<and> i64 (est * 900) > mr_holdMicro m
                            then m1\<lparr>mr_softCapExceeded := True\<rparr> else m1)
                  in case chunk_usage (json_decode data) of
                       None \<Rightarrow> m2
                     | Some usage \<Rightarrow> m2\<lparr>mr_usage := Some usage\<rparr>)))"

definition finalizeUsage :: "meteringReader \<Rightarrow> meteringReader" where
  "finalizeUsage m =
     (if mr_usage m \<noteq> None then m
      else if mr_dataChunks m > 0
      then m\<lparr>mr_usage := Some [(''output_tokens'', GInt64 (mr_estOutput m)), (''input_tokens'', GInt 0),
               (''fallback'', GStr ''chunk_estimate'')]\<rparr>
      else m)"

definition parseJSONUsage :: "string \<Rightarrow> gmap option" where
  "parseJSONUsage data =
     (case unmarshal_map (json_decode data) of
        (_, True) \<Rightarrow> None
      | (v, False) \<Rightarrow>
          (case v of
             None \<Rightarrow> None
           | Some m \<Rightarrow> (case as_map (mget m ''usage'') of Some usage \<Rightarrow> Some usage | None \<Rightarrow> Some m)))"

section \<open>The copy loop\<close>

text \<open>A line that arrived: count it, keep it, forward it, look for usage in it.\<close>

definition take_line :: "string \<Rightarrow> meteringReader \<Rightarrow> meteringReader" where
  "take_line line m =
     (if line \<noteq> [] then parseLine line (m\<lparr>mr_body := mr_body m @ line, mr_out := mr_out m @ [line]\<rparr>) else m)"

definition keepalive :: string where
  "keepalive = '': keepalive'' @ [newline, newline]"

text \<open>A zero deadline is none.\<close>

definition past :: "instant option \<Rightarrow> instant \<Rightarrow> bool" where
  "past deadline now \<longleftrightarrow> (case deadline of None \<Rightarrow> False | Some dl \<Rightarrow> dl < now)"

partial_function (option) copy_loop ::
    "int \<Rightarrow> instant option \<Rightarrow> body \<Rightarrow> ticks \<Rightarrow> nat \<Rightarrow> instant \<Rightarrow> meteringReader \<Rightarrow> int \<Rightarrow>
     (int \<times> goerr option \<times> meteringReader) option" where
  "copy_loop idle deadline src tks i lastActivity m n =
     (let t = tks i
      in case tk_done t of
           Some e \<Rightarrow> Some (n, Some e, finalizeUsage m)
         | None \<Rightarrow>
             if past deadline (tk_now t)
             then Some (n, Some DeadlineExceeded, finalizeUsage m)
             else
               (let line = rd_line (src i);
                    n1 = (if line \<noteq> [] then i64 (n + int (length line)) else n);
                    m1 = take_line line m;
                    last1 = (if line \<noteq> [] then tk_active t else lastActivity)
                in if mr_softCapExceeded m1 then Some (n1, Some insufficient_credits, finalizeUsage m1)
                   else
                     (case rd_err (src i) of
                        Some e \<Rightarrow> Some (n1, if e = io_EOF then None else Some e, finalizeUsage m1)
                      | None \<Rightarrow>
                          if tk_since t - last1 > idle
                          then copy_loop idle deadline src tks (Suc i) (tk_kept t)
                                 (m1\<lparr>mr_out := mr_out m1 @ [keepalive]\<rparr>) n1
                          else copy_loop idle deadline src tks (Suc i) last1 m1 n1)))"

definition copy_idle :: "meteringReader \<Rightarrow> int" where
  "copy_idle m = (let idle = i64 (mr_idleSec m * 1000000000) in if idle \<le> 0 then 30 * 1000000000 else idle)"

definition copy_deadline :: "instant \<Rightarrow> meteringReader \<Rightarrow> instant option" where
  "copy_deadline now m = (if mr_maxStream m > 0 then Some (now + mr_maxStream m) else None)"

definition copy :: "body \<Rightarrow> ticks \<Rightarrow> instant \<Rightarrow> instant \<Rightarrow> meteringReader \<Rightarrow> (int \<times> goerr option \<times> meteringReader) option" where
  "copy src tks now1 now2 m = copy_loop (copy_idle m) (copy_deadline now2 m) src tks 0 now1 m 0"

declare copy_loop.simps [code]

section \<open>What the loop does\<close>

text \<open>
  \<open>ReadBytes\<close> reports an error exactly if what it returns does not end in a newline.  \<open>prompt\<close>: no pass
  takes longer than the idle time between the two clock readings after its line.
\<close>

definition reads_ok :: "body \<Rightarrow> bool" where
  "reads_ok src \<longleftrightarrow> (\<forall>i. rd_err (src i) = None \<longrightarrow> (\<exists>s. rd_line (src i) = s @ [newline]))"

definition prompt :: "int \<Rightarrow> ticks \<Rightarrow> bool" where
  "prompt idle tks \<longleftrightarrow> (\<forall>i. tk_since (tks i) - tk_active (tks i) \<le> idle)"

definition lines_of :: "body \<Rightarrow> nat \<Rightarrow> nat \<Rightarrow> string list" where
  "lines_of src i k = map (\<lambda>j. rd_line (src j)) [i..<k]"

lemma lines_of_Cons: "i < k \<Longrightarrow> lines_of src i k = rd_line (src i) # lines_of src (Suc i) k"
  by (simp add: lines_of_def upt_conv_Cons)

lemma lines_of_Nil [simp]: "k \<le> i \<Longrightarrow> lines_of src i k = []"
  by (simp add: lines_of_def)

definition bytes_of :: "string list \<Rightarrow> int" where
  "bytes_of ls = int (length (concat ls))"

text \<open>
  How a run of the loop ends after the lines \<open>i \<dots> k - 1\<close>: the reader has taken these lines and no other,
  no line but the last exceeded the soft cap, and a result without an error means end of file.
\<close>

definition loop_ends ::
    "body \<Rightarrow> nat \<Rightarrow> meteringReader \<Rightarrow> int \<Rightarrow> nat \<Rightarrow> int \<times> goerr option \<times> meteringReader \<Rightarrow> bool" where
  "loop_ends src i m n k res \<longleftrightarrow>
     (case res of (n', err, m') \<Rightarrow>
        i \<le> k \<and> m' = finalizeUsage (fold take_line (lines_of src i k) m) \<and>
        i64 n' = i64 (n + bytes_of (lines_of src i k)) \<and>
        (\<forall>j. i \<le> j \<longrightarrow> Suc j < k \<longrightarrow> \<not> mr_softCapExceeded (fold take_line (lines_of src i (Suc j)) m)) \<and>
        (err = None \<longrightarrow> i < k \<and> rd_err (src (k - 1)) = Some io_EOF))"

lemma loop_ends_here: "err \<noteq> None \<Longrightarrow> loop_ends src i m n i (n, err, finalizeUsage m)"
  by (simp add: loop_ends_def bytes_of_def)

lemma loop_ends_after:
  assumes "err = None \<longrightarrow> rd_err (src i) = Some io_EOF"
  shows "loop_ends src i m n (Suc i)
    ((if rd_line (src i) \<noteq> [] then i64 (n + int (length (rd_line (src i)))) else n), err,
     finalizeUsage (take_line (rd_line (src i)) m))"
  using assms by (simp add: loop_ends_def lines_of_Cons bytes_of_def)

lemma loop_ends_step:
  assumes "loop_ends src (Suc i) (take_line (rd_line (src i)) m) (i64 (n + int (length (rd_line (src i))))) k res"
    and "\<not> mr_softCapExceeded (take_line (rd_line (src i)) m)"
  shows "loop_ends src i m n k res"
proof -
  obtain n' err m' where res: "res = (n', err, m')" by (cases res)
  from assms(1) have k: "Suc i \<le> k" by (simp add: loop_ends_def res)
  have "\<not> mr_softCapExceeded (fold take_line (lines_of src i (Suc j)) m)" if "i \<le> j" "Suc j < k" for j
  proof (cases "j = i")
    case True
    with assms(2) show ?thesis by (simp add: lines_of_Cons)
  next
    case False
    with that assms(1) show ?thesis by (simp add: loop_ends_def res lines_of_Cons)
  qed
  moreover have "i64 (i64 (n + a) + b) = i64 (n + (a + b))" for a b by (simp add: add.assoc)
  ultimately show ?thesis
    using assms(1) k by (simp add: loop_ends_def res lines_of_Cons bytes_of_def)
qed

lemma reads_line: "reads_ok src \<Longrightarrow> rd_err (src i) = None \<Longrightarrow> rd_line (src i) \<noteq> []"
  by (metis reads_ok_def snoc_eq_iff_butlast)

lemma copy_loop_ends:
  assumes "copy_loop idle deadline src tks i l m n = Some res" and "reads_ok src" "prompt idle tks"
  shows "\<exists>k. loop_ends src i m n k res"
  using assms(2,3)
proof (induction rule: copy_loop.raw_induct [OF _ assms(1)])
  case (1 f idle deadline src tks i l m n res)
  let ?m = "take_line (rd_line (src i)) m"
  let ?n = "if rd_line (src i) \<noteq> [] then i64 (n + int (length (rd_line (src i)))) else n"
  consider (stopped) e where "res = (n, Some e, finalizeUsage m)"
    | (ended) err where "res = (?n, err, finalizeUsage ?m)" "err = None \<longrightarrow> rd_err (src i) = Some io_EOF"
    | (stalled) "rd_err (src i) = None" "idle < tk_since (tks i) - tk_active (tks i)"
    | (continued) "rd_err (src i) = None" "\<not> mr_softCapExceeded ?m" "f idle deadline src tks (Suc i) (tk_active (tks i)) ?m ?n = Some res"
    using "1.hyps" reads_line [OF "1.prems"(1), of i]
    by (auto simp: Let_def split: option.splits if_splits)
  then show ?case
  proof cases
    case stopped
    then show ?thesis using loop_ends_here by blast
  next
    case ended
    then show ?thesis using loop_ends_after by blast
  next
    case stalled
    with "1.prems"(2) show ?thesis by (auto simp: prompt_def not_le [symmetric])
  next
    case continued
    with "1.IH" "1.prems" obtain k where "loop_ends src (Suc i) ?m ?n k res" by blast
    with continued reads_line [OF "1.prems"(1), of i] show ?thesis using loop_ends_step by fastforce
  qed
qed

text \<open>What a run of lines does to the reader.\<close>

definition data_of :: "string \<Rightarrow> string option" where
  "data_of line =
     (let s = TrimSpace line
      in if HasPrefix s ''data: '' \<and> TrimPrefix s ''data: '' \<noteq> ''[DONE]'' then Some (TrimPrefix s ''data: '') else None)"

definition line_tokens :: "string \<Rightarrow> int" where
  "line_tokens line = (case data_of line of None \<Rightarrow> 0 | Some data \<Rightarrow> int (length data) div 4)"

lemma parseLine_None: "data_of line = None \<Longrightarrow> parseLine line m = m"
  by (auto simp: parseLine_def data_of_def Let_def split: if_splits)

lemma parseLine_Some:
  assumes "data_of line = Some data"
  shows "parseLine line m =
    m\<lparr>mr_dataChunks := i64 (mr_dataChunks m + 1), mr_estOutput := i64 (mr_estOutput m + line_tokens line),
      mr_softCapExceeded := (mr_softCapExceeded m \<or>
        (mr_holdMicro m > 0 \<and> i64 (i64 (mr_estOutput m + line_tokens line) * 900) > mr_holdMicro m)),
      mr_usage := (case chunk_usage (json_decode data) of None \<Rightarrow> mr_usage m | Some u \<Rightarrow> Some u)\<rparr>"
proof -
  from assms have "HasPrefix (TrimSpace line) ''data: ''" "TrimPrefix (TrimSpace line) ''data: '' = data" "data \<noteq> ''[DONE]''"
    by (auto simp: data_of_def Let_def split: if_splits)
  moreover from assms have "line_tokens line = int (length data) div 4" by (simp add: line_tokens_def)
  ultimately show ?thesis
    by (cases m) (auto simp: parseLine_def Let_def split: option.splits)
qed

lemma parseLine_keeps [simp]:
  "mr_out (parseLine line m) = mr_out m" "mr_body (parseLine line m) = mr_body m"
  "mr_holdMicro (parseLine line m) = mr_holdMicro m"
  by (cases "data_of line"; simp add: parseLine_None parseLine_Some)+

lemma finalizeUsage_keeps [simp]:
  "mr_out (finalizeUsage m) = mr_out m" "mr_body (finalizeUsage m) = mr_body m"
  "mr_estOutput (finalizeUsage m) = mr_estOutput m" "mr_softCapExceeded (finalizeUsage m) = mr_softCapExceeded m"
  by (simp_all add: finalizeUsage_def)

lemma take_lines_out:
  "concat (mr_out (fold take_line ls m)) = concat (mr_out m) @ concat ls"
  "mr_body (fold take_line ls m) = mr_body m @ concat ls"
  by (induction ls arbitrary: m) (simp_all add: take_line_def)

lemma data_of_Nil [simp]: "data_of [] = None"
  by (simp add: data_of_def TrimSpace_def HasPrefix_def)

lemma line_tokens_bounds: "0 \<le> line_tokens line \<and> line_tokens line \<le> int (length line)"
proof (cases "data_of line")
  case None
  then show ?thesis by (simp add: line_tokens_def)
next
  case (Some data)
  then have "length data \<le> length (TrimSpace line)"
    by (auto simp: data_of_def TrimPrefix_def Let_def split: if_splits)
  also have "\<dots> \<le> length line"
    using length_dropWhile_le [of is_space "rev (dropWhile is_space line)"] length_dropWhile_le [of is_space line]
    by (simp add: TrimSpace_def)
  finally have "int (length data) div 4 \<le> int (length line)" by linarith
  then show ?thesis using Some by (simp add: line_tokens_def)
qed

text \<open>As long as the soft cap is not exceeded the estimate is exact and covered by the hold.\<close>

definition under_cap :: "int \<Rightarrow> meteringReader \<Rightarrow> bool" where
  "under_cap e m \<longleftrightarrow> mr_estOutput m = e \<and> 0 \<le> e \<and> e * 900 \<le> mr_holdMicro m \<and> mr_holdMicro m > 0 \<and> mr_holdMicro m < 2 ^ 62"

lemma take_line_under_cap:
  assumes "under_cap e m" and "length line < 2 ^ 40" and "\<not> mr_softCapExceeded (take_line line m)"
  shows "under_cap (e + line_tokens line) (take_line line m)"
proof (cases "data_of line")
  case None
  then have "line_tokens line = 0" by (simp add: line_tokens_def)
  with None assms(1) show ?thesis by (simp add: take_line_def parseLine_None under_cap_def)
next
  case (Some data)
  have "int (length line) < 2 ^ 40" using assms(2) by (metis of_nat_less_iff of_nat_numeral of_nat_power)
  then have t: "0 \<le> line_tokens line" "line_tokens line < 2 ^ 40" using line_tokens_bounds [of line] by linarith+
  from Some have ne: "line \<noteq> []" by auto
  from assms(1) have e: "mr_estOutput m = e" "0 \<le> e" "e * 900 \<le> mr_holdMicro m" "mr_holdMicro m > 0"
      "mr_holdMicro m < 2 ^ 62"
    by (simp_all add: under_cap_def)
  then have s: "i64 (e + line_tokens line) = e + line_tokens line" using t by (simp add: in_i64_iff)
  moreover have "i64 ((e + line_tokens line) * 900) = (e + line_tokens line) * 900"
    using e t by (intro i64_id) (simp add: in_i64_iff)
  ultimately have "(e + line_tokens line) * 900 \<le> mr_holdMicro m"
    using assms(3) Some e ne by (auto simp: take_line_def parseLine_Some)
  with e s t Some assms(1) ne show ?thesis by (simp add: take_line_def parseLine_Some under_cap_def)
qed

lemma take_lines_under_cap:
  assumes "under_cap e m" and "\<forall>i. length (rd_line (src i)) < 2 ^ 40"
    and "\<forall>j. i \<le> j \<longrightarrow> j < k \<longrightarrow> \<not> mr_softCapExceeded (fold take_line (lines_of src i (Suc j)) m)" and "i \<le> k"
  shows "under_cap (e + sum_list (map line_tokens (lines_of src i k))) (fold take_line (lines_of src i k) m)"
  using assms(1,3,4)
proof (induction "k - i" arbitrary: i e m)
  case 0
  then show ?case by simp
next
  case (Suc d)
  then have i: "i < k" by simp
  let ?m = "take_line (rd_line (src i)) m"
  have "\<not> mr_softCapExceeded ?m" using Suc.prems(2) i by (auto simp: lines_of_Cons dest: spec [of _ i])
  with take_line_under_cap [OF Suc.prems(1)] assms(2) have c: "under_cap (e + line_tokens (rd_line (src i))) ?m" by blast
  have "\<not> mr_softCapExceeded (fold take_line (lines_of src (Suc i) (Suc j)) ?m)" if "Suc i \<le> j" "j < k" for j
    using Suc.prems(2) that by (auto simp: lines_of_Cons dest: spec [of _ j])
  with Suc.hyps(1) [of "Suc i" "e + line_tokens (rd_line (src i))" ?m] c Suc.hyps(2) i show ?case
    by (simp add: lines_of_Cons add.assoc)
qed

text \<open>
  C22. A stream is forwarded verbatim: what the client receives is the concatenation of the first lines
  of the provider's answer, byte for byte and in order; the body kept for the driver is the same text;
  and a result without an error means that the whole answer was forwarded.
\<close>

theorem copy_forwards:
  assumes "reads_ok src" and "prompt (copy_idle m) tks" and "m = newMeteringReader idleSec maxStream holdMicro"
    and "copy src tks now1 now2 m = Some (n, err, m')"
  shows "\<exists>k. concat (mr_out m') = concat (lines_of src 0 k) \<and> mr_body m' = concat (lines_of src 0 k) \<and>
    i64 n = i64 (int (length (mr_body m'))) \<and> (err = None \<longrightarrow> 0 < k \<and> rd_err (src (k - 1)) = Some io_EOF)"
proof -
  from copy_loop_ends [OF assms(4) [unfolded copy_def] assms(1,2)]
  obtain k where "loop_ends src 0 m 0 k (n, err, m')" by blast
  with assms(3) show ?thesis
    by (intro exI [of _ k]) (auto simp: loop_ends_def take_lines_out newMeteringReader_def bytes_of_def)
qed

text \<open>
  C24. A stream stops when the hold is used up: the output tokens estimated from all the lines that were
  forwarded before the last one, at the 900 micro-credits the loop counts for each, are covered by the
  hold (below 2 to the 62, with lines below 2 to the 40 bytes, so that the product does not wrap).
\<close>

theorem copy_soft_cap:
  assumes "reads_ok src" and "prompt (copy_idle m) tks" and "m = newMeteringReader idleSec maxStream holdMicro"
    and "0 < holdMicro" "holdMicro < 2 ^ 62" and "\<forall>i. length (rd_line (src i)) < 2 ^ 40"
    and "copy src tks now1 now2 m = Some (n, err, m')"
  shows "\<exists>k. mr_body m' = concat (lines_of src 0 k) \<and>
    sum_list (map line_tokens (lines_of src 0 (k - 1))) * 900 \<le> holdMicro"
proof -
  from copy_loop_ends [OF assms(7) [unfolded copy_def] assms(1,2)]
  obtain k where k: "loop_ends src 0 m 0 k (n, err, m')" by blast
  have "under_cap 0 m" using assms(3-5) by (simp add: under_cap_def newMeteringReader_def)
  moreover have "\<forall>j. 0 \<le> j \<longrightarrow> j < k - 1 \<longrightarrow> \<not> mr_softCapExceeded (fold take_line (lines_of src 0 (Suc j)) m)"
    using k by (auto simp: loop_ends_def)
  ultimately have "under_cap (0 + sum_list (map line_tokens (lines_of src 0 (k - 1)))) (fold take_line (lines_of src 0 (k - 1)) m)"
    by (intro take_lines_under_cap) (use assms(6) in simp_all)
  moreover have "mr_holdMicro (fold take_line ls m0) = mr_holdMicro m0" for ls m0
    by (induction ls arbitrary: m0) (simp_all add: take_line_def)
  ultimately show ?thesis using k assms(3)
    by (intro exI [of _ k]) (auto simp: loop_ends_def take_lines_out newMeteringReader_def under_cap_def)
qed

text \<open>The loop leaves at the latest in the pass that meets a reason to.\<close>

definition must_stop :: "instant option \<Rightarrow> body \<Rightarrow> ticks \<Rightarrow> nat \<Rightarrow> bool" where
  "must_stop deadline src tks j \<longleftrightarrow>
     tk_done (tks j) \<noteq> None \<or> past deadline (tk_now (tks j)) \<or> rd_err (src j) \<noteq> None"

lemma copy_loop_returns:
  "must_stop deadline src tks j \<Longrightarrow> i \<le> j \<Longrightarrow> copy_loop idle deadline src tks i l m n \<noteq> None"
proof (induction "j - i" arbitrary: i l m n)
  case 0
  then show ?case
    by (subst copy_loop.simps) (auto simp: must_stop_def Let_def split: option.splits)
next
  case (Suc d)
  then have IH: "copy_loop idle deadline src tks (Suc i) l' m' n' \<noteq> None" for l' m' n' by simp
  show ?case by (subst copy_loop.simps) (simp add: Let_def IH split: option.split del: not_None_eq)
qed

text \<open>
  C23. The copy loop ends: it returns if the body ends or fails, if the request is cancelled, or, since a
  positive stream limit is a deadline, as soon as the clock has passed the limit at the start of some
  pass; an endless answer of the provider does not keep it.
\<close>

theorem copy_returns:
  assumes "rd_err (src j) \<noteq> None \<or> tk_done (tks j) \<noteq> None \<or> (0 < maxStream \<and> now2 + maxStream < tk_now (tks j))"
  shows "\<exists>res. copy src tks now1 now2 (newMeteringReader idleSec maxStream holdMicro) = Some res"
proof -
  let ?m = "newMeteringReader idleSec maxStream holdMicro"
  have "must_stop (copy_deadline now2 ?m) src tks j"
    using assms by (auto simp: must_stop_def past_def copy_deadline_def newMeteringReader_def)
  from copy_loop_returns [OF this] show ?thesis unfolding copy_def by blast
qed

section \<open>A stream\<close>

text \<open>Two data lines and the end marker; an answer that never ends.\<close>

definition demo_body :: body where
  "demo_body i =
     (if i = 0 then \<lparr>rd_line = ''data: {}'' @ [newline], rd_err = None\<rparr>
      else if i = 1 then \<lparr>rd_line = ''data: [DONE]'' @ [newline], rd_err = None\<rparr>
      else \<lparr>rd_line = [], rd_err = Some io_EOF\<rparr>)"

definition endless_body :: body where
  "endless_body i = \<lparr>rd_line = [newline], rd_err = None\<rparr>"

definition demo_ticks :: ticks where
  "demo_ticks i = \<lparr>tk_done = None, tk_now = int i * 10, tk_active = int i * 10 + 1, tk_since = int i * 10 + 2, tk_kept = 0\<rparr>"

lemma demo_body_ok: "reads_ok demo_body" "prompt idle demo_ticks \<longleftrightarrow> 1 \<le> idle" "length (rd_line (demo_body i)) < 2 ^ 40"
  by (auto simp: reads_ok_def demo_body_def prompt_def demo_ticks_def)

definition demo_copied :: meteringReader where
  "demo_copied = (newMeteringReader 30 0 5000)\<lparr>mr_body := ''data: {}'' @ [newline] @ ''data: [DONE]'' @ [newline],
     mr_out := [''data: {}'' @ [newline], ''data: [DONE]'' @ [newline]], mr_dataChunks := 1,
     mr_usage := Some [(''output_tokens'', GInt64 0), (''input_tokens'', GInt 0), (''fallback'', GStr ''chunk_estimate'')]\<rparr>"

lemma demo_copy: "copy demo_body demo_ticks 0 0 (newMeteringReader 30 0 5000) = Some (22, None, demo_copied)"
  by code_simp

theorem copy_forwards_witness:
  "\<exists>k. mr_body demo_copied = concat (lines_of demo_body 0 k) \<and> 0 < k \<and> rd_err (demo_body (k - 1)) = Some io_EOF"
proof -
  have "prompt (copy_idle (newMeteringReader 30 0 5000)) demo_ticks"
    by (simp add: demo_body_ok copy_idle_def newMeteringReader_def in_i64_iff)
  from copy_forwards [OF demo_body_ok(1) this refl demo_copy] show ?thesis by auto
qed

theorem copy_soft_cap_witness:
  "\<exists>k. mr_body demo_copied = concat (lines_of demo_body 0 k) \<and>
     sum_list (map line_tokens (lines_of demo_body 0 (k - 1))) * 900 \<le> 5000"
proof -
  have "prompt (copy_idle (newMeteringReader 30 0 5000)) demo_ticks"
    by (simp add: demo_body_ok copy_idle_def newMeteringReader_def in_i64_iff)
  from copy_soft_cap [OF demo_body_ok(1) this refl _ _ _ demo_copy] show ?thesis
    using demo_body_ok(3) by simp
qed

theorem copy_returns_witness:
  "\<exists>res. copy endless_body demo_ticks 0 0 (newMeteringReader 30 100 5000) = Some res"
  by (rule copy_returns [of _ 11]) (simp add: demo_ticks_def)

end
