(* ===== verification/Resilience.thy ===== *)
theory Resilience
  imports Models "HOL-Library.Multiset"
begin

text \<open>
  The guards of the proxy that live in memory: the counter of running requests
  (\<open>internal/proxy/active.go\<close>), the limit of concurrent requests per provider (\<open>bulkhead.go\<close>) and the
  circuit breaker (\<open>breaker.go\<close>).  Each Go method holds the object's mutex from its first statement to
  its return, so concurrent callers are some sequence of whole calls; facts about every sequence of
  calls are facts about every interleaving.  Instants and durations of the process count nanoseconds;
  each \<open>time.Now()\<close> is an argument.
\<close>

section \<open>active.go\<close>

definition IncActive :: "int \<Rightarrow> int" where "IncActive n = i64 (n + 1)"
definition DecActive :: "int \<Rightarrow> int" where "DecActive n = i64 (n + -1)"
definition ActiveCount :: "int \<Rightarrow> int" where "ActiveCount n = n"

section \<open>bulkhead.go\<close>

text \<open>A nil \<open>*Bulkhead\<close> is \<open>None\<close>; a missing map entry reads as 0.\<close>

record Bulkhead =
  b_limit :: int
  b_active :: "int gomap"

definition NewBulkhead :: "int \<Rightarrow> Bulkhead option" where
  "NewBulkhead limit = (if limit \<le> 0 then None else Some \<lparr>b_limit = limit, b_active = []\<rparr>)"

definition active_of :: "Bulkhead \<Rightarrow> string \<Rightarrow> int" where
  "active_of b provider = (case mget (b_active b) provider of None \<Rightarrow> 0 | Some n \<Rightarrow> n)"

definition TryAcquire :: "Bulkhead option \<Rightarrow> string \<Rightarrow> bool \<times> Bulkhead option" where
  "TryAcquire bo provider =
     (case bo of
        None \<Rightarrow> (True, None)
      | Some b \<Rightarrow>
          if active_of b provider \<ge> b_limit b then (False, Some b)
          else (True, Some (b\<lparr>b_active := mset_at provider (i64 (active_of b provider + 1)) (b_active b)\<rparr>)))"

definition Release :: "Bulkhead option \<Rightarrow> string \<Rightarrow> Bulkhead option" where
  "Release bo provider =
     (case bo of
        None \<Rightarrow> None
      | Some b \<Rightarrow>
          if active_of b provider > 0
          then Some (b\<lparr>b_active := mset_at provider (i64 (active_of b provider - 1)) (b_active b)\<rparr>)
          else Some b)"

section \<open>breaker.go\<close>

record CircuitBreaker =
  cb_failures :: int
  cb_successes :: int
  cb_openUntil :: instant
  cb_threshold :: float64
  cb_cooldown :: int

text \<open>The zero \<open>time.Time\<close>, the first instant of the year 1.\<close>

definition zero_time :: instant where
  "zero_time = -62135596800000000000"

definition NewCircuitBreaker :: "float64 \<Rightarrow> int \<Rightarrow> CircuitBreaker" where
  "NewCircuitBreaker threshold cooldown =
     \<lparr>cb_failures = 0, cb_successes = 0, cb_openUntil = zero_time, cb_threshold = threshold,
      cb_cooldown = cooldown\<rparr>"

text \<open>\<open>now1\<close> is the first reading of the clock, \<open>now2\<close> the one that starts the cooldown.\<close>

definition Allow :: "instant \<Rightarrow> instant \<Rightarrow> string \<Rightarrow> CircuitBreaker \<Rightarrow> bool \<times> CircuitBreaker" where
  "Allow now1 now2 provider cb =
     (if now1 < cb_openUntil cb then (False, cb)
      else
        (let sum = i64 (cb_failures cb + cb_successes cb)
         in if sum < 5 then (True, cb)
            else
              (let rate = fdiv (float_of_int (cb_failures cb)) (float_of_int sum)
               in if flt (cb_threshold cb) rate
                  then (False, cb\<lparr>cb_openUntil := now2 + cb_cooldown cb, cb_failures := 0, cb_successes := 0\<rparr>)
                  else (True, cb))))"

definition Record :: "bool \<Rightarrow> CircuitBreaker \<Rightarrow> CircuitBreaker" where
  "Record success cb =
     (if success then cb\<lparr>cb_successes := i64 (cb_successes cb + 1)\<rparr>
      else cb\<lparr>cb_failures := i64 (cb_failures cb + 1)\<rparr>)"

section \<open>The bulkhead as a counting semaphore\<close>

text \<open>
  The specification: a multiset of the providers whose requests run, and at most \<open>cap\<close> of each.  A
  request asks for a slot and gives it back when it is done.
\<close>

datatype 'k sem_op = Acquire 'k | Finish 'k

fun spec_run :: "nat \<Rightarrow> 'k sem_op list \<Rightarrow> 'k multiset \<Rightarrow> bool list \<times> 'k multiset" where
  "spec_run cap [] M = ([], M)"
| "spec_run cap (Acquire p # xs) M =
     (let ok = (count M p < cap); (as, M') = spec_run cap xs (if ok then add_mset p M else M)
      in (ok # as, M'))"
| "spec_run cap (Finish p # xs) M = spec_run cap xs (M - {#p#})"

fun sem_run :: "('s \<Rightarrow> 'k \<Rightarrow> bool \<times> 's) \<Rightarrow> ('s \<Rightarrow> 'k \<Rightarrow> 's) \<Rightarrow> 'k sem_op list \<Rightarrow> 's \<Rightarrow> bool list \<times> 's" where
  "sem_run acquire release [] s = ([], s)"
| "sem_run acquire release (Acquire p # xs) s =
     (let (ok, s1) = acquire s p; (as, s2) = sem_run acquire release xs s1 in (ok # as, s2))"
| "sem_run acquire release (Finish p # xs) s = sem_run acquire release xs (release s p)"

lemma spec_run_cap: "(\<forall>p. count M p \<le> cap) \<Longrightarrow> count (snd (spec_run cap xs M)) p \<le> cap"
proof (induction cap xs M rule: spec_run.induct)
  case (2 cap q xs M)
  then have "\<forall>p. count (if count M q < cap then add_mset q M else M) p \<le> cap" by auto
  with 2(1) [OF refl this] show ?case by (simp add: Let_def case_prod_beta)
next
  case (3 cap q xs M)
  then have "\<forall>p. count (M - {#q#}) p \<le> cap" by (auto intro: le_trans [OF diff_le_self])
  with 3(1) show ?case by simp
qed simp

locale semaphore =
  fixes inv :: "'s \<Rightarrow> bool"
    and cap :: "'s \<Rightarrow> nat"
    and held :: "'s \<Rightarrow> 'k multiset"
    and acquire :: "'s \<Rightarrow> 'k \<Rightarrow> bool \<times> 's"
    and release :: "'s \<Rightarrow> 'k \<Rightarrow> 's"
  assumes acquire_ok: "inv s \<Longrightarrow> fst (acquire s p) \<longleftrightarrow> count (held s) p < cap s"
    and acquire_state: "inv s \<Longrightarrow> inv (snd (acquire s p)) \<and> cap (snd (acquire s p)) = cap s \<and>
      held (snd (acquire s p)) = (if count (held s) p < cap s then add_mset p (held s) else held s)"
    and release_state: "inv s \<Longrightarrow> inv (release s p) \<and> cap (release s p) = cap s \<and>
      held (release s p) = held s - {#p#}"
begin

lemma run_refines:
  "inv s \<Longrightarrow> sem_run acquire release xs s = (as, s') \<Longrightarrow>
     inv s' \<and> cap s' = cap s \<and> spec_run (cap s) xs (held s) = (as, held s')"
proof (induction xs arbitrary: s as)
  case Nil
  then show ?case by simp
next
  case (Cons x xs)
  show ?case
  proof (cases x)
    case (Acquire p)
    obtain bs where bs: "sem_run acquire release xs (snd (acquire s p)) = (bs, s')" "as = fst (acquire s p) # bs"
      using Cons.prems(2) Acquire by (auto simp: Let_def split: prod.splits)
    with Cons.IH [OF _ bs(1)] acquire_state [OF Cons.prems(1), of p] acquire_ok [OF Cons.prems(1), of p] Acquire
    show ?thesis by (simp add: Let_def)
  next
    case (Finish p)
    with Cons.IH [of "release s p" as] Cons.prems release_state [OF Cons.prems(1), of p] show ?thesis by simp
  qed
qed

lemma acquire_release:
  "inv s \<Longrightarrow> fst (acquire s p) \<Longrightarrow> held (release (snd (acquire s p)) p) = held s"
  using acquire_ok [of s p] acquire_state [of s p] release_state [of "snd (acquire s p)" p] by simp

end

definition bulkhead_ok :: "Bulkhead option \<Rightarrow> bool" where
  "bulkhead_ok bo \<longleftrightarrow>
     (case bo of
        None \<Rightarrow> False
      | Some b \<Rightarrow> in_i64 (b_limit b) \<and> 0 < b_limit b \<and> wf_map (b_active b) \<and>
                  (\<forall>p. 0 \<le> active_of b p \<and> active_of b p \<le> b_limit b))"

definition bulkhead_cap :: "Bulkhead option \<Rightarrow> nat" where
  "bulkhead_cap bo = (case bo of None \<Rightarrow> 0 | Some b \<Rightarrow> nat (b_limit b))"

text \<open>Each provider as often as it is counted.\<close>

definition holders :: "Bulkhead option \<Rightarrow> string multiset" where
  "holders bo =
     (case bo of None \<Rightarrow> {#} | Some b \<Rightarrow> \<Sum>\<^sub># (mset (map (\<lambda>(p, n). replicate_mset (nat n) p) (b_active b))))"

lemma count_entries:
  "wf_map m \<Longrightarrow> count (\<Sum>\<^sub># (mset (map (\<lambda>(p, n). replicate_mset (nat n) p) m))) q =
     (case mget m q of None \<Rightarrow> 0 | Some n \<Rightarrow> nat n)"
proof (induction m)
  case Nil
  then show ?case by simp
next
  case (Cons e m)
  obtain p n where e: "e = (p, n)" by (cases e)
  from Cons.prems e have wf: "wf_map m" and "p \<notin> fst ` set m" by (auto simp: wf_map_def)
  then have "mget m p = None" by (simp add: map_of_eq_None_iff)
  with Cons.IH [OF wf] e show ?case by (simp split: option.splits)
qed

lemma count_holders: "wf_map (b_active b) \<Longrightarrow> count (holders (Some b)) p = nat (active_of b p)"
  using count_entries [of "b_active b" p] by (simp add: holders_def active_of_def split: option.splits)

lemma active_of_update:
  "active_of (b\<lparr>b_active := mset_at p n (b_active b)\<rparr>) q = (if q = p then n else active_of b q)"
  by (simp add: active_of_def update_conv')

lemma bulkhead_set:
  assumes "bulkhead_ok (Some b)" and "0 \<le> n" "n \<le> b_limit b"
  shows "bulkhead_ok (Some (b\<lparr>b_active := mset_at p n (b_active b)\<rparr>))"
    and "count (holders (Some (b\<lparr>b_active := mset_at p n (b_active b)\<rparr>))) q =
      (if q = p then nat n else count (holders (Some b)) q)"
proof -
  from assms show "bulkhead_ok (Some (b\<lparr>b_active := mset_at p n (b_active b)\<rparr>))"
    by (simp add: bulkhead_ok_def active_of_update)
  from assms(1) have wf: "wf_map (b_active b)" by (simp add: bulkhead_ok_def)
  then show "count (holders (Some (b\<lparr>b_active := mset_at p n (b_active b)\<rparr>))) q =
      (if q = p then nat n else count (holders (Some b)) q)"
    by (simp add: count_holders active_of_update)
qed

interpretation bh: semaphore bulkhead_ok bulkhead_cap holders TryAcquire Release
proof (unfold_locales, goal_cases)
  case (1 s p)
  then show ?case
    by (cases s) (auto simp: bulkhead_ok_def TryAcquire_def bulkhead_cap_def count_holders)
next
  case (2 s p)
  then obtain b where s: "s = Some b" by (cases s) (simp_all add: bulkhead_ok_def)
  let ?n = "active_of b p"
  from 2 s have wf: "wf_map (b_active b)" and r: "0 \<le> ?n" "?n \<le> b_limit b" "in_i64 (b_limit b)"
    by (simp_all add: bulkhead_ok_def)
  show ?case
  proof (cases "?n < b_limit b")
    case True
    with r have n: "i64 (?n + 1) = ?n + 1" by (simp add: in_i64_iff)
    with True r 2 s bulkhead_set [of b "?n + 1" p] wf show ?thesis
      by (auto simp: TryAcquire_def bulkhead_cap_def multiset_eq_iff count_holders)
  next
    case False
    with s 2 wf show ?thesis by (simp add: TryAcquire_def bulkhead_cap_def count_holders)
  qed
next
  case (3 s p)
  then obtain b where s: "s = Some b" by (cases s) (simp_all add: bulkhead_ok_def)
  let ?n = "active_of b p"
  from 3 s have wf: "wf_map (b_active b)" and r: "0 \<le> ?n" "?n \<le> b_limit b" "in_i64 (b_limit b)"
    by (simp_all add: bulkhead_ok_def)
  show ?case
  proof (cases "0 < ?n")
    case True
    with r have n: "i64 (?n - 1) = ?n - 1" by (simp add: in_i64_iff)
    with True r 3 s bulkhead_set [of b "?n - 1" p] wf show ?thesis
      by (auto simp: Release_def bulkhead_cap_def multiset_eq_iff count_holders nat_diff_distrib)
  next
    case False
    with s 3 wf show ?thesis
      by (auto simp: Release_def multiset_eq_iff count_holders)
  qed
qed

lemma NewBulkhead_ok:
  assumes "0 < limit" "in_i64 limit"
  shows "bulkhead_ok (NewBulkhead limit)" "bulkhead_cap (NewBulkhead limit) = nat limit"
    "holders (NewBulkhead limit) = {#}"
  using assms by (simp_all add: NewBulkhead_def bulkhead_ok_def active_of_def bulkhead_cap_def holders_def)

text \<open>
  C19. The bulkhead refines a counting semaphore per provider: over every sequence of requests that ask
  for a slot and give it back, it gives the answers of the specification, the counts in its map are the
  requests that hold a slot, and no provider ever has more than the limit.
\<close>

theorem bulkhead_refines:
  assumes "0 < limit" "in_i64 limit"
    and "sem_run TryAcquire Release xs (NewBulkhead limit) = (answers, b)"
  shows "spec_run (nat limit) xs {#} = (answers, holders b) \<and> count (holders b) p \<le> nat limit"
proof -
  have "spec_run (nat limit) xs {#} = (answers, holders b)"
    using bh.run_refines [OF _ assms(3)] NewBulkhead_ok [OF assms(1,2)] by simp
  moreover from this have "count (holders b) p \<le> nat limit"
    using spec_run_cap [of "{#}" "nat limit" xs p] by simp
  ultimately show ?thesis by simp
qed

theorem bulkhead_refines_witness:
  "\<exists>b. sem_run TryAcquire Release [Acquire ''a'', Acquire ''a'', Acquire ''b'', Finish ''a'', Acquire ''a''] (NewBulkhead 1) =
       ([True, False, True, True], b) \<and> holders b = {#''a'', ''b''#} \<and> count (holders b) ''a'' \<le> nat 1"
proof -
  let ?xs = "[Acquire ''a'', Acquire ''a'', Acquire ''b'', Finish ''a'', Acquire ''a'']"
  let ?b = "Some \<lparr>b_limit = 1, b_active = [(''a'', 1), (''b'', 1)]\<rparr>"
  have run: "sem_run TryAcquire Release ?xs (NewBulkhead 1) = ([True, False, True, True], ?b)"
    by code_simp
  have "spec_run (nat 1) ?xs {#} = ([True, False, True, True], {#''a'', ''b''#})" by (simp add: add_mset_commute)
  with bulkhead_refines [of 1 ?xs _ ?b "''a''", OF _ _ run] run show ?thesis by (auto simp: in_i64_iff)
qed

section \<open>The circuit breaker\<close>

lemma rnd_half: "rnd_rat (1 / 2) = 1 / 2"
  using rnd_rat_dyadic [of 1 "-1"] by (simp add: power_int_minus)

lemma rnd_above_half: "rnd_rat (1 / 2 + 1 / 2 ^ 53) = 1 / 2 + 1 / 2 ^ 53"
proof -
  have "(1 / 2 + 1 / 2 ^ 53 :: rat) = of_int (2 ^ 52 + 1) * 2 powi (-53)" by (simp add: power_int_minus field_simps)
  then show ?thesis using rnd_rat_dyadic [of "2 ^ 52 + 1" "-53"] by simp
qed

text \<open>A rounded quotient is above one half exactly if the quotient is.\<close>

lemma quotient_above_half:
  fixes f t :: int
  assumes "0 \<le> f" "0 < t" "t < 2 ^ 52"
  shows "1 / 2 < rnd_rat (of_int f / of_int t) \<longleftrightarrow> t < 2 * f"
proof
  assume "1 / 2 < rnd_rat (of_int f / of_int t)"
  then have "\<not> of_int f / of_int t \<le> (1 / 2 :: rat)"
    using rnd_rat_mono [of "of_int f / of_int t" "1 / 2"] rnd_half assms by fastforce
  with assms have "(of_int t :: rat) < of_int (2 * f)" by (simp add: field_simps)
  then show "t < 2 * f" by (simp only: of_int_less_iff)
next
  assume "t < 2 * f"
  then have "(of_int (t + 1) :: rat) \<le> of_int (2 * f)" by (simp only: of_int_le_iff)
  moreover have "(of_int t :: rat) < 2 ^ 52" using assms(3) by (metis of_int_less_iff of_int_numeral of_int_power)
  ultimately have "(1 / 2 + 1 / 2 ^ 53 :: rat) \<le> of_int f / of_int t" using assms(2) by (simp add: field_simps)
  with rnd_rat_mono [of "1 / 2 + 1 / 2 ^ 53" "of_int f / of_int t"] rnd_above_half
  show "1 / 2 < rnd_rat (of_int f / of_int t)" by (simp add: field_simps)
qed


lemma rnd_rat_ratio:
  fixes f t :: int
  assumes "0 \<le> f" "f \<le> t" "0 < t"
  shows "0 \<le> rnd_rat (of_int f / of_int t) \<and> rnd_rat (of_int f / of_int t) \<le> 1"
proof -
  have "(of_int f / of_int t :: rat) \<le> of_int 1" using assms by (simp add: field_simps)
  moreover have "rnd_rat (of_int 1) = 1" using rnd_rat_int [of 1] by simp
  ultimately show ?thesis
    using rnd_rat_mono [of "of_int f / of_int t" "of_int 1"] rnd_rat_nonneg [of "of_int f / of_int t"] assms by simp
qed

lemma rnd_small: "0 \<le> rnd_rat x \<Longrightarrow> rnd_rat x \<le> 1 \<Longrightarrow> rnd x = Fin (rnd_rat x)"
proof -
  assume r: "0 \<le> rnd_rat x" "rnd_rat x \<le> 1"
  define B where "B = (2 ^ 1024 :: rat)"
  have "1 < B" by (simp add: B_def)
  with r have "\<not> B \<le> rnd_rat x" "\<not> rnd_rat x \<le> - B" by linarith+
  then show ?thesis unfolding rnd_def Let_def B_def [symmetric] by simp
qed

lemma rnd_half_Fin: "rnd (1 / 2) = Fin (1 / 2)"
  using rnd_small [of "1 / 2"] rnd_half by simp

lemma rnd_quotient:
  fixes f t :: int
  assumes "0 \<le> f" "f \<le> t" "0 < t" "t < 2 ^ 52"
  shows "fdiv (float_of_int f) (float_of_int t) = Fin (rnd_rat (of_int f / of_int t))"
  using assms rnd_small rnd_rat_ratio [OF assms(1-3)] by simp

lemma Allow_half:
  assumes "cb_threshold cb = rnd (1 / 2)" "0 \<le> cb_failures cb" "0 \<le> cb_successes cb"
    and "cb_failures cb + cb_successes cb < 2 ^ 52"
  shows "Allow now1 now2 provider cb =
    (if now1 < cb_openUntil cb then (False, cb)
     else if 5 \<le> cb_failures cb + cb_successes cb \<and> cb_successes cb < cb_failures cb
     then (False, cb\<lparr>cb_openUntil := now2 + cb_cooldown cb, cb_failures := 0, cb_successes := 0\<rparr>)
     else (True, cb))"
proof -
  let ?f = "cb_failures cb" and ?t = "cb_failures cb + cb_successes cb"
  have t: "i64 ?t = ?t" using assms by (simp add: in_i64_iff)
  have "flt (rnd (1 / 2)) (fdiv (float_of_int ?f) (float_of_int ?t)) \<longleftrightarrow> ?t < 2 * ?f" if "0 < ?t"
    using that assms quotient_above_half [of ?f ?t] rnd_quotient [of ?f ?t] rnd_half_Fin by simp
  with t assms(1) show ?thesis by (auto simp: Allow_def Let_def)
qed

text \<open>
  C21. The decision of the breaker is exact in spite of its floating point: with the gateway's threshold
  of one half it refuses a request, outside a cooldown, exactly if at least five results are counted
  and more than half of them are failures; it then counts afresh and stays open for the cooldown.
\<close>

theorem Allow_exact:
  assumes "cb_threshold cb = rnd (1 / 2)" "0 \<le> cb_failures cb" "0 \<le> cb_successes cb"
    and "cb_failures cb + cb_successes cb < 2 ^ 52"
  shows "Allow now1 now2 provider cb =
    (if now1 < cb_openUntil cb then (False, cb)
     else if 5 \<le> cb_failures cb + cb_successes cb \<and> cb_successes cb < cb_failures cb
     then (False, cb\<lparr>cb_openUntil := now2 + cb_cooldown cb, cb_failures := 0, cb_successes := 0\<rparr>)
     else (True, cb))"
  using assms by (rule Allow_half)

theorem Allow_exact_witness:
  "Allow 100 101 ''p'' \<lparr>cb_failures = 3, cb_successes = 2, cb_openUntil = 0, cb_threshold = rnd (1 / 2), cb_cooldown = 30\<rparr> =
     (False, \<lparr>cb_failures = 0, cb_successes = 0, cb_openUntil = 131, cb_threshold = rnd (1 / 2), cb_cooldown = 30\<rparr>)"
  using Allow_exact [of "\<lparr>cb_failures = 3, cb_successes = 2, cb_openUntil = 0, cb_threshold = rnd (1 / 2), cb_cooldown = 30\<rparr>"
      100 101 "''p''"] by simp

text \<open>The counters after a few results.\<close>

lemma Record_fields [simp]:
  "cb_openUntil (Record r cb) = cb_openUntil cb" "cb_cooldown (Record r cb) = cb_cooldown cb"
  "cb_threshold (Record r cb) = cb_threshold cb"
  by (simp_all add: Record_def)

definition counts_upto :: "int \<Rightarrow> CircuitBreaker \<Rightarrow> bool" where
  "counts_upto n cb \<longleftrightarrow> 0 \<le> cb_failures cb \<and> 0 \<le> cb_successes cb \<and> cb_failures cb + cb_successes cb \<le> n"

lemma Record_counts: "counts_upto n cb \<Longrightarrow> n < 1000 \<Longrightarrow> counts_upto (n + 1) (Record r cb)"
  by (auto simp: counts_upto_def Record_def in_i64_iff)

lemma fold_Record:
  "counts_upto n cb \<Longrightarrow> n + int (length rs) < 1000 \<Longrightarrow>
     counts_upto (n + int (length rs)) (fold Record rs cb) \<and> cb_openUntil (fold Record rs cb) = cb_openUntil cb"
proof (induction rs arbitrary: n cb)
  case Nil
  then show ?case by simp
next
  case (Cons r rs)
  from Cons.IH [OF Record_counts [OF Cons.prems(1), of r]] Cons.prems(2) show ?case by (simp add: algebra_simps)
qed

lemma Allow_few: "counts_upto 4 cb \<Longrightarrow> fst (Allow now1 now2 provider cb) \<longleftrightarrow> cb_openUntil cb \<le> now1"
  by (auto simp: Allow_def counts_upto_def in_i64_iff)

text \<open>
  C20. A tripped breaker recovers.  When the breaker trips, whatever requests still in flight report (up
  to four of them), it refuses every request until the cooldown is over and admits the requests after
  it: it never stays open for good.
\<close>

theorem breaker_recovers:
  assumes "\<not> now1 < cb_openUntil cb" and "Allow now1 now2 provider cb = (False, cb')" and "length rs < 5"
  shows "fst (Allow later1 later2 provider' (fold Record rs cb')) \<longleftrightarrow> now2 + cb_cooldown cb \<le> later1"
proof -
  from assms(1,2) have cb': "counts_upto 0 cb'" "cb_openUntil cb' = now2 + cb_cooldown cb"
    by (auto simp: Allow_def Let_def counts_upto_def split: if_splits)
  with fold_Record [of 0 cb' rs] assms(3)
  have "counts_upto 4 (fold Record rs cb')" "cb_openUntil (fold Record rs cb') = now2 + cb_cooldown cb"
    by (auto simp: counts_upto_def)
  then show ?thesis by (simp add: Allow_few)
qed

theorem breaker_recovers_witness:
  "fst (Allow 131 132 ''q'' (fold Record [False, False]
     (snd (Allow 100 101 ''p'' \<lparr>cb_failures = 5, cb_successes = 0, cb_openUntil = 0, cb_threshold = rnd (1 / 2), cb_cooldown = 30\<rparr>))))"
proof -
  let ?cb = "\<lparr>cb_failures = 5, cb_successes = 0, cb_openUntil = 0, cb_threshold = rnd (1 / 2), cb_cooldown = 30\<rparr>"
  have "Allow 100 101 ''p'' ?cb = (False, ?cb\<lparr>cb_openUntil := 131, cb_failures := 0\<rparr>)"
    using Allow_half [of ?cb 100 101 "''p''"] by simp
  with breaker_recovers [of 100 ?cb 101 "''p''" _ "[False, False]" 131 132 "''q''"] show ?thesis by simp
qed

end
