(* ===== verification/Redis.thy ===== *)
theory Redis
  imports Models
begin

text \<open>
  The Redis server as the commands of the source see it, and the client of
  \<open>internal/redis/client.go\<close>.  The server keeps strings with an optional expiry, sorted sets with an
  optional expiry, and streams with consumer groups and their pending entries lists.  Strings, sorted
  sets and streams live in separate tables here; the key prefixes of the source never meet (see
  \<open>redis_keys_disjoint\<close>), so no command finds a key of another kind.  An entry identifier of a
  stream is a number: only the order of identifiers is used.
\<close>

section \<open>The server\<close>

record pending =
  pe_id :: nat
  pe_consumer :: string
  pe_time :: instant
  pe_count :: int

record rgroup =
  rg_last :: nat
  rg_pel :: "pending list"

record rstream =
  st_entries :: "(nat \<times> string gomap) list"
  st_last :: nat
  st_groups :: "rgroup gomap"

record redis =
  rd_kv :: "(string \<times> instant option) gomap"
  rd_zsets :: "((string \<times> int) list \<times> instant option) gomap"
  rd_streams :: "rstream gomap"
  rd_now :: instant
  rd_fates :: "fate list"

type_synonym 'a rcmd = "redis \<Rightarrow> 'a result \<times> redis"

definition rd_call :: "'a rcmd \<Rightarrow> 'a rcmd" where
  "rd_call q s =
     (let s1 = s\<lparr>rd_fates := tl (rd_fates s)\<rparr>
      in case fst (next_fate (rd_fates s)) of
           Answered \<Rightarrow> q s1
         | LostRequest \<Rightarrow> (Inl ErrConn, s1)
         | LostReply \<Rightarrow> (Inl ErrConn, snd (q s1)))"

definition alive :: "instant option \<Rightarrow> redis \<Rightarrow> bool" where
  "alive t s \<longleftrightarrow> (case t of None \<Rightarrow> True | Some e \<Rightarrow> rd_now s < e)"

text \<open>GET, SET and DEL.  A reply of nil is \<open>None\<close>.\<close>

definition kv_get :: "string \<Rightarrow> redis \<Rightarrow> string option" where
  "kv_get k s = (case mget (rd_kv s) k of None \<Rightarrow> None | Some (v, t) \<Rightarrow> if alive t s then Some v else None)"

definition kv_set :: "string \<Rightarrow> string \<Rightarrow> int \<Rightarrow> redis \<Rightarrow> redis" where
  "kv_set k v ttl s =
     s\<lparr>rd_kv := mset_at k (v, if ttl > 0 then Some (rd_now s + ttl) else None) (rd_kv s)\<rparr>"

definition kv_del :: "string \<Rightarrow> redis \<Rightarrow> redis" where
  "kv_del k s = s\<lparr>rd_kv := AList.delete k (rd_kv s)\<rparr>"

text \<open>Sorted sets: the live content of a key.\<close>

definition zset_of :: "string \<Rightarrow> redis \<Rightarrow> (string \<times> int) list" where
  "zset_of k s = (case mget (rd_zsets s) k of None \<Rightarrow> [] | Some (z, t) \<Rightarrow> if alive t s then z else [])"

text \<open>Streams: XADD writes scalars in their text form; it refuses other values.\<close>

fun xadd_arg :: "gval \<Rightarrow> string option" where
  "xadd_arg GNil = Some []"
| "xadd_arg (GStr v) = Some v"
| "xadd_arg (GBool b) = Some (if b then ''1'' else ''0'')"
| "xadd_arg (GInt n) = Some (show_int n)"
| "xadd_arg (GInt64 n) = Some (show_int n)"
| "xadd_arg _ = None"

definition xadd_fields :: "gmap \<Rightarrow> string gomap option" where
  "xadd_fields flds = seq_opt (map (\<lambda>(k, v). map_option (Pair k) (xadd_arg v)) flds)"

definition empty_stream :: rstream where
  "empty_stream = \<lparr>st_entries = [], st_last = 0, st_groups = []\<rparr>"

definition stream_of :: "string \<Rightarrow> redis \<Rightarrow> rstream" where
  "stream_of k s = (case mget (rd_streams s) k of None \<Rightarrow> empty_stream | Some x \<Rightarrow> x)"

definition set_stream :: "string \<Rightarrow> rstream \<Rightarrow> redis \<Rightarrow> redis" where
  "set_stream k x s = s\<lparr>rd_streams := mset_at k x (rd_streams s)\<rparr>"

definition xadd :: "string \<Rightarrow> gmap \<Rightarrow> unit rcmd" where
  "xadd k flds s =
     (case xadd_fields flds of
        None \<Rightarrow> (Inl (ErrMsg ''redis: cannot marshal value''), s)
      | Some fs \<Rightarrow>
          (let x = stream_of k s; i = Suc (st_last x)
           in (Inr (), set_stream k (x\<lparr>st_entries := st_entries x @ [(i, fs)], st_last := i\<rparr>) s)))"

text \<open>A delivered entry as the client library hands it over.\<close>

record XMessage =
  xm_ID :: nat
  xm_Values :: gmap

definition message_of :: "nat \<times> string gomap \<Rightarrow> XMessage" where
  "message_of e = \<lparr>xm_ID = fst e, xm_Values = map (map_prod id GStr) (snd e)\<rparr>"

definition group_of :: "string \<Rightarrow> rstream \<Rightarrow> rgroup option" where
  "group_of g x = mget (st_groups x) g"

definition set_group :: "string \<Rightarrow> rgroup \<Rightarrow> rstream \<Rightarrow> rstream" where
  "set_group g r x = x\<lparr>st_groups := mset_at g r (st_groups x)\<rparr>"

section \<open>client.go\<close>

definition MeterStreamKey :: string where "MeterStreamKey = ''meter:stream''"
definition MeterDLQKey :: string where "MeterDLQKey = ''meter:dlq''"

definition balanceKey :: "string \<Rightarrow> string" where "balanceKey userID = ''balance:'' @ userID"
definition holdKey :: "string \<Rightarrow> string" where "holdKey requestID = ''hold:'' @ requestID"
definition keyMetaKey :: "string \<Rightarrow> string" where "keyMetaKey hash = ''key:'' @ hash"
definition keyIDIndexKey :: "string \<Rightarrow> string" where "keyIDIndexKey keyID = ''keyid:'' @ keyID"
definition bucketKey :: "string \<Rightarrow> string" where "bucketKey userID = ''bucket:'' @ userID @ '':rpm''"
definition idemKey :: "string \<Rightarrow> string" where "idemKey key = ''idem:'' @ key"

text \<open>\<open>strconv.ParseInt(s, 10, 64)\<close>.\<close>

definition ParseInt :: "string \<Rightarrow> int option" where
  "ParseInt s =
     (let (neg, ds) =
        (case s of
           [] \<Rightarrow> (False, [])
         | c # t \<Rightarrow> if c = CHR ''-'' then (True, t) else if c = CHR ''+'' then (False, t) else (False, s));
          n = (if neg then - int (nat_of_digits ds) else int (nat_of_digits ds))
      in if ds \<noteq> [] \<and> list_all is_digit ds \<and> in_i64 n then Some n else None)"

definition second :: int where "second = 1000000"
definition day :: int where "day = 24 * 3600 * second"

definition rd_set :: "string \<Rightarrow> string \<Rightarrow> int \<Rightarrow> unit rcmd" where
  "rd_set k v ttl = rd_call (\<lambda>s. (Inr (), kv_set k v ttl s))"

definition rd_del :: "string \<Rightarrow> unit rcmd" where
  "rd_del k = rd_call (\<lambda>s. (Inr (), kv_del k s))"

definition rd_get :: "string \<Rightarrow> string option rcmd" where
  "rd_get k = rd_call (\<lambda>s. (Inr (kv_get k s), s))"

definition rd_get_int :: "string \<Rightarrow> int option rcmd" where
  "rd_get_int k =
     rd_call (\<lambda>s.
       case kv_get k s of
         None \<Rightarrow> (Inr None, s)
       | Some v \<Rightarrow> (case ParseInt v of Some n \<Rightarrow> (Inr (Some n), s) | None \<Rightarrow> (Inl (ErrInvalidText v), s)))"

definition SetBalance :: "string \<Rightarrow> int \<Rightarrow> unit rcmd" where
  "SetBalance userID micro = rd_set (balanceKey userID) (show_int micro) 0"

definition GetBalance :: "string \<Rightarrow> int option rcmd" where
  "GetBalance userID = rd_get_int (balanceKey userID)"

definition SetKeyMeta :: "string \<Rightarrow> string \<Rightarrow> unit rcmd" where
  "SetKeyMeta keyHash meta = rd_set (keyMetaKey keyHash) meta day"

definition DeleteKeyMeta :: "string \<Rightarrow> unit rcmd" where
  "DeleteKeyMeta keyHash = rd_del (keyMetaKey keyHash)"

definition SetKeyIDIndex :: "string \<Rightarrow> string \<Rightarrow> unit rcmd" where
  "SetKeyIDIndex keyID hmacHash = rd_set (keyIDIndexKey keyID) hmacHash day"

definition GetKeyIDIndex :: "string \<Rightarrow> string option rcmd" where
  "GetKeyIDIndex keyID = rd_get (keyIDIndexKey keyID)"

definition DeleteKeyIDIndex :: "string \<Rightarrow> unit rcmd" where
  "DeleteKeyIDIndex keyID = rd_del (keyIDIndexKey keyID)"

definition GetKeyMeta :: "string \<Rightarrow> string option rcmd" where
  "GetKeyMeta keyHash = rd_get (keyMetaKey keyHash)"

definition SetHold :: "string \<Rightarrow> int \<Rightarrow> int \<Rightarrow> unit rcmd" where
  "SetHold requestID micro ttl = rd_set (holdKey requestID) (show_int micro) ttl"

definition GetHold :: "string \<Rightarrow> int option rcmd" where
  "GetHold requestID = rd_get_int (holdKey requestID)"

definition DeleteHold :: "string \<Rightarrow> unit rcmd" where
  "DeleteHold requestID = rd_del (holdKey requestID)"

text \<open>
  The pipeline of \<open>AllowRate\<close>: drop the members with a score between 0 and \<open>now - 60\<close>, add the
  current second as member and score, count the members, renew the expiry.  \<open>now\<close> is the client's
  clock in seconds.
\<close>

definition zadd :: "string \<Rightarrow> int \<Rightarrow> (string \<times> int) list \<Rightarrow> (string \<times> int) list" where
  "zadd m score z = AList.update m score z"

definition rate_window :: "int \<Rightarrow> (string \<times> int) list \<Rightarrow> (string \<times> int) list" where
  "rate_window now z = zadd (show_int now) now (filter (\<lambda>(m, sc). \<not> (0 \<le> sc \<and> sc \<le> now - 60)) z)"

definition AllowRate :: "string \<Rightarrow> int \<Rightarrow> int \<Rightarrow> bool rcmd" where
  "AllowRate userID rpm now =
     rd_call (\<lambda>s.
       let key = bucketKey userID; z = rate_window now (zset_of key s)
       in (Inr (int (length z) \<le> rpm), s\<lparr>rd_zsets := mset_at key (z, Some (rd_now s + 120 * second)) (rd_zsets s)\<rparr>))"

definition EmitMeterEvent :: "gmap \<Rightarrow> unit rcmd" where
  "EmitMeterEvent flds = rd_call (xadd MeterStreamKey flds)"

definition CreateConsumerGroup :: "string \<Rightarrow> unit rcmd" where
  "CreateConsumerGroup grp =
     rd_call (\<lambda>s.
       let x = stream_of MeterStreamKey s
       in case group_of grp x of
            Some _ \<Rightarrow> (Inr (), s)
          | None \<Rightarrow> (Inr (), set_stream MeterStreamKey (set_group grp \<lparr>rg_last = 0, rg_pel = []\<rparr> x) s))"

text \<open>XREADGROUP with \<open>>\<close>: entries never delivered to the group; none in time is an error.\<close>

definition ReadMeterEvents :: "string \<Rightarrow> string \<Rightarrow> nat \<Rightarrow> XMessage list rcmd" where
  "ReadMeterEvents grp consumer count =
     rd_call (\<lambda>s.
       let x = stream_of MeterStreamKey s
       in case group_of grp x of
            None \<Rightarrow> (Inl (ErrMsg ''NOGROUP''), s)
          | Some g \<Rightarrow>
              (let es = take count (filter (\<lambda>e. rg_last g < fst e) (st_entries x))
               in if es = [] then (Inl (ErrMsg ''redis: nil''), s)
                  else (Inr (map message_of es),
                    set_stream MeterStreamKey (set_group grp
                      \<lparr>rg_last = fst (last es),
                       rg_pel = rg_pel g @ map (\<lambda>e. \<lparr>pe_id = fst e, pe_consumer = consumer,
                         pe_time = rd_now s, pe_count = 1\<rparr>) es\<rparr> x) s)))"

definition AckMeterEvent :: "string \<Rightarrow> nat \<Rightarrow> unit rcmd" where
  "AckMeterEvent grp i =
     rd_call (\<lambda>s.
       let x = stream_of MeterStreamKey s
       in case group_of grp x of
            None \<Rightarrow> (Inr (), s)
          | Some g \<Rightarrow>
              (Inr (), set_stream MeterStreamKey
                 (set_group grp (g\<lparr>rg_pel := filter (\<lambda>p. pe_id p \<noteq> i) (rg_pel g)\<rparr>) x) s))"

text \<open>XAUTOCLAIM: take over entries that have been pending for \<open>minIdle\<close>; an entry counts one more delivery.\<close>

definition claimable :: "int \<Rightarrow> redis \<Rightarrow> pending \<Rightarrow> bool" where
  "claimable minIdle s p \<longleftrightarrow> pe_time p + minIdle \<le> rd_now s"

definition claim :: "nat list \<Rightarrow> string \<Rightarrow> redis \<Rightarrow> pending \<Rightarrow> pending" where
  "claim ids consumer s p =
     (if pe_id p \<in> set ids
      then p\<lparr>pe_consumer := consumer, pe_time := rd_now s, pe_count := pe_count p + 1\<rparr> else p)"

definition AutoClaimMeterEvents :: "string \<Rightarrow> string \<Rightarrow> int \<Rightarrow> nat \<Rightarrow> XMessage list rcmd" where
  "AutoClaimMeterEvents grp consumer minIdle count =
     rd_call (\<lambda>s.
       let x = stream_of MeterStreamKey s
       in case group_of grp x of
            None \<Rightarrow> (Inl (ErrMsg ''NOGROUP''), s)
          | Some g \<Rightarrow>
              (let ids = take count (map pe_id (filter (claimable minIdle s) (rg_pel g)))
               in (Inr (map message_of (filter (\<lambda>e. fst e \<in> set ids) (st_entries x))),
                   set_stream MeterStreamKey
                     (set_group grp (g\<lparr>rg_pel := map (claim ids consumer s) (rg_pel g)\<rparr>) x) s)))"

definition ReadDLQ :: "nat \<Rightarrow> XMessage list rcmd" where
  "ReadDLQ count =
     rd_call (\<lambda>s.
       let es = take count (st_entries (stream_of MeterDLQKey s))
       in if es = [] then (Inl (ErrMsg ''redis: nil''), s) else (Inr (map message_of es), s))"

definition ReplayDLQEntry :: "gmap \<Rightarrow> unit rcmd" where
  "ReplayDLQEntry flds = EmitMeterEvent flds"

definition MessageDeliveries :: "string \<Rightarrow> nat \<Rightarrow> redis \<Rightarrow> int \<times> redis" where
  "MessageDeliveries grp i s0 =
     (case rd_call (\<lambda>s.
        let x = stream_of MeterStreamKey s
        in case group_of grp x of
             None \<Rightarrow> (Inl (ErrMsg ''NOGROUP''), s)
           | Some g \<Rightarrow> (Inr (find (\<lambda>p. pe_id p = i) (rg_pel g)), s)) s0 of
        (Inr (Some p), s1) \<Rightarrow> (pe_count p, s1)
      | (_, s1) \<Rightarrow> (1, s1))"

definition PushDLQ :: "gmap \<Rightarrow> unit rcmd" where
  "PushDLQ flds = rd_call (xadd MeterDLQKey flds)"

definition SetIdempotency :: "string \<Rightarrow> string \<Rightarrow> int \<Rightarrow> unit rcmd" where
  "SetIdempotency key v ttl = rd_set (idemKey key) v ttl"

definition GetIdempotency :: "string \<Rightarrow> string option rcmd" where
  "GetIdempotency key = rd_get (idemKey key)"

section \<open>Keys and values\<close>

lemma ParseInt_show_int [simp]: "in_i64 n \<Longrightarrow> ParseInt (show_int n) = Some n"
proof (cases "n < 0")
  case True
  then show "in_i64 n \<Longrightarrow> ?thesis" by (simp add: ParseInt_def show_int_def)
next
  case False
  obtain c t where s: "show_nat (nat n) = c # t" by (cases "show_nat (nat n)") simp_all
  have "is_digit c" using show_nat_hd [OF s] .
  then have "c \<noteq> CHR ''-''" "c \<noteq> CHR ''+''" by auto
  moreover have "int (nat_of_digits (c # t)) = n" "list_all is_digit (c # t)"
    using False nat_of_digits_show_nat [of "nat n"] show_nat_digits [of "nat n"] unfolding s by simp_all
  ultimately show "in_i64 n \<Longrightarrow> ?thesis" using False by (simp add: ParseInt_def show_int_def s)
qed

lemmas key_defs = balanceKey_def holdKey_def keyMetaKey_def keyIDIndexKey_def bucketKey_def idemKey_def
  MeterStreamKey_def MeterDLQKey_def

lemma mget_delete: "map_of (AList.delete k m) k' = (if k' = k then None else map_of m k')"
  by (simp add: AList.delete_conv')

lemma kv_get_set: "kv_get k' (kv_set k v ttl s) = (if k' = k then Some v else kv_get k' s)"
  by (simp add: kv_get_def kv_set_def alive_def update_conv' split: option.split)

lemma rd_fates_kv_set [simp]: "rd_fates (kv_set k v ttl s) = rd_fates s"
  by (simp add: kv_set_def)

lemma kv_get_fates [simp]: "kv_get k (s\<lparr>rd_fates := fs\<rparr>) = kv_get k s"
  by (simp add: kv_get_def alive_def split: option.split)

lemma kv_get_del: "kv_get k' (kv_del k s) = (if k' = k then None else kv_get k' s)"
  by (simp add: kv_get_def kv_del_def alive_def mget_delete split: option.split)

text \<open>
  What the gateway's caches rely on: a store of strings in which a key reads back what was last
  written to it until it expires or is deleted, and writing one key leaves the others alone.
\<close>

locale kv_store =
  fixes get :: "string \<Rightarrow> 's \<Rightarrow> string option"
    and put :: "string \<Rightarrow> string \<Rightarrow> int \<Rightarrow> 's \<Rightarrow> 's"
    and del :: "string \<Rightarrow> 's \<Rightarrow> 's"
  assumes get_put: "get k' (put k v ttl s) = (if k' = k then Some v else get k' s)"
    and get_del: "get k' (del k s) = (if k' = k then None else get k' s)"
begin

lemma put_put_commute: "k \<noteq> k' \<Longrightarrow> get j (put k v t (put k' v' t' s)) = get j (put k' v' t' (put k v t s))"
  by (simp add: get_put)

lemma put_overwrites: "get j (put k v t (put k v' t' s)) = get j (put k v t s)"
  by (simp add: get_put)

lemma del_put: "get j (del k (put k v t s)) = get j (del k s)"
  by (simp add: get_put get_del)

lemma family_put: "inj f \<Longrightarrow> get (f a) (put (f b) v t s) = (if a = b then Some v else get (f a) s)"
  by (auto simp: get_put inj_eq)

end

interpretation rkv: kv_store kv_get kv_set kv_del
  by unfold_locales (simp_all add: kv_get_set kv_get_del)

lemma balanceKey_inj [simp]: "inj balanceKey" and holdKey_inj [simp]: "inj holdKey"
  and keyMetaKey_inj [simp]: "inj keyMetaKey" and keyIDIndexKey_inj [simp]: "inj keyIDIndexKey"
  and bucketKey_inj [simp]: "inj bucketKey" and idemKey_inj [simp]: "inj idemKey"
  by (simp_all add: inj_def key_defs)

fun apart :: "'a set list \<Rightarrow> bool" where
  "apart [] = True"
| "apart (A # As) = (list_all (\<lambda>B. A \<inter> B = {}) As \<and> apart As)"

text \<open>
  The key families of the gateway never collide: each of the six key functions is injective, no
  two of them ever give the same key, and none gives the name of one of the two streams.  In
  particular the rate limiter's sorted sets, the streams and the cached strings are never mixed up.
\<close>

theorem redis_keys_disjoint:
  "inj balanceKey \<and> inj holdKey \<and> inj keyMetaKey \<and> inj keyIDIndexKey \<and> inj bucketKey \<and> inj idemKey \<and>
   apart [range balanceKey, range holdKey, range keyMetaKey, range keyIDIndexKey, range bucketKey,
     range idemKey, {MeterStreamKey}, {MeterDLQKey}]"
  by (auto simp: inj_def key_defs)

fun int_reply :: "string option \<Rightarrow> int option result" where
  "int_reply None = Inr None"
| "int_reply (Some v) = (case ParseInt v of Some n \<Rightarrow> Inr (Some n) | None \<Rightarrow> Inl (ErrInvalidText v))"

lemma rd_get_int_answered: "rd_fates s = [] \<Longrightarrow> fst (rd_get_int k s) = int_reply (kv_get k s)"
  by (cases "kv_get k s") (simp_all add: rd_get_int_def rd_call_def Let_def split: option.split)

lemma rd_set_answered: "rd_fates s = [] \<Longrightarrow> rd_set k v ttl s = (Inr (), kv_set k v ttl (s\<lparr>rd_fates := []\<rparr>))"
  by (simp add: rd_set_def rd_call_def)

text \<open>
  Cached balances and holds read back exactly: after a successful \<open>SetBalance\<close> or \<open>SetHold\<close> of a
  64-bit amount, the matching read returns that amount for the same identifier, and every other
  identifier reads as before.
\<close>

theorem cached_amount_roundtrip:
  assumes "in_i64 micro" and "rd_fates s = []"
  shows "fst (GetBalance v (snd (SetBalance u micro s))) =
        (if v = u then Inr (Some micro) else fst (GetBalance v s)) \<and>
      fst (GetHold v (snd (SetHold u micro ttl s))) =
        (if v = u then Inr (Some micro) else fst (GetHold v s))"
  using assms
  by (simp add: GetBalance_def SetBalance_def GetHold_def SetHold_def rd_get_int_answered rd_set_answered
      rkv.family_put)

definition empty_redis :: redis where
  "empty_redis = \<lparr>rd_kv = [], rd_zsets = [], rd_streams = [], rd_now = 0, rd_fates = []\<rparr>"

theorem cached_amount_roundtrip_witness:
  "fst (GetBalance ''u1'' (snd (SetBalance ''u1'' (-5) empty_redis))) = Inr (Some (-5))"
  using cached_amount_roundtrip [of "-5" empty_redis "''u1''" "''u1''" 0]
  by (simp add: in_i64_iff empty_redis_def)

section \<open>The rate limiter\<close>

definition bucket_ok :: "int \<Rightarrow> (string \<times> int) list \<Rightarrow> bool" where
  "bucket_ok now z \<longleftrightarrow>
     distinct (map fst z) \<and> (\<forall>(m, sc) \<in> set z. m = show_int sc \<and> 0 \<le> sc \<and> sc \<le> now)"

lemma bucket_ok_later: "bucket_ok now z \<Longrightarrow> now \<le> now' \<Longrightarrow> bucket_ok now' z"
  by (fastforce simp: bucket_ok_def)

lemma bucket_ok_Nil [simp]: "bucket_ok now []"
  by (simp add: bucket_ok_def)

lemma bucket_card:
  assumes "bucket_ok now z"
  shows "length z = card (snd ` set z)"
proof -
  have "fst e = show_int (snd e)" if "e \<in> set z" for e
    using assms that by (cases e) (auto simp: bucket_ok_def)
  then have "inj_on snd (set z)"
    by (intro inj_onI) (simp add: prod_eq_iff)
  moreover have "distinct z" using assms by (auto simp: bucket_ok_def distinct_map)
  ultimately show ?thesis by (simp add: card_image distinct_card)
qed

lemma update_set:
  "distinct (map fst z) \<Longrightarrow> set (AList.update k v z) = insert (k, v) {e \<in> set z. fst e \<noteq> k}"
  by (induction z) force+

lemma rate_window_ok:
  assumes "bucket_ok now z" "0 \<le> now"
  shows "bucket_ok now (rate_window now z)"
    and "snd ` set (rate_window now z) = insert now {sc \<in> snd ` set z. now - 60 < sc}"
proof -
  let ?f = "filter (\<lambda>(m, sc). \<not> (0 \<le> sc \<and> sc \<le> now - 60)) z"
  have d: "distinct (map fst ?f)" using assms by (simp add: bucket_ok_def distinct_map_filter)
  have set: "set (rate_window now z) = insert (show_int now, now) {e \<in> set ?f. fst e \<noteq> show_int now}"
    unfolding rate_window_def zadd_def using update_set [OF d] .
  have m: "fst e = show_int (snd e) \<and> 0 \<le> snd e \<and> snd e \<le> now" if "e \<in> set z" for e
    using assms that by (cases e) (auto simp: bucket_ok_def)
  have "distinct (map fst (rate_window now z))"
    unfolding rate_window_def zadd_def using distinct_update [OF d] .
  with set m assms(2) show "bucket_ok now (rate_window now z)" by (auto simp: bucket_ok_def)
  show "snd ` set (rate_window now z) = insert now {sc \<in> snd ` set z. now - 60 < sc}"
  proof (intro set_eqI iffI)
    fix sc assume "sc \<in> snd ` set (rate_window now z)"
    then show "sc \<in> insert now {sc \<in> snd ` set z. now - 60 < sc}" using set m by auto
  next
    fix sc assume "sc \<in> insert now {sc \<in> snd ` set z. now - 60 < sc}"
    then consider "sc = now" | e where "e \<in> set z" "snd e = sc" "now - 60 < sc" "sc \<noteq> now" by auto
    then show "sc \<in> snd ` set (rate_window now z)"
    proof cases
      case 1
      then show ?thesis using set by force
    next
      case (2 e)
      then have "e \<in> set ?f" by (cases e) auto
      show ?thesis
      proof (cases "fst e = show_int now")
        case True
        with m [OF 2(1)] have "snd e = now" using show_int_inj by metis
        with 2 show ?thesis by simp
      next
        case False
        with 2 \<open>e \<in> set ?f\<close> set show ?thesis by force
      qed
    qed
  qed
qed

text \<open>The seconds of the last minute in which the bucket has seen a request, this one included.\<close>

definition recent_seconds :: "int \<Rightarrow> (string \<times> int) list \<Rightarrow> int set" where
  "recent_seconds now z = insert now {sc \<in> snd ` set z. now - 60 < sc}"

lemma rate_window_length:
  assumes "bucket_ok now z" "0 \<le> now"
  shows "length (rate_window now z) = card (recent_seconds now z)"
  using bucket_card [OF rate_window_ok(1) [OF assms]] rate_window_ok(2) [OF assms]
  by (simp add: recent_seconds_def)

lemma recent_seconds_le_60:
  assumes "bucket_ok now z"
  shows "card (recent_seconds now z) \<le> 60"
proof -
  have "snd e \<le> now" if "e \<in> set z" for e using assms that by (cases e) (auto simp: bucket_ok_def)
  then have "recent_seconds now z \<subseteq> {now - 59..now}" by (auto simp: recent_seconds_def)
  then have "card (recent_seconds now z) \<le> card {now - 59..now}" by (intro card_mono) simp_all
  then show ?thesis by simp
qed

lemma zset_of_fates [simp]: "zset_of k (s\<lparr>rd_fates := fs\<rparr>) = zset_of k s"
  by (simp add: zset_of_def alive_def split: option.split)

lemma zset_of_update:
  "0 < e \<Longrightarrow> zset_of k (s\<lparr>rd_zsets := mset_at k (z, Some (rd_now s + e)) (rd_zsets s)\<rparr>) = z"
  by (simp add: zset_of_def alive_def update_conv')

lemma AllowRate_answered:
  assumes "rd_fates s = []" "bucket_ok now (zset_of (bucketKey u) s)" "0 \<le> now"
  shows "fst (AllowRate u rpm now s) = Inr (int (card (recent_seconds now (zset_of (bucketKey u) s))) \<le> rpm)"
    and "zset_of (bucketKey u) (snd (AllowRate u rpm now s)) = rate_window now (zset_of (bucketKey u) s)"
    and "rd_fates (snd (AllowRate u rpm now s)) = []"
proof -
  show "fst (AllowRate u rpm now s) = Inr (int (card (recent_seconds now (zset_of (bucketKey u) s))) \<le> rpm)"
    using assms by (simp add: AllowRate_def rd_call_def Let_def rate_window_length)
  show "zset_of (bucketKey u) (snd (AllowRate u rpm now s)) = rate_window now (zset_of (bucketKey u) s)"
    using assms(1) zset_of_update [where s = "s\<lparr>rd_fates := []\<rparr>" and e = "120 * second"]
    by (simp add: AllowRate_def rd_call_def Let_def second_def)
  show "rd_fates (snd (AllowRate u rpm now s)) = []"
    using assms(1) by (simp add: AllowRate_def rd_call_def Let_def)
qed

text \<open>
  C39. What the rate limiter counts.  The bucket holds one member per second, so a request is allowed
  exactly when the number of distinct seconds of the last minute that saw a request, this one included,
  is at most the configured limit; how many requests fall into one second does not matter.
\<close>

theorem AllowRate_counts_seconds:
  assumes "rd_fates s = []" and "bucket_ok now (zset_of (bucketKey u) s)" and "0 \<le> now"
  shows "fst (AllowRate u rpm now s) = Inr (int (card (recent_seconds now (zset_of (bucketKey u) s))) \<le> rpm) \<and>
    bucket_ok now (zset_of (bucketKey u) (snd (AllowRate u rpm now s)))"
  using AllowRate_answered [OF assms] rate_window_ok [OF assms(2,3)] by simp

theorem AllowRate_counts_seconds_witness:
  "fst (AllowRate ''u'' 1 100 empty_redis) = Inr True"
  using AllowRate_counts_seconds [of empty_redis 100 "''u''" 1]
  by (simp add: empty_redis_def zset_of_def recent_seconds_def)

text \<open>Calls one after the other, each at a time of the client's clock and of the server's.\<close>

fun rate_run :: "string \<Rightarrow> int \<Rightarrow> (int \<times> instant) list \<Rightarrow> redis \<Rightarrow> bool result list" where
  "rate_run u rpm [] s = []"
| "rate_run u rpm ((now, clock) # ts) s =
     (let (r, s1) = AllowRate u rpm now (s\<lparr>rd_now := clock\<rparr>) in r # rate_run u rpm ts s1)"

definition stored_bucket :: "string \<Rightarrow> redis \<Rightarrow> (string \<times> int) list" where
  "stored_bucket u s = (case mget (rd_zsets s) (bucketKey u) of None \<Rightarrow> [] | Some (z, t) \<Rightarrow> z)"

lemma stored_bucket_live:
  "bucket_ok now (stored_bucket u s) \<Longrightarrow> bucket_ok now (zset_of (bucketKey u) (s\<lparr>rd_now := c\<rparr>))"
  by (auto simp: stored_bucket_def zset_of_def split: option.splits)

lemma AllowRate_stored:
  "rd_fates s = [] \<Longrightarrow>
     stored_bucket u (snd (AllowRate u rpm now s)) = rate_window now (zset_of (bucketKey u) s)"
  by (simp add: AllowRate_def rd_call_def Let_def stored_bucket_def update_conv')

lemma rate_run_allows:
  assumes "60 \<le> rpm"
  shows "rd_fates s = [] \<Longrightarrow> bucket_ok t0 (stored_bucket u s) \<Longrightarrow> 0 \<le> t0 \<Longrightarrow>
    sorted (t0 # map fst ts) \<Longrightarrow> set (rate_run u rpm ts s) \<subseteq> {Inr True}"
proof (induction ts arbitrary: s t0)
  case Nil
  then show ?case by simp
next
  case (Cons e ts)
  obtain now clock where e: "e = (now, clock)" by (cases e)
  let ?s = "s\<lparr>rd_now := clock\<rparr>"
  from Cons.prems e have now: "t0 \<le> now" "0 \<le> now" and f: "rd_fates ?s = []" by auto
  have ok: "bucket_ok now (zset_of (bucketKey u) ?s)"
    using stored_bucket_live [OF bucket_ok_later [OF Cons.prems(2) now(1)]] .
  obtain r s1 where call: "AllowRate u rpm now ?s = (r, s1)" by (cases "AllowRate u rpm now ?s")
  note ans = AllowRate_answered [OF f ok now(2), of rpm, unfolded call] AllowRate_stored [OF f, of u rpm now, unfolded call]
  have "r = Inr True" using ans(1) recent_seconds_le_60 [OF ok] assms by simp
  moreover have "set (rate_run u rpm ts s1) \<subseteq> {Inr True}"
    using Cons.IH [of s1 now] ans rate_window_ok(1) [OF ok now(2)] Cons.prems(4) e now by simp
  ultimately show ?case using call by (simp add: e)
qed

text \<open>
  A limit of sixty or more never limits: whatever the number of requests and however close
  together they come, from a fresh bucket every answered check of a key with at least sixty requests
  per minute says yes.  The administrator's default is 120.
\<close>

theorem AllowRate_never_limits:
  assumes "60 \<le> rpm" and "sorted (map fst ts)" and "\<forall>t \<in> set ts. 0 \<le> fst t"
    and "rd_fates s = []" and "stored_bucket u s = []"
  shows "set (rate_run u rpm ts s) \<subseteq> {Inr True}"
  using rate_run_allows [OF assms(1), of s 0 u ts] assms by simp

theorem AllowRate_never_limits_witness:
  "set (rate_run ''u'' 120 (replicate 1000 (7, 7)) empty_redis) \<subseteq> {Inr True}"
  by (rule AllowRate_never_limits) (simp_all add: empty_redis_def stored_bucket_def)

end
