(* ===== verification/Http.thy ===== *)
theory Http
  imports Store Registry Stream_Meter Resilience Runtime
begin

text \<open>
  The HTTP side of the gateway: header maps, the response writer of \<open>net/http\<close> with the recorder that
  \<open>internal/gateway/idempotency.go\<close> wraps around it, requests with the values that
  \<open>internal/gateway/context.go\<close> keeps in their context, and the state that the handlers of one request
  share.  Handlers are functions on this state; a handler may panic (the server then drops the
  connection) or wait for ever on an answer that never ends.
\<close>

section \<open>Headers\<close>

type_synonym header = "string list gomap"

definition is_token_char :: "char \<Rightarrow> bool" where
  "is_token_char c \<longleftrightarrow>
     (let n = (of_char c :: nat)
      in 48 \<le> n \<and> n \<le> 57 \<or> 65 \<le> n \<and> n \<le> 90 \<or> 97 \<le> n \<and> n \<le> 122 \<or> c \<in> set ''!#$%&*+-.^_`|~'' \<or> n = 39)"

definition upper_char :: "char \<Rightarrow> char" where
  "upper_char c =
     (if 97 \<le> (of_char c :: nat) \<and> (of_char c :: nat) \<le> 122
      then char_of ((of_char c :: nat) - 32) else c)"

fun canon :: "bool \<Rightarrow> string \<Rightarrow> string" where
  "canon up [] = []"
| "canon up (c # s) = (if up then upper_char c else lower_char c) # canon (c = CHR ''-'') s"

text \<open>\<open>textproto.CanonicalMIMEHeaderKey\<close>: a key with a byte that is no token byte stays as it is.\<close>

definition CanonicalHeaderKey :: "string \<Rightarrow> string" where
  "CanonicalHeaderKey k = (if list_all is_token_char k then canon True k else k)"

definition header_Get :: "header \<Rightarrow> string \<Rightarrow> string" where
  "header_Get h k = (case mget h (CanonicalHeaderKey k) of Some (v # _) \<Rightarrow> v | _ \<Rightarrow> [])"

definition header_Set :: "string \<Rightarrow> string \<Rightarrow> header \<Rightarrow> header" where
  "header_Set k v h = mset_at (CanonicalHeaderKey k) [v] h"

definition header_Add :: "string \<Rightarrow> string \<Rightarrow> header \<Rightarrow> header" where
  "header_Add k v h =
     (let c = CanonicalHeaderKey k
      in mset_at c ((case mget h c of None \<Rightarrow> [] | Some vs \<Rightarrow> vs) @ [v]) h)"

text \<open>The loops \<open>for k, vals := range h { if len(vals) > 0 { m[k] = vals[0] } }\<close>.\<close>

fun first_values :: "string gomap \<Rightarrow> header \<Rightarrow> string gomap" where
  "first_values m [] = m"
| "first_values m ((k, vs) # h) = first_values (case vs of [] \<Rightarrow> m | v # _ \<Rightarrow> mset_at k v m) h"

section \<open>The response writer\<close>

text \<open>
  \<open>rw_header\<close> is the map a handler fills, \<open>rw_sent\<close> the status and the headers on the wire, fixed by the
  first \<open>WriteHeader\<close>, \<open>rw_body\<close> the body on the wire.  \<open>rw_rec\<close> is the idempotency recorder, if the
  request runs under one.
\<close>

record idempotencyRecorder =
  ir_body :: string
  ir_status :: int
  ir_headers :: "string gomap"

record rwriter =
  rw_header :: header
  rw_sent :: "(int \<times> header) option"
  rw_body :: string
  rw_rec :: "idempotencyRecorder option"

definition new_writer :: rwriter where
  "new_writer = \<lparr>rw_header = [], rw_sent = None, rw_body = [], rw_rec = None\<rparr>"

text \<open>
  \<open>w.Header()\<close>: the recorder copies the headers that are set at that moment.
\<close>

definition rw_Header :: "rwriter \<Rightarrow> rwriter" where
  "rw_Header w =
     w\<lparr>rw_rec := map_option (\<lambda>r. r\<lparr>ir_headers := first_values (ir_headers r) (rw_header w)\<rparr>) (rw_rec w)\<rparr>"

definition rw_Set :: "string \<Rightarrow> string \<Rightarrow> rwriter \<Rightarrow> rwriter" where
  "rw_Set k v w = (let w1 = rw_Header w in w1\<lparr>rw_header := header_Set k v (rw_header w1)\<rparr>)"

definition rw_Add :: "string \<Rightarrow> string \<Rightarrow> rwriter \<Rightarrow> rwriter" where
  "rw_Add k v w = (let w1 = rw_Header w in w1\<lparr>rw_header := header_Add k v (rw_header w1)\<rparr>)"

definition server_WriteHeader :: "int \<Rightarrow> rwriter \<Rightarrow> rwriter" where
  "server_WriteHeader code w = (if rw_sent w = None then w\<lparr>rw_sent := Some (code, rw_header w)\<rparr> else w)"

definition rw_WriteHeader :: "int \<Rightarrow> rwriter \<Rightarrow> rwriter" where
  "rw_WriteHeader code w =
     server_WriteHeader code (w\<lparr>rw_rec := map_option (\<lambda>r. r\<lparr>ir_status := code\<rparr>) (rw_rec w)\<rparr>)"

text \<open>A status line of three digits; the server panics on any other code.\<close>

definition valid_code :: "int \<Rightarrow> bool" where
  "valid_code code \<longleftrightarrow> 100 \<le> code \<and> code \<le> 999"

definition body_allowed :: "int \<Rightarrow> bool" where
  "body_allowed code \<longleftrightarrow> \<not> (100 \<le> code \<and> code \<le> 199) \<and> code \<noteq> 204 \<and> code \<noteq> 304"

definition rw_Write :: "string \<Rightarrow> rwriter \<Rightarrow> rwriter" where
  "rw_Write b w =
     (let w1 = server_WriteHeader 200 (w\<lparr>rw_rec := map_option (\<lambda>r. r\<lparr>ir_body := ir_body r @ b\<rparr>) (rw_rec w)\<rparr>)
      in case rw_sent w1 of
           Some (code, _) \<Rightarrow> if body_allowed code then w1\<lparr>rw_body := rw_body w1 @ b\<rparr> else w1
         | None \<Rightarrow> w1)"

text \<open>\<open>writeJSON\<close> of \<open>middleware.go\<close> and \<open>writeErr\<close> of \<open>handler.go\<close> on a map of strings.\<close>

definition json_line :: "string gomap \<Rightarrow> string" where
  "json_line v = marshal (GMap (map (map_prod id GStr) v)) @ [newline]"

definition writeJSON :: "int \<Rightarrow> string gomap \<Rightarrow> rwriter \<Rightarrow> rwriter" where
  "writeJSON code v w =
     rw_Write (json_line v) (rw_WriteHeader code (rw_Set ''Content-Type'' ''application/json'' w))"

definition writeErr :: "int \<Rightarrow> string \<Rightarrow> rwriter \<Rightarrow> rwriter" where
  "writeErr code msg w =
     rw_Write (json_line [(''error'', msg)]) (rw_WriteHeader code (rw_Set ''Content-Type'' ''application/json'' w))"

definition http_Error :: "string \<Rightarrow> int \<Rightarrow> rwriter \<Rightarrow> rwriter" where
  "http_Error msg code w =
     rw_Write (msg @ [newline]) (rw_WriteHeader code
       (rw_Set ''X-Content-Type-Options'' ''nosniff'' (rw_Set ''Content-Type'' ''text/plain; charset=utf-8'' w)))"

section \<open>context.go\<close>

text \<open>A key that was never set is \<open>None\<close>.\<close>

record ctx =
  ctxRequestID :: "uuid option"
  ctxUserID :: "uuid option"
  ctxKeyID :: "uuid option"
  ctxKey :: "QuarkGateKey option"
  ctxRoute :: "RouteMatch option"
  ctxHoldMicro :: "int option"
  ctxTraceID :: "string option"
  ctxEnvelope :: "QuarkGateEnvelope option"
  ctxDownstream :: "DownstreamRequest option"
  ctxIdempotencyKey :: "string option"
  ctxProviderCredential :: "string option"
  ctxProviderBaseURL :: "string option"

definition Background :: ctx where
  "Background = \<lparr>ctxRequestID = None, ctxUserID = None, ctxKeyID = None, ctxKey = None, ctxRoute = None,
     ctxHoldMicro = None, ctxTraceID = None, ctxEnvelope = None, ctxDownstream = None,
     ctxIdempotencyKey = None, ctxProviderCredential = None, ctxProviderBaseURL = None\<rparr>"

definition or_zero :: "'a \<Rightarrow> 'a option \<Rightarrow> 'a" where
  "or_zero z v = (case v of None \<Rightarrow> z | Some x \<Rightarrow> x)"

definition WithRequestID :: "uuid \<Rightarrow> ctx \<Rightarrow> ctx" where "WithRequestID v c = c\<lparr>ctxRequestID := Some v\<rparr>"
definition RequestID :: "ctx \<Rightarrow> uuid" where "RequestID c = or_zero uuid_Nil (ctxRequestID c)"
definition WithUserID :: "uuid \<Rightarrow> ctx \<Rightarrow> ctx" where "WithUserID v c = c\<lparr>ctxUserID := Some v\<rparr>"
definition UserID :: "ctx \<Rightarrow> uuid" where "UserID c = or_zero uuid_Nil (ctxUserID c)"
definition WithKeyID :: "uuid \<Rightarrow> ctx \<Rightarrow> ctx" where "WithKeyID v c = c\<lparr>ctxKeyID := Some v\<rparr>"
definition KeyID :: "ctx \<Rightarrow> uuid" where "KeyID c = or_zero uuid_Nil (ctxKeyID c)"
definition WithKey :: "QuarkGateKey \<Rightarrow> ctx \<Rightarrow> ctx" where "WithKey v c = c\<lparr>ctxKey := Some v\<rparr>"
definition Key :: "ctx \<Rightarrow> QuarkGateKey option" where "Key c = ctxKey c"
definition WithRoute :: "RouteMatch \<Rightarrow> ctx \<Rightarrow> ctx" where "WithRoute v c = c\<lparr>ctxRoute := Some v\<rparr>"
definition Route :: "ctx \<Rightarrow> RouteMatch option" where "Route c = ctxRoute c"
definition WithHoldMicro :: "int \<Rightarrow> ctx \<Rightarrow> ctx" where "WithHoldMicro v c = c\<lparr>ctxHoldMicro := Some v\<rparr>"
definition HoldMicro :: "ctx \<Rightarrow> int" where "HoldMicro c = or_zero 0 (ctxHoldMicro c)"
definition WithTraceID :: "string \<Rightarrow> ctx \<Rightarrow> ctx" where "WithTraceID v c = c\<lparr>ctxTraceID := Some v\<rparr>"
definition TraceID :: "ctx \<Rightarrow> string" where "TraceID c = or_zero [] (ctxTraceID c)"
definition WithEnvelope :: "QuarkGateEnvelope \<Rightarrow> ctx \<Rightarrow> ctx" where "WithEnvelope v c = c\<lparr>ctxEnvelope := Some v\<rparr>"
definition Envelope :: "ctx \<Rightarrow> QuarkGateEnvelope option" where "Envelope c = ctxEnvelope c"
definition WithDownstream :: "DownstreamRequest \<Rightarrow> ctx \<Rightarrow> ctx" where "WithDownstream v c = c\<lparr>ctxDownstream := Some v\<rparr>"
definition Downstream :: "ctx \<Rightarrow> DownstreamRequest option" where "Downstream c = ctxDownstream c"
definition WithIdempotencyKey :: "string \<Rightarrow> ctx \<Rightarrow> ctx" where "WithIdempotencyKey v c = c\<lparr>ctxIdempotencyKey := Some v\<rparr>"
definition IdempotencyKey :: "ctx \<Rightarrow> string" where "IdempotencyKey c = or_zero [] (ctxIdempotencyKey c)"
definition WithProviderCredential :: "string \<Rightarrow> ctx \<Rightarrow> ctx" where "WithProviderCredential v c = c\<lparr>ctxProviderCredential := Some v\<rparr>"
definition ProviderCredential :: "ctx \<Rightarrow> string" where "ProviderCredential c = or_zero [] (ctxProviderCredential c)"
definition WithProviderBaseURL :: "string \<Rightarrow> ctx \<Rightarrow> ctx" where "WithProviderBaseURL v c = c\<lparr>ctxProviderBaseURL := Some v\<rparr>"
definition ProviderBaseURL :: "ctx \<Rightarrow> string" where "ProviderBaseURL c = or_zero [] (ctxProviderBaseURL c)"

lemmas context_defs = WithRequestID_def RequestID_def WithUserID_def UserID_def WithKeyID_def KeyID_def WithKey_def
  Key_def WithRoute_def Route_def WithHoldMicro_def HoldMicro_def WithTraceID_def TraceID_def WithEnvelope_def
  Envelope_def WithDownstream_def Downstream_def WithIdempotencyKey_def IdempotencyKey_def
  WithProviderCredential_def ProviderCredential_def WithProviderBaseURL_def ProviderBaseURL_def or_zero_def

section \<open>Requests and handlers\<close>

text \<open>A request whose body cannot be read to its end has the error in the place of the body.\<close>

record Request =
  rq_Method :: string
  rq_Path :: string
  rq_Header :: header
  rq_Body :: "string result"
  rq_ctx :: ctx

definition WithContext :: "Request \<Rightarrow> ctx \<Rightarrow> Request" where
  "WithContext r c = r\<lparr>rq_ctx := c\<rparr>"

text \<open>
  The state a handler works on: the two servers, the counters, the response, the proxy's guards, the
  identifiers \<open>uuid.New\<close> will return and the readings of the clock (nanoseconds) to come.
\<close>

record gw =
  gw_pg :: pg
  gw_rd :: redis
  gw_metrics :: metrics
  gw_w :: rwriter
  gw_active :: int
  gw_bulkhead :: "Bulkhead option"
  gw_breaker :: "CircuitBreaker option"
  gw_uuids :: "uuid list"
  gw_clock :: "instant list"

datatype outcome = Served | Panicked string | Hung

type_synonym handler = "Request \<Rightarrow> gw \<Rightarrow> outcome \<times> gw"

definition time_Now :: "gw \<Rightarrow> instant \<times> gw" where
  "time_Now st = (case gw_clock st of [] \<Rightarrow> (0, st) | t # ts \<Rightarrow> (t, st\<lparr>gw_clock := ts\<rparr>))"

definition uuid_New :: "gw \<Rightarrow> uuid \<times> gw" where
  "uuid_New st = (case next_uuid (gw_uuids st) of (i, us) \<Rightarrow> (i, st\<lparr>gw_uuids := us\<rparr>))"

text \<open>Calls to the servers and to the writer from a handler.\<close>

definition on_pg :: "'a stmt \<Rightarrow> gw \<Rightarrow> 'a result \<times> gw" where
  "on_pg q st = (case q (gw_pg st) of (r, d) \<Rightarrow> (r, st\<lparr>gw_pg := d\<rparr>))"

definition on_rd :: "'a rcmd \<Rightarrow> gw \<Rightarrow> 'a result \<times> gw" where
  "on_rd q st = (case q (gw_rd st) of (r, s) \<Rightarrow> (r, st\<lparr>gw_rd := s\<rparr>))"

definition on_w :: "(rwriter \<Rightarrow> rwriter) \<Rightarrow> gw \<Rightarrow> gw" where
  "on_w f st = st\<lparr>gw_w := f (gw_w st)\<rparr>"

definition reply_json :: "int \<Rightarrow> string gomap \<Rightarrow> gw \<Rightarrow> outcome \<times> gw" where
  "reply_json code v st = (Served, on_w (writeJSON code v) st)"

lemma gw_on_rd [simp]:
  "gw_pg (snd (on_rd q st)) = gw_pg st" "gw_w (snd (on_rd q st)) = gw_w st"
  "gw_rd (snd (on_rd q st)) = snd (q (gw_rd st))" "fst (on_rd q st) = fst (q (gw_rd st))"
  by (simp_all add: on_rd_def split: prod.split)

lemma gw_on_pg [simp]:
  "gw_rd (snd (on_pg q st)) = gw_rd st" "gw_w (snd (on_pg q st)) = gw_w st"
  "gw_pg (snd (on_pg q st)) = snd (q (gw_pg st))" "fst (on_pg q st) = fst (q (gw_pg st))"
  by (simp_all add: on_pg_def split: prod.split)

lemma gw_time_uuid [simp]:
  "gw_pg (snd (time_Now st)) = gw_pg st" "gw_rd (snd (time_Now st)) = gw_rd st" "gw_w (snd (time_Now st)) = gw_w st"
  "gw_pg (snd (uuid_New st)) = gw_pg st" "gw_rd (snd (uuid_New st)) = gw_rd st" "gw_w (snd (uuid_New st)) = gw_w st"
  by (simp_all add: time_Now_def uuid_New_def split: list.split prod.split)

lemma gw_on_w [simp]: "gw_pg (on_w f st) = gw_pg st" "gw_rd (on_w f st) = gw_rd st" "gw_w (on_w f st) = f (gw_w st)"
  by (simp_all add: on_w_def)

end
