(* ===== verification/Json_Roundtrip.thy ===== *)
theory Json_Roundtrip
  imports Go_Json
begin

text \<open>
  Reading back what was written: the decoder inverts the encoder on every document.  The caches of the
  gateway (API keys, idempotent responses) and the queue between the gateway and the worker rest on it.
  The proof follows the decoder: after the text of a value, in any context, the parser state is the one
  that \<open>complete\<close> gives, up to the look-ahead a number needs.
\<close>

section \<open>Strings\<close>

definition plain :: "char \<Rightarrow> bool" where
  "plain c \<longleftrightarrow> 32 \<le> (of_char c :: nat) \<and> c \<noteq> CHR 0x22 \<and> c \<noteq> CHR 0x5C"

definition item :: "char \<Rightarrow> sitem" where
  "item c =
     (if c \<noteq> CHR 0x0A \<and> c \<noteq> CHR 0x0D \<and> c \<noteq> CHR 0x09 \<and>
         ((of_char c :: nat) < 32 \<or> c = CHR ''<'' \<or> c = CHR ''>'' \<or> c = CHR ''&'')
      then SUni (of_char c) else SByte c)"

lemma unquote_ascii: "h < 128 \<Longrightarrow> unquote (SUni h # xs) = char_of h # unquote xs"
proof (cases xs)
  case (Cons y ys)
  then show "h < 128 \<Longrightarrow> ?thesis" by (cases y) (simp_all add: utf8_def)
qed (simp add: utf8_def)

lemma item_cases: "item c = SByte c \<or> item c = SUni (of_char c) \<and> (of_char c :: nat) < 128"
  by (auto simp: item_def)

lemma unquote_items: "unquote (map item s) = s"
proof (induction s)
  case (Cons c s)
  from item_cases [of c] show ?case
  proof
    assume "item c = SByte c"
    with Cons show ?thesis by simp
  next
    assume "item c = SUni (of_char c) \<and> (of_char c :: nat) < 128"
    with Cons show ?thesis by (simp add: unquote_ascii del: unquote.simps(3,4,5))
  qed
qed simp

lemma hex_digit_val: "n < 16 \<Longrightarrow> hex_val (hex_digit n) = Some n"
  by (simp add: hex_val_def hex_digit_def Let_def)

lemma enc_char_step: "foldl json_step (MStr k acc, st) (enc_char c) = (MStr k (item c # acc), st)"
proof (cases "c = CHR 0x22 \<or> c = CHR 0x5C \<or> c = CHR 0x0A \<or> c = CHR 0x0D \<or> c = CHR 0x09")
  case True
  then show ?thesis by (auto simp: enc_char_def item_def esc_char_def)
next
  case False
  show ?thesis
  proof (cases "(of_char c :: nat) < 32 \<or> c = CHR ''<'' \<or> c = CHR ''>'' \<or> c = CHR ''&''")
    case True
    have "(of_char c :: nat) div 16 < 16" "(of_char c :: nat) mod 16 < 16"
      using nat_of_char_less_256 [of c] by (simp add: less_mult_imp_div_less, simp)
    moreover have "hex_val (CHR ''0'') = Some 0" by (simp add: hex_val_def)
    ultimately show ?thesis using True False by (simp add: enc_char_def item_def hex_digit_val)
  next
    case False
    with \<open>\<not> (c = CHR 0x22 \<or> c = CHR 0x5C \<or> c = CHR 0x0A \<or> c = CHR 0x0D \<or> c = CHR 0x09)\<close>
    show ?thesis by (simp add: enc_char_def item_def)
  qed
qed

lemma enc_chars_step:
  "foldl json_step (MStr k acc, st) (concat (map enc_char s)) = (MStr k (rev (map item s) @ acc), st)"
  by (induction s arbitrary: acc) (simp_all add: enc_char_step del: json_step.simps)

lemma string_rest:
  "foldl json_step (MStr k [], st) (concat (map enc_char s) @ [CHR 0x22]) = close_string k s st"
  by (simp add: enc_chars_step unquote_items)

section \<open>Values\<close>

text \<open>The state \<open>s\<close> has read the value \<open>v\<close> in the context \<open>st\<close>.\<close>

definition has_read :: "pstate \<Rightarrow> json \<Rightarrow> frame list \<Rightarrow> bool" where
  "has_read s v st \<longleftrightarrow>
     settle s = complete v st \<and> (\<forall>c. \<not> is_numchar c \<longrightarrow> json_step s c = step_settled (complete v st) c)"

lemma has_read_complete: "has_read (complete v st) v st"
proof (cases st)
  case Nil
  then show ?thesis by (simp add: has_read_def)
next
  case (Cons f fs)
  then show ?thesis by (cases f) (simp_all add: has_read_def)
qed

lemma has_read_number: "parse_num (rev acc) = Some v \<Longrightarrow> has_read (MNum acc, st) v st"
  by (simp add: has_read_def)

lemma numchars_step: "list_all is_numchar s \<Longrightarrow> foldl json_step (MNum acc, st) s = (MNum (rev s @ acc), st)"
  by (induction s arbitrary: acc) simp_all

lemma number_read:
  assumes "c = CHR ''-'' \<or> is_digit c" "list_all is_numchar s" "parse_num (c # s) = Some v"
  shows "has_read (foldl json_step (MValue, st) (c # s)) v st"
  using assms by (simp add: number_start numchars_step has_read_number del: json_step.simps)

lemma show_nat_numchars: "list_all is_numchar (show_nat n)"
  using show_nat_digits [of n] by (auto simp: list_all_iff is_numchar_def)

lemma show_int_shape:
  obtains c t where "show_int n = c # t" "c = CHR ''-'' \<or> is_digit c" "list_all is_numchar t"
proof (cases "n < 0")
  case True
  then show thesis using that [of "CHR ''-''"] show_nat_numchars by (simp add: show_int_def)
next
  case False
  obtain c t where s: "show_nat (nat n) = c # t" "list_all is_digit (c # t)" by (rule show_nat_shape)
  then have "list_all is_numchar t" using show_nat_numchars [of "nat n"] by simp
  with s False that [of c t] show thesis by (simp add: show_int_def)
qed

lemma parse_num_show_int: "parse_num (show_int n) = Some (JInt n)"
  using parse_num_show_nat [of "nat n"] parse_num_show_nat [of "nat (- n)"] by (simp add: show_int_def)

lemma parse_exp_show_int: "parse_exp (show_int e) = Some e"
proof (cases "e < 0")
  case True
  then show ?thesis by (simp add: parse_exp_def show_int_def)
next
  case False
  obtain c t where s: "show_nat (nat e) = c # t" "list_all is_digit (c # t)" by (rule show_nat_shape)
  then have "c \<noteq> CHR ''-''" "c \<noteq> CHR ''+''" by auto
  moreover have "int (nat_of_digits (c # t)) = e" using False nat_of_digits_show_nat [of "nat e"] s by simp
  ultimately show ?thesis using s False by (simp add: parse_exp_def show_int_def)
qed

lemma parse_num_dec:
  assumes "list_all is_digit (c # t)" "\<not> (c = CHR ''0'' \<and> t \<noteq> [])"
  shows "parse_num (c # t @ CHR ''e'' # show_int e) = Some (JDec (int (nat_of_digits (c # t))) e)"
    and "parse_num (CHR ''-'' # c # t @ CHR ''e'' # show_int e) = Some (JDec (- int (nat_of_digits (c # t))) e)"
proof -
  have e: "\<not> is_digit (CHR ''e'')" by (simp add: is_digit_def)
  have c: "c \<noteq> CHR ''-''" using assms(1) by auto
  have tw: "takeWhile is_digit (c # t @ CHR ''e'' # show_int e) = c # t"
    "dropWhile is_digit (c # t @ CHR ''e'' # show_int e) = CHR ''e'' # show_int e"
    using assms(1) e by (simp_all add: list_all_iff takeWhile_append dropWhile_append)
  show "parse_num (c # t @ CHR ''e'' # show_int e) = Some (JDec (int (nat_of_digits (c # t))) e)"
    using c tw assms(2) by (simp add: parse_num_def Let_def parse_exp_show_int)
  show "parse_num (CHR ''-'' # c # t @ CHR ''e'' # show_int e) = Some (JDec (- int (nat_of_digits (c # t))) e)"
    using tw assms(2) by (simp add: parse_num_def Let_def parse_exp_show_int)
qed

lemma parse_num_show_dec: "parse_num (show_int m @ CHR ''e'' # show_int e) = Some (JDec m e)"
proof (cases "m < 0")
  case True
  obtain c t where s: "show_nat (nat (- m)) = c # t" "list_all is_digit (c # t)" "\<not> (c = CHR ''0'' \<and> t \<noteq> [])"
    by (rule show_nat_shape)
  have "int (nat_of_digits (c # t)) = - m" using True nat_of_digits_show_nat [of "nat (- m)"] s(1) by simp
  with True parse_num_dec(2) [OF s(2,3), of e] show ?thesis by (simp add: show_int_def s(1))
next
  case False
  obtain c t where s: "show_nat (nat m) = c # t" "list_all is_digit (c # t)" "\<not> (c = CHR ''0'' \<and> t \<noteq> [])"
    by (rule show_nat_shape)
  have "int (nat_of_digits (c # t)) = m" using False nat_of_digits_show_nat [of "nat m"] s(1) by simp
  with False parse_num_dec(1) [OF s(2,3), of e] show ?thesis by (simp add: show_int_def [of m] s(1))
qed

lemma show_int_numchars: "list_all is_numchar (show_int n)"
  using show_nat_numchars by (simp add: show_int_def is_numchar_def)

lemma int_read: "has_read (foldl json_step (MValue, st) (show_int n)) (JInt n) st"
proof -
  obtain c t where s: "show_int n = c # t" "c = CHR ''-'' \<or> is_digit c" "list_all is_numchar t" by (rule show_int_shape)
  show ?thesis unfolding s(1) using s parse_num_show_int [of n] by (intro number_read) simp_all
qed

lemma dec_read: "has_read (foldl json_step (MValue, st) (show_int m @ CHR ''e'' # show_int e)) (JDec m e) st"
proof -
  obtain c t where s: "show_int m = c # t" "c = CHR ''-'' \<or> is_digit c" "list_all is_numchar t" by (rule show_int_shape)
  have "list_all is_numchar (t @ CHR ''e'' # show_int e)"
    using s(3) show_int_numchars [of e] by (simp add: is_numchar_def)
  with s parse_num_show_dec [of m e] number_read [of c "t @ CHR ''e'' # show_int e"] show ?thesis by simp
qed

lemma string_read: "foldl json_step (MValue, st) (enc_string s) = complete (JStr s) st"
proof -
  have "json_step (MValue, st) (CHR 0x22) = (MStr False [], st)"
    by (simp add: is_ws_def begin_value_def)
  then show ?thesis using string_rest [of False st s] by (simp add: enc_string_def)
qed

lemma key_read:
  assumes "md = MKey \<or> md = MKeyOrEnd"
  shows "foldl json_step (md, FObj kvs # st) (enc_string k @ [CHR '':'']) = (MValue, FKey kvs k # st)"
proof -
  have "json_step (md, FObj kvs # st) (CHR 0x22) = (MStr True [], FObj kvs # st)"
    using assms by (auto simp: is_ws_def)
  moreover have "json_step (MColon, FKey kvs k # st) (CHR '':'') = (MValue, FKey kvs k # st)"
    by (simp add: is_ws_def)
  ultimately show ?thesis using string_rest [of True "FObj kvs # st" k] by (simp add: enc_string_def)
qed

section \<open>Containers\<close>

lemma not_numchar [simp]: "\<not> is_numchar (CHR '','')" "\<not> is_numchar (CHR '']'')" "\<not> is_numchar (CHR ''}'')"
  by (simp_all add: is_numchar_def is_digit_def)

lemma has_read_then: "has_read s v st \<Longrightarrow> \<not> is_numchar c \<Longrightarrow> json_step s c = step_settled (complete v st) c"
  by (simp add: has_read_def)

lemma array_read:
  assumes "\<And>y st. y \<in> set (x # xs) \<Longrightarrow> has_read (foldl json_step (MValue, st) (json_encode y)) y st"
  shows "foldl json_step (MValue, FArr vs # st) (comma_sep (map json_encode (x # xs)) @ '']'') =
    complete (JArr (rev vs @ x # xs)) st"
  using assms
proof (induction xs arbitrary: x vs)
  case Nil
  have "has_read (foldl json_step (MValue, FArr vs # st) (json_encode x)) x (FArr vs # st)" using Nil by simp
  from has_read_then [OF this] show ?case by (simp add: is_ws_def)
next
  case (Cons y ys)
  have "has_read (foldl json_step (MValue, FArr vs # st) (json_encode x)) x (FArr vs # st)" using Cons.prems by simp
  from has_read_then [OF this] have "json_step (foldl json_step (MValue, FArr vs # st) (json_encode x)) (CHR '','') =
      (MValue, FArr (x # vs) # st)" by (simp add: is_ws_def)
  with Cons.IH [of y "x # vs"] Cons.prems show ?case by simp
qed

definition member_text :: "string \<times> json \<Rightarrow> string" where
  "member_text kv = enc_string (fst kv) @ CHR '':'' # json_encode (snd kv)"

lemma object_text: "json_encode (JObj kvs) = CHR ''{'' # comma_sep (map member_text kvs) @ ''}''"
proof -
  have "map (\<lambda>(k, s). enc_string k @ CHR '':'' # s) (map (map_prod id json_encode) kvs) = map member_text kvs"
    by (simp add: member_text_def case_prod_beta)
  then show ?thesis by (simp only: json_encode.simps)
qed

lemma object_read:
  assumes "\<And>y st. y \<in> set (x # xs) \<Longrightarrow> has_read (foldl json_step (MValue, st) (json_encode (snd y))) (snd y) st"
    and "md = MKey \<or> md = MKeyOrEnd"
  shows "foldl json_step (md, FObj kvs # st) (comma_sep (map member_text (x # xs)) @ ''}'') =
    complete (JObj (rev kvs @ x # xs)) st"
  using assms
proof (induction xs arbitrary: x kvs md)
  case Nil
  have m: "foldl json_step (md, FObj kvs # st) (member_text x) =
      foldl json_step (MValue, FKey kvs (fst x) # st) (json_encode (snd x))"
    using key_read [OF Nil.prems(2), of kvs st "fst x"] by (simp add: member_text_def)
  have "has_read (foldl json_step (md, FObj kvs # st) (member_text x)) (snd x) (FKey kvs (fst x) # st)"
    unfolding m using Nil by simp
  from has_read_then [OF this] show ?case by (simp add: is_ws_def)
next
  case (Cons y ys)
  have m: "foldl json_step (md, FObj kvs # st) (member_text x) =
      foldl json_step (MValue, FKey kvs (fst x) # st) (json_encode (snd x))"
    using key_read [OF Cons.prems(2), of kvs st "fst x"] by (simp add: member_text_def)
  have "has_read (foldl json_step (md, FObj kvs # st) (member_text x)) (snd x) (FKey kvs (fst x) # st)"
    unfolding m using Cons.prems by simp
  from has_read_then [OF this] have "json_step (foldl json_step (md, FObj kvs # st) (member_text x)) (CHR '','') =
      (MKey, FObj (x # kvs) # st)" by (simp add: is_ws_def)
  with Cons.IH [of y MKey "x # kvs"] Cons.prems show ?case by simp
qed

text \<open>The first character of a value is neither white space nor a closing bracket.\<close>

lemma encode_start:
  obtains c t where "json_encode j = c # t" "json_step (MValueOrEnd, st) c = json_step (MValue, st) c"
proof -
  have ok: "json_step (MValueOrEnd, st) c = json_step (MValue, st) c"
    if "c \<in> set ''ntf{['' \<or> c = CHR 0x22 \<or> c = CHR ''-'' \<or> is_digit c" for c
    using that by (auto simp: is_ws_def is_digit_def)
  obtain c t where "json_encode j = c # t" "c \<in> set ''ntf{['' \<or> c = CHR 0x22 \<or> c = CHR ''-'' \<or> is_digit c"
  proof (cases j)
    case (JBool b)
    then show thesis using that by (cases b) auto
  next
    case (JInt n)
    then show thesis using show_int_shape [of n] that by (metis json_encode.simps(3))
  next
    case (JDec m e)
    obtain c t where "show_int m = c # t" "c = CHR ''-'' \<or> is_digit c" by (rule show_int_shape)
    with JDec show thesis using that [of c] by simp
  qed (use that in \<open>auto simp: enc_string_def split: if_splits\<close>)
  from this(1) ok [OF this(2)] show thesis by (rule that)
qed

theorem json_read: "has_read (foldl json_step (MValue, st) (json_encode j)) j st"
proof (induction j arbitrary: st)
  case JNull
  then show ?case using has_read_complete [of JNull st] by (simp add: is_ws_def begin_value_def is_digit_def)
next
  case (JBool b)
  then show ?case using has_read_complete [of "JBool b" st]
    by (cases b) (simp_all add: is_ws_def begin_value_def is_digit_def)
next
  case (JInt n)
  then show ?case using int_read by simp
next
  case (JDec m e)
  then show ?case using dec_read by simp
next
  case (JStr s)
  then show ?case using has_read_complete [of "JStr s" st] string_read by simp
next
  case (JArr xs)
  have start: "json_step (MValue, st) (CHR ''['') = (MValueOrEnd, FArr [] # st)"
    by (simp add: is_ws_def begin_value_def)
  show ?case
  proof (cases xs)
    case Nil
    then show ?thesis using start has_read_complete [of "JArr []" st] by (simp add: is_ws_def)
  next
    case (Cons y ys)
    obtain c t where c: "json_encode y = c # t"
        "json_step (MValueOrEnd, FArr [] # st) c = json_step (MValue, FArr [] # st) c"
      using encode_start by blast
    have "comma_sep (map json_encode xs) @ '']'' = c # tl (comma_sep (map json_encode xs) @ '']'')"
      using Cons c(1) by (cases ys) simp_all
    then have "foldl json_step (MValueOrEnd, FArr [] # st) (comma_sep (map json_encode xs) @ '']'') =
        foldl json_step (MValue, FArr [] # st) (comma_sep (map json_encode xs) @ '']'')"
      using c(2) by (metis foldl_Cons)
    with start array_read [of y ys "[]" st] JArr Cons has_read_complete [of "JArr xs" st] show ?thesis by simp
  qed
next
  case (JObj kvs)
  have start: "json_step (MValue, st) (CHR ''{'') = (MKeyOrEnd, FObj [] # st)"
    by (simp add: is_ws_def begin_value_def)
  show ?case
  proof (cases kvs)
    case Nil
    then show ?thesis using start has_read_complete [of "JObj []" st] by (simp add: is_ws_def)
  next
    case (Cons y ys)
    have "foldl json_step (MKeyOrEnd, FObj [] # st) (comma_sep (map member_text (y # ys)) @ ''}'') =
        complete (JObj (y # ys)) st"
      using object_read [of y ys MKeyOrEnd "[]" st] JObj Cons by (auto simp: snds.simps prod_set_simps)
    with start Cons has_read_complete [of "JObj kvs" st] show ?thesis
      by (simp add: object_text del: json_encode.simps list.map)
  qed
qed

text \<open>The decoder inverts the encoder.\<close>

theorem json_roundtrip [simp]: "json_decode (json_encode j) = JDoc j"
proof -
  obtain c t where "json_encode j = c # t" using encode_start by blast
  moreover have "settle (foldl json_step (MValue, []) (json_encode j)) = (MDone j, [])"
    using json_read [of "[]" j] by (simp add: has_read_def)
  ultimately show ?thesis by (simp add: json_decode_def del: foldl_Cons)
qed

end
