(* ===== verification/Go_Bytes.thy ===== *)
theory Go_Bytes
  imports QG_Prelude
begin

text \<open>
  The text encodings of byte strings the source uses: \<open>encoding/hex\<close> for cache keys and
  \<open>encoding/base64\<close> for API keys and encrypted credentials, with the decoder and its round trip.
\<close>

section \<open>Hexadecimal\<close>

definition hex_char :: "nat \<Rightarrow> char" where
  "hex_char n = ''0123456789abcdef'' ! n"

definition hex_EncodeToString :: "string \<Rightarrow> string" where
  "hex_EncodeToString s = concat (map (\<lambda>c. [hex_char (of_char c div 16), hex_char (of_char c mod 16)]) s)"

section \<open>Base 64\<close>

definition std_alphabet :: string where
  "std_alphabet = ''ABCDEFGHIJKLMNOPQRSTUVWXYZabcdefghijklmnopqrstuvwxyz0123456789+/''"

definition url_alphabet :: string where
  "url_alphabet = ''ABCDEFGHIJKLMNOPQRSTUVWXYZabcdefghijklmnopqrstuvwxyz0123456789-_''"

definition pad_text :: "bool \<Rightarrow> nat \<Rightarrow> string" where
  "pad_text pad k = (if pad then replicate k (CHR ''='') else [])"

text \<open>Three bytes are four digits; one or two bytes at the end are two or three.\<close>

fun b64_enc :: "string \<Rightarrow> bool \<Rightarrow> string \<Rightarrow> string" where
  "b64_enc a pad (x # y # z # s) =
     (let i = (of_char x :: nat); j = (of_char y :: nat); k = (of_char z :: nat)
      in [a ! (i div 4), a ! (i mod 4 * 16 + j div 16), a ! (j mod 16 * 4 + k div 64), a ! (k mod 64)] @ b64_enc a pad s)"
| "b64_enc a pad [x, y] =
     (let i = (of_char x :: nat); j = (of_char y :: nat)
      in [a ! (i div 4), a ! (i mod 4 * 16 + j div 16), a ! (j mod 16 * 4)] @ pad_text pad 1)"
| "b64_enc a pad [x] =
     (let i = (of_char x :: nat) in [a ! (i div 4), a ! (i mod 4 * 16)] @ pad_text pad 2)"
| "b64_enc a pad [] = []"

definition digit_of :: "string \<Rightarrow> char \<Rightarrow> nat option" where
  "digit_of a c = map_option snd (find (\<lambda>p. fst p = c) (zip a [0..<length a]))"

text \<open>
  The padded decoder.  Like Go's it drops the bits of the last digit that no byte needs; line breaks in
  the text are skipped.
\<close>

fun b64_dec :: "string \<Rightarrow> string \<Rightarrow> string option" where
  "b64_dec a (p # q # r # s # t) =
     (case (digit_of a p, digit_of a q) of
        (Some i, Some j) \<Rightarrow>
          if r = CHR ''='' then (if s = CHR ''='' \<and> t = [] then Some [char_of (i * 4 + j div 16)] else None)
          else
            (case digit_of a r of
               None \<Rightarrow> None
             | Some k \<Rightarrow>
                 if s = CHR ''=''
                 then (if t = [] then Some [char_of (i * 4 + j div 16), char_of (j mod 16 * 16 + k div 4)] else None)
                 else
                   (case digit_of a s of
                      None \<Rightarrow> None
                    | Some l \<Rightarrow>
                        map_option (\<lambda>rest. [char_of (i * 4 + j div 16), char_of (j mod 16 * 16 + k div 4),
                          char_of (k mod 4 * 64 + l)] @ rest) (b64_dec a t)))
      | _ \<Rightarrow> None)"
| "b64_dec a [] = Some []"
| "b64_dec a s = None"

definition b64_EncodeToString :: "string \<Rightarrow> string" where
  "b64_EncodeToString s = b64_enc std_alphabet True s"

definition b64_DecodeString :: "string \<Rightarrow> string option" where
  "b64_DecodeString s = b64_dec std_alphabet (filter (\<lambda>c. c \<noteq> CHR 0x0A \<and> c \<noteq> CHR 0x0D) s)"

definition b64_RawURLEncode :: "string \<Rightarrow> string" where
  "b64_RawURLEncode s = b64_enc url_alphabet False s"

section \<open>Facts\<close>

lemma length_b64_enc_raw: "length (b64_enc a False s) = (4 * length s + 2) div 3"
  by (induction a False s rule: b64_enc.induct) (simp_all add: pad_text_def Let_def)

definition good_alphabet :: "string \<Rightarrow> bool" where
  "good_alphabet a \<longleftrightarrow> length a = 64 \<and> (\<forall>i < 64. digit_of a (a ! i) = Some i) \<and>
     CHR ''='' \<notin> set a \<and> CHR 0x0A \<notin> set a \<and> CHR 0x0D \<notin> set a"

lemma std_good: "good_alphabet std_alphabet"
proof -
  have "list_all (\<lambda>i. digit_of std_alphabet (std_alphabet ! i) = Some i) [0..<64]" by code_simp
  then have "\<forall>i < 64. digit_of std_alphabet (std_alphabet ! i) = Some i" by (simp add: list_all_iff)
  moreover have "length std_alphabet = 64" "CHR ''='' \<notin> set std_alphabet" "CHR 0x0A \<notin> set std_alphabet"
    "CHR 0x0D \<notin> set std_alphabet" by code_simp+
  ultimately show ?thesis by (simp add: good_alphabet_def)
qed

lemma good_digit:
  assumes "good_alphabet a" "i < 64"
  shows "digit_of a (a ! i) = Some i" "a ! i \<noteq> CHR ''=''" "a ! i \<noteq> CHR 0x0A" "a ! i \<noteq> CHR 0x0D"
proof -
  have "a ! i \<in> set a" using assms by (simp add: good_alphabet_def)
  with assms show "digit_of a (a ! i) = Some i" "a ! i \<noteq> CHR ''=''" "a ! i \<noteq> CHR 0x0A" "a ! i \<noteq> CHR 0x0D"
    by (auto simp: good_alphabet_def simp del: nth_mem)
qed

text \<open>The digits of a group give back its bytes.\<close>

lemma digit_bounds:
  fixes i j k :: nat
  assumes "i < 256" "j < 256" "k < 256"
  shows "i div 4 < 64" "i mod 4 * 16 < 64" "i mod 4 * 16 + j div 16 < 64" "j mod 16 * 4 + k div 64 < 64"
    "j mod 16 * 4 < 64"
proof -
  have "i div 4 < 64" "j div 16 < 16" "k div 64 < 4" using assms by (simp_all add: less_mult_imp_div_less)
  moreover have "i mod 4 < 4" "j mod 16 < 16" by simp_all
  ultimately show "i div 4 < 64" "i mod 4 * 16 < 64" "i mod 4 * 16 + j div 16 < 64" "j mod 16 * 4 + k div 64 < 64"
    "j mod 16 * 4 < 64" by linarith+
qed

lemma digit_bytes:
  fixes i j k :: nat
  assumes "j < 256" "k < 256"
  shows "i div 4 * 4 + (i mod 4 * 16 + j div 16) div 16 = i"
    "(i mod 4 * 16 + j div 16) mod 16 * 16 + (j mod 16 * 4 + k div 64) div 4 = j"
    "(j mod 16 * 4 + k div 64) mod 4 * 64 + k mod 64 = k"
proof -
  have j: "j div 16 < 16" "k div 64 < 4" using assms by (simp_all add: less_mult_imp_div_less)
  then have "(i mod 4 * 16 + j div 16) div 16 = i mod 4" "(i mod 4 * 16 + j div 16) mod 16 = j div 16"
    "(j mod 16 * 4 + k div 64) div 4 = j mod 16" "(j mod 16 * 4 + k div 64) mod 4 = k div 64"
    by simp_all
  then show "i div 4 * 4 + (i mod 4 * 16 + j div 16) div 16 = i"
    "(i mod 4 * 16 + j div 16) mod 16 * 16 + (j mod 16 * 4 + k div 64) div 4 = j"
    "(j mod 16 * 4 + k div 64) mod 4 * 64 + k mod 64 = k" by simp_all
qed

lemmas char_digits = digit_bounds [OF nat_of_char_less_256 nat_of_char_less_256 nat_of_char_less_256]
lemmas char_bytes = digit_bytes [OF nat_of_char_less_256 nat_of_char_less_256]

lemma b64_dec_enc: "good_alphabet a \<Longrightarrow> b64_dec a (b64_enc a True s) = Some s"
proof (induction a True s rule: b64_enc.induct)
  case (1 a x y z s)
  have j: "(of_char y :: nat) div 16 < 16" "(of_char z :: nat) div 64 < 4"
    using nat_of_char_less_256 [of y] nat_of_char_less_256 [of z] by (simp_all add: less_mult_imp_div_less)
  then have "(of_char y :: nat) div 16 div 16 = 0" "(of_char y :: nat) div 16 mod 16 = of_char y div 16"
    "(of_char z :: nat) div 64 div 4 = 0" "(of_char z :: nat) div 64 mod 4 = of_char z div 64"
    by (simp_all only: div_less mod_less)
  with 1 show ?case by (simp add: Let_def good_digit char_digits)
next
  case (2 a x y)
  have "(of_char x mod 4 * 16 + of_char y div 16) mod 16 * 16 + of_char y mod 16 * 4 div 4 = (of_char y :: nat)"
    using digit_bytes(2) [of "of_char y" 0 "of_char x"] by simp
  with 2 show ?case
    by (simp add: Let_def good_digit char_digits char_bytes pad_text_def del: nonzero_mult_div_cancel_right)
next
  case (3 a x)
  have "of_char x div 4 * 4 + of_char x mod 4 * 16 div 16 = (of_char x :: nat)" by simp
  with 3 show ?case
    by (simp add: Let_def good_digit char_digits pad_text_def numeral_2_eq_2 del: nonzero_mult_div_cancel_right)
qed simp

lemma b64_enc_text:
  "good_alphabet a \<Longrightarrow> c \<in> set (b64_enc a True s) \<Longrightarrow> c \<noteq> CHR 0x0A \<and> c \<noteq> CHR 0x0D"
  by (induction a True s rule: b64_enc.induct) (auto simp: Let_def good_digit char_digits pad_text_def)

theorem b64_roundtrip: "b64_DecodeString (b64_EncodeToString s) = Some s"
proof -
  have "filter (\<lambda>c. c \<noteq> CHR 0x0A \<and> c \<noteq> CHR 0x0D) (b64_enc std_alphabet True s) = b64_enc std_alphabet True s"
    using b64_enc_text [OF std_good] by (intro filter_True) blast
  then show ?thesis
    by (simp add: b64_DecodeString_def b64_EncodeToString_def b64_dec_enc [OF std_good])
qed

end
