(* ===== verification/Access.thy ===== *)
theory Access
  imports Store Json_Roundtrip Go_Bytes
begin

text \<open>
  API keys (\<open>internal/keys/keys.go\<close>), their cached form (\<open>internal/auth/keycache.go\<close>) and the vault of
  provider credentials (\<open>internal/vault/vault.go\<close>, \<open>store.go\<close>).  The cryptography is a parameter: bcrypt
  and the message authentication code in the record \<open>crypto\<close>, the block cipher in \<open>AEAD\<close>.  The text
  form of identifiers and its parser are the parameters \<open>ustr\<close> and \<open>uparse\<close>; random bytes are
  arguments.
\<close>

section \<open>keys.go\<close>

record crypto =
  GenerateFromPassword :: "string \<Rightarrow> string result"
  CompareHashAndPassword :: "string \<Rightarrow> string \<Rightarrow> bool"
  hmac_sha256 :: "string \<Rightarrow> string \<Rightarrow> string"

definition LivePrefix :: string where "LivePrefix = ''qg_live_''"
definition TestPrefix :: string where "TestPrefix = ''qg_test_''"

definition key_Hash :: "crypto \<Rightarrow> string \<Rightarrow> string result" where
  "key_Hash cr key = GenerateFromPassword cr key"

definition Generate :: "crypto \<Rightarrow> string result \<Rightarrow> bool \<Rightarrow> (string \<times> string \<times> string) result" where
  "Generate cr rand test =
     (case rand of
        Inl e \<Rightarrow> Inl e
      | Inr b \<Rightarrow>
          (let secret = b64_RawURLEncode b;
               fullKey = (if test then TestPrefix @ secret else LivePrefix @ secret);
               pre = take 12 fullKey
           in case key_Hash cr fullKey of
                Inl e \<Rightarrow> Inl e
              | Inr h \<Rightarrow> Inr (fullKey, pre, h)))"

definition key_Compare :: "crypto \<Rightarrow> string \<Rightarrow> string \<Rightarrow> bool" where
  "key_Compare cr h key = CompareHashAndPassword cr h key"

definition HMACHash :: "crypto \<Rightarrow> string \<Rightarrow> string \<Rightarrow> string" where
  "HMACHash cr key pepper = hex_EncodeToString (hmac_sha256 cr pepper key)"

definition ValidateFormat :: "string \<Rightarrow> unit result" where
  "ValidateFormat key =
     (if \<not> HasPrefix key LivePrefix \<and> \<not> HasPrefix key TestPrefix then Inl (ErrMsg ''invalid key format'')
      else if length key < 20 then Inl (ErrMsg ''key too short'')
      else Inr ())"

section \<open>keycache.go\<close>

record KeyCacheMeta =
  kc_ID :: string
  kc_UserID :: string
  kc_KeyPrefix :: string
  kc_KeyHash :: string
  kc_Name :: string
  kc_Scopes :: RawMessage
  kc_RateLimitRPM :: int
  kc_Status :: string

text \<open>\<open>json.Marshal\<close> of the struct: the fields in their order, an empty \<open>RawMessage\<close> as null.\<close>

definition marshal_meta :: "KeyCacheMeta \<Rightarrow> json option" where
  "marshal_meta m =
     map_option (\<lambda>sc. JObj
       [(''id'', JStr (kc_ID m)), (''user_id'', JStr (kc_UserID m)), (''key_prefix'', JStr (kc_KeyPrefix m)),
        (''key_hash'', JStr (kc_KeyHash m)), (''name'', JStr (kc_Name m)), (''scopes'', sc),
        (''rate_limit_rpm'', JInt (kc_RateLimitRPM m)), (''status'', JStr (kc_Status m))])
       (json_of (GRaw (kc_Scopes m)))"

definition KeyToCache :: "(uuid \<Rightarrow> string) \<Rightarrow> QuarkGateKey \<Rightarrow> string result" where
  "KeyToCache ustr k =
     (let meta = \<lparr>kc_ID = ustr (k_ID k), kc_UserID = ustr (k_UserID k), kc_KeyPrefix = k_KeyPrefix k,
                  kc_KeyHash = k_KeyHash k, kc_Name = k_Name k, kc_Scopes = k_Scopes k,
                  kc_RateLimitRPM = k_RateLimitRPM k, kc_Status = k_Status k\<rparr>
      in case marshal_meta meta of
           None \<Rightarrow> Inl (ErrMsg ''json'')
         | Some j \<Rightarrow> Inr (json_encode j))"

definition meta_fields :: "(string \<times> (KeyCacheMeta \<Rightarrow> json \<Rightarrow> KeyCacheMeta option)) list" where
  "meta_fields =
     [(''id'', \<lambda>r j. map_option (\<lambda>v. r\<lparr>kc_ID := v\<rparr>) (dec_string (kc_ID r) j)),
      (''user_id'', \<lambda>r j. map_option (\<lambda>v. r\<lparr>kc_UserID := v\<rparr>) (dec_string (kc_UserID r) j)),
      (''key_prefix'', \<lambda>r j. map_option (\<lambda>v. r\<lparr>kc_KeyPrefix := v\<rparr>) (dec_string (kc_KeyPrefix r) j)),
      (''key_hash'', \<lambda>r j. map_option (\<lambda>v. r\<lparr>kc_KeyHash := v\<rparr>) (dec_string (kc_KeyHash r) j)),
      (''name'', \<lambda>r j. map_option (\<lambda>v. r\<lparr>kc_Name := v\<rparr>) (dec_string (kc_Name r) j)),
      (''scopes'', \<lambda>r j. map_option (\<lambda>v. r\<lparr>kc_Scopes := v\<rparr>) (dec_raw j)),
      (''rate_limit_rpm'', \<lambda>r j. map_option (\<lambda>v. r\<lparr>kc_RateLimitRPM := v\<rparr>) (dec_int64 (kc_RateLimitRPM r) j)),
      (''status'', \<lambda>r j. map_option (\<lambda>v. r\<lparr>kc_Status := v\<rparr>) (dec_string (kc_Status r) j))]"

definition zero_meta :: KeyCacheMeta where
  "zero_meta = \<lparr>kc_ID = [], kc_UserID = [], kc_KeyPrefix = [], kc_KeyHash = [], kc_Name = [], kc_Scopes = [],
     kc_RateLimitRPM = 0, kc_Status = []\<rparr>"

text \<open>The zero \<open>time.Time\<close> in microseconds.\<close>

definition zero_instant :: instant where
  "zero_instant = -62135596800000000"

definition KeyFromCache :: "(string \<Rightarrow> uuid option) \<Rightarrow> string \<Rightarrow> QuarkGateKey result" where
  "KeyFromCache uparse s =
     (case unmarshal_struct meta_fields zero_meta (json_decode s) of
        None \<Rightarrow> Inl (ErrMsg ''json'')
      | Some meta \<Rightarrow>
          (case uparse (kc_ID meta) of
             None \<Rightarrow> Inl (ErrMsg ''invalid UUID'')
           | Some i \<Rightarrow>
               (case uparse (kc_UserID meta) of
                  None \<Rightarrow> Inl (ErrMsg ''invalid UUID'')
                | Some userID \<Rightarrow>
                    if kc_Status meta \<noteq> ''active'' then Inl (ErrMsg ''key not active'')
                    else Inr \<lparr>k_ID = i, k_UserID = userID, k_KeyPrefix = kc_KeyPrefix meta,
                              k_KeyHash = kc_KeyHash meta, k_Name = kc_Name meta, k_Scopes = kc_Scopes meta,
                              k_RateLimitRPM = kc_RateLimitRPM meta, k_Status = kc_Status meta,
                              k_LastUsedAt = None, k_CreatedAt = zero_instant, k_RevokedAt = None\<rparr>)))"

section \<open>vault.go\<close>

text \<open>
  A \<open>cipher.AEAD\<close> under the key the vault derives: the nonce size, \<open>Seal\<close> and \<open>Open\<close> (nonce first).
\<close>

record AEAD =
  NonceSize :: nat
  Seal :: "string \<Rightarrow> string \<Rightarrow> string"
  Open :: "string \<Rightarrow> string \<Rightarrow> string result"

definition deriveKey :: "string \<Rightarrow> string" where
  "deriveKey kek = take 32 kek @ replicate (32 - length kek) (CHR 0x00)"

record Vault =
  v_gcm :: AEAD

text \<open>\<open>new_gcm\<close> is \<open>aes.NewCipher\<close> followed by \<open>cipher.NewGCM\<close>.\<close>

definition vault_New :: "(string \<Rightarrow> AEAD result) \<Rightarrow> string \<Rightarrow> Vault result" where
  "vault_New new_gcm kek =
     (case new_gcm (deriveKey kek) of Inl e \<Rightarrow> Inl (ErrWrap ''vault'' e) | Inr gcm \<Rightarrow> Inr \<lparr>v_gcm = gcm\<rparr>)"

definition Encrypt :: "Vault \<Rightarrow> string result \<Rightarrow> string \<Rightarrow> string result" where
  "Encrypt v rand plaintext =
     (case rand of
        Inl e \<Rightarrow> Inl e
      | Inr b \<Rightarrow> (let nonce = take (NonceSize (v_gcm v)) b in Inr (nonce @ Seal (v_gcm v) nonce plaintext)))"

definition Decrypt :: "Vault \<Rightarrow> string \<Rightarrow> string result" where
  "Decrypt v blob =
     (let nonceSize = NonceSize (v_gcm v)
      in if length blob < nonceSize then Inl (ErrMsg ''vault: blob too short'')
         else Open (v_gcm v) (take nonceSize blob) (drop nonceSize blob))"

definition EncryptString :: "Vault \<Rightarrow> string result \<Rightarrow> string \<Rightarrow> string result" where
  "EncryptString v rand s =
     (case Encrypt v rand s of Inl e \<Rightarrow> Inl e | Inr b \<Rightarrow> Inr (b64_EncodeToString b))"

definition DecryptString :: "Vault \<Rightarrow> string \<Rightarrow> string result" where
  "DecryptString v encoded =
     (case b64_DecodeString encoded of
        None \<Rightarrow> Inl (ErrMsg ''illegal base64 data'')
      | Some blob \<Rightarrow> Decrypt v blob)"

section \<open>The vault table\<close>

text \<open>
  \<open>Put\<close> takes the provider's identifier as text, which PostgreSQL reads as a UUID (\<open>uparse\<close>).  The table
  has one row per provider and label.
\<close>

definition vault_upsert :: "uuid \<Rightarrow> string \<Rightarrow> string \<Rightarrow> unit stmt" where
  "vault_upsert providerConfigID label blob d =
     (let T = pg_tabs d; (i, us) = next_uuid (pg_uuids d); d1 = d\<lparr>pg_uuids := us\<rparr>;
          here = (\<lambda>r. cv_provider_config_id r = providerConfigID \<and> cv_label r = label)
      in if list_ex here (t_vault T)
         then (Inr (), d1\<lparr>pg_tabs := T\<lparr>t_vault := map (\<lambda>r. if here r
                then r\<lparr>cv_encrypted_blob := blob, cv_rotated_at := Some (pg_now d)\<rparr> else r) (t_vault T)\<rparr>\<rparr>)
         else if i \<in> cv_ID ` set (t_vault T) then (Inl (ErrUnique ''credential_vault_entries_pkey''), d1)
         else if providerConfigID \<notin> pr_ID ` set (t_providers T)
         then (Inl (ErrForeignKey ''credential_vault_entries_provider_config_id_fkey''), d1)
         else (Inr (), d1\<lparr>pg_tabs := T\<lparr>t_vault := t_vault T @
           [\<lparr>cv_ID = i, cv_provider_config_id = providerConfigID, cv_label = label, cv_encrypted_blob = blob,
             cv_rotated_at = None\<rparr>]\<rparr>\<rparr>))"

definition vault_Put :: "(string \<Rightarrow> uuid option) \<Rightarrow> Vault \<Rightarrow> string result \<Rightarrow> string \<Rightarrow> string \<Rightarrow> string \<Rightarrow> unit stmt" where
  "vault_Put uparse v rand providerConfigID label plaintext d =
     (case Encrypt v rand plaintext of
        Inl e \<Rightarrow> (Inl e, d)
      | Inr blob \<Rightarrow>
          pg_call (\<lambda>d. case uparse providerConfigID of
             None \<Rightarrow> (Inl (ErrInvalidText ''uuid''), d)
           | Some i \<Rightarrow> vault_upsert i label blob d) d)"

definition vault_lookup :: "string \<Rightarrow> string \<Rightarrow> tables \<Rightarrow> string option" where
  "vault_lookup providerSlug label T =
     map_option cv_encrypted_blob (find (\<lambda>r. cv_label r = label \<and>
       list_ex (\<lambda>p. pr_ID p = cv_provider_config_id r \<and> pr_provider_slug p = providerSlug) (t_providers T)) (t_vault T))"

definition vault_Get :: "Vault \<Rightarrow> string \<Rightarrow> string \<Rightarrow> string stmt" where
  "vault_Get v providerSlug label d =
     (case pg_call (select_row (vault_lookup providerSlug label)) d of
        (Inl e, d1) \<Rightarrow> (Inl (ErrWrap ''vault get'' e), d1)
      | (Inr blob, d1) \<Rightarrow> (Decrypt v blob, d1))"

section \<open>Keys\<close>

text \<open>What bcrypt promises: a hash it generated matches the password it was generated from.\<close>

definition bcrypt_ok :: "crypto \<Rightarrow> bool" where
  "bcrypt_ok cr \<longleftrightarrow> (\<forall>p h. GenerateFromPassword cr p = Inr h \<longrightarrow> CompareHashAndPassword cr h p)"

lemma ValidateFormat_length: "ValidateFormat key = Inr () \<Longrightarrow> 12 \<le> length key"
  by (simp add: ValidateFormat_def split: if_splits)

text \<open>A generated key has the format the gateway accepts, its stored prefix and a hash that matches.\<close>

lemma Generate_valid:
  assumes "bcrypt_ok cr" "length b = 32" "Generate cr (Inr b) test = Inr (fullKey, pre, h)"
  shows "ValidateFormat fullKey = Inr () \<and> pre = take 12 fullKey \<and> length pre = 12 \<and> key_Compare cr h fullKey"
proof -
  let ?p = "if test then TestPrefix else LivePrefix"
  from assms(3) have k: "fullKey = ?p @ b64_RawURLEncode b" "pre = take 12 fullKey" "GenerateFromPassword cr fullKey = Inr h"
    by (auto simp: Generate_def key_Hash_def Let_def split: sum.splits if_splits)
  have "length (b64_RawURLEncode b) = 43" using assms(2) by (simp add: b64_RawURLEncode_def length_b64_enc_raw)
  then have len: "length fullKey = 51" using k(1) by (simp add: TestPrefix_def LivePrefix_def)
  have "HasPrefix fullKey LivePrefix \<or> HasPrefix fullKey TestPrefix" by (simp add: k(1))
  with len have "ValidateFormat fullKey = Inr ()" by (auto simp: ValidateFormat_def)
  with k len assms(1) show ?thesis by (simp add: key_Compare_def bcrypt_ok_def)
qed

lemma key_cache_back:
  assumes "\<forall>i. uparse (ustr i) = Some i" and "in_i64 (k_RateLimitRPM k)" and "json_decode (k_Scopes k) = JDoc sc"
  shows "\<exists>s. KeyToCache ustr k = Inr s \<and>
    KeyFromCache uparse s =
      (if k_Status k = ''active''
       then Inr (k\<lparr>k_Scopes := json_encode sc, k_LastUsedAt := None, k_CreatedAt := zero_instant, k_RevokedAt := None\<rparr>)
       else Inl (ErrMsg ''key not active''))"
proof -
  have ne: "k_Scopes k \<noteq> []" using assms(3) by (auto simp: json_decode_def)
  let ?j = "JObj [(''id'', JStr (ustr (k_ID k))), (''user_id'', JStr (ustr (k_UserID k))),
    (''key_prefix'', JStr (k_KeyPrefix k)), (''key_hash'', JStr (k_KeyHash k)), (''name'', JStr (k_Name k)),
    (''scopes'', sc), (''rate_limit_rpm'', JInt (k_RateLimitRPM k)), (''status'', JStr (k_Status k))]"
  have to: "KeyToCache ustr k = Inr (json_encode ?j)"
    using assms(3) ne by (simp add: KeyToCache_def marshal_meta_def)
  have "unmarshal_struct meta_fields zero_meta (JDoc ?j) =
      Some \<lparr>kc_ID = ustr (k_ID k), kc_UserID = ustr (k_UserID k), kc_KeyPrefix = k_KeyPrefix k,
        kc_KeyHash = k_KeyHash k, kc_Name = k_Name k, kc_Scopes = json_encode sc,
        kc_RateLimitRPM = k_RateLimitRPM k, kc_Status = k_Status k\<rparr>"
    using assms(2) by (simp add: unmarshal_struct_def meta_fields_def EqualFold_def lower_char_def zero_meta_def dec_raw_def)
  then have "KeyFromCache uparse (json_encode ?j) =
      (if k_Status k = ''active''
       then Inr (k\<lparr>k_Scopes := json_encode sc, k_LastUsedAt := None, k_CreatedAt := zero_instant, k_RevokedAt := None\<rparr>)
       else Inl (ErrMsg ''key not active''))"
    unfolding KeyFromCache_def json_roundtrip using assms(1) by (cases k) simp
  with to show ?thesis by blast
qed

text \<open>
  C17. The key cache gives back the key that was put in: identifier, owner, prefix, hash, name, limit
  and status exactly, the scopes as the same JSON value.  Only active keys come out of the cache.
\<close>

theorem key_cache_roundtrip:
  assumes "\<forall>i. uparse (ustr i) = Some i" and "in_i64 (k_RateLimitRPM k)" and "json_decode (k_Scopes k) = JDoc sc"
  shows "\<exists>s. KeyToCache ustr k = Inr s \<and>
    KeyFromCache uparse s =
      (if k_Status k = ''active''
       then Inr (k\<lparr>k_Scopes := json_encode sc, k_LastUsedAt := None, k_CreatedAt := zero_instant, k_RevokedAt := None\<rparr>)
       else Inl (ErrMsg ''key not active''))"
  using assms by (rule key_cache_back)

section \<open>Credentials\<close>

text \<open>What an authenticated cipher promises: \<open>Open\<close> inverts \<open>Seal\<close> under a nonce of the right size.\<close>

definition aead_ok :: "AEAD \<Rightarrow> bool" where
  "aead_ok g \<longleftrightarrow> (\<forall>nonce p. length nonce = NonceSize g \<longrightarrow> Open g nonce (Seal g nonce p) = Inr p)"

lemma Decrypt_Encrypt:
  assumes "aead_ok (v_gcm v)" "NonceSize (v_gcm v) \<le> length b"
  obtains blob where "Encrypt v (Inr b) p = Inr blob" "Decrypt v blob = Inr p"
  using assms by (auto simp: Encrypt_def Decrypt_def aead_ok_def Let_def)

lemma DecryptString_EncryptString:
  assumes "aead_ok (v_gcm v)" "NonceSize (v_gcm v) \<le> length b"
  shows "\<exists>t. EncryptString v (Inr b) p = Inr t \<and> DecryptString v t = Inr p"
proof -
  obtain blob where "Encrypt v (Inr b) p = Inr blob" "Decrypt v blob = Inr p" using assms by (rule Decrypt_Encrypt)
  then show ?thesis by (simp add: EncryptString_def DecryptString_def b64_roundtrip)
qed

text \<open>The unique columns of the two tables.\<close>

definition vault_ok :: "tables \<Rightarrow> bool" where
  "vault_ok T \<longleftrightarrow> distinct (map pr_ID (t_providers T)) \<and> distinct (map pr_provider_slug (t_providers T)) \<and>
     distinct (map (\<lambda>r. (cv_provider_config_id r, cv_label r)) (t_vault T))"

definition owns :: "tables \<Rightarrow> string \<Rightarrow> uuid \<Rightarrow> bool" where
  "owns T slug i \<longleftrightarrow> (\<exists>p \<in> set (t_providers T). pr_ID p = i \<and> pr_provider_slug p = slug)"

lemma owns_inj: "vault_ok T \<Longrightarrow> owns T s i \<Longrightarrow> owns T s' i \<longleftrightarrow> s' = s"
  by (auto simp: owns_def vault_ok_def dest: distinct_map_eqD)

lemma owns_inj2: "vault_ok T \<Longrightarrow> owns T s i \<Longrightarrow> owns T s i' \<longleftrightarrow> i' = i"
  by (auto simp: owns_def vault_ok_def dest: distinct_map_eqD)

lemma vault_lookup_owns:
  "vault_lookup slug label T =
     map_option cv_encrypted_blob (find (\<lambda>r. cv_label r = label \<and> owns T slug (cv_provider_config_id r)) (t_vault T))"
proof -
  have "list_ex (\<lambda>p. pr_ID p = i \<and> pr_provider_slug p = slug) (t_providers T) \<longleftrightarrow> owns T slug i" for i
    by (auto simp: list_ex_iff owns_def)
  then show ?thesis by (simp add: vault_lookup_def)
qed

lemma find_map: "find P (map f xs) = map_option f (find (\<lambda>x. P (f x)) xs)"
  by (induction xs) simp_all

lemma find_append_fresh: "find P (xs @ [y]) = (case find P xs of Some x \<Rightarrow> Some x | None \<Rightarrow> if P y then Some y else None)"
  by (induction xs) simp_all

lemma find_ex: "list_ex P xs \<Longrightarrow> \<exists>x. find P xs = Some x \<and> P x"
  by (induction xs) auto

text \<open>One upsert is one cell of the map from provider and label to the blob.\<close>

lemma vault_upsert_lookup:
  assumes "vault_ok (pg_tabs d)" "owns (pg_tabs d) slug i" "vault_upsert i label blob d = (Inr (), d')"
  shows "vault_lookup slug' label' (pg_tabs d') =
    (if slug' = slug \<and> label' = label then Some blob else vault_lookup slug' label' (pg_tabs d))"
proof -
  let ?T = "pg_tabs d" and ?here = "\<lambda>r. cv_provider_config_id r = i \<and> cv_label r = label"
  let ?Q = "\<lambda>r. cv_label r = label' \<and> owns ?T slug' (cv_provider_config_id r)"
  have Q: "?here r \<Longrightarrow> ?Q r \<longleftrightarrow> slug' = slug \<and> label' = label" for r
    using owns_inj [OF assms(1,2)] by auto
  have Q2: "slug' = slug \<and> label' = label \<Longrightarrow> ?Q = ?here"
    using owns_inj2 [OF assms(1,2)] by auto
  show ?thesis
  proof (cases "list_ex ?here (t_vault ?T)")
    case True
    define upd where "upd r = (if ?here r then r\<lparr>cv_encrypted_blob := blob, cv_rotated_at := Some (pg_now d)\<rparr> else r)" for r :: vault_row
    from assms(3) True have T': "t_vault (pg_tabs d') = map upd (t_vault ?T)" "t_providers (pg_tabs d') = t_providers ?T"
      by (auto simp: vault_upsert_def upd_def Let_def split: prod.splits)
    have "cv_label (upd r) = cv_label r" "cv_provider_config_id (upd r) = cv_provider_config_id r" for r
      by (simp_all add: upd_def)
    then have "find ?Q (map upd (t_vault ?T)) = map_option upd (find ?Q (t_vault ?T))"
      by (simp add: find_map)
    moreover have "\<exists>r. find ?Q (t_vault ?T) = Some r \<and> ?here r" if "slug' = slug \<and> label' = label"
      unfolding Q2 [OF that] by (rule find_ex [OF True])
    moreover have "find ?Q (t_vault ?T) = Some r \<Longrightarrow> \<not> (slug' = slug \<and> label' = label) \<Longrightarrow> upd r = r" for r
      using find_SomeD [of ?Q "t_vault ?T" r] Q [of r] by (auto simp: upd_def)
    moreover have "owns (pg_tabs d') = owns ?T" by (simp add: owns_def fun_eq_iff T'(2))
    ultimately show ?thesis
      by (cases "find ?Q (t_vault ?T)") (auto simp: vault_lookup_owns T'(1) upd_def)
  next
    case False
    from assms(3) False obtain x where T': "t_vault (pg_tabs d') = t_vault ?T @
        [\<lparr>cv_ID = x, cv_provider_config_id = i, cv_label = label, cv_encrypted_blob = blob, cv_rotated_at = None\<rparr>]"
        "t_providers (pg_tabs d') = t_providers ?T"
      by (auto simp: vault_upsert_def Let_def split: prod.splits if_splits)
    have "find ?Q (t_vault ?T) = None" if "slug' = slug \<and> label' = label"
      unfolding Q2 [OF that] using False by (auto simp: find_None_iff list_ex_iff)
    moreover have "owns (pg_tabs d') = owns ?T" by (simp add: owns_def fun_eq_iff T'(2))
    ultimately show ?thesis
      using Q [of "\<lparr>cv_ID = x, cv_provider_config_id = i, cv_label = label, cv_encrypted_blob = blob, cv_rotated_at = None\<rparr>"]
      by (auto simp: vault_lookup_owns T'(1) find_append_fresh split: option.splits)
  qed
qed

text \<open>
  C18. The vault returns what was stored: after a successful \<open>Put\<close> of a credential for a provider and
  label, \<open>Get\<close> for this provider and label returns the plaintext, and every other provider or label
  still finds the blob it found before.
\<close>

theorem vault_roundtrip:
  assumes "aead_ok (v_gcm v)" "NonceSize (v_gcm v) \<le> length b" "vault_ok (pg_tabs d)"
    and "uparse providerID = Some i" "owns (pg_tabs d) slug i"
    and "vault_Put uparse v (Inr b) providerID label plaintext d = (Inr (), d')" "pg_fates d' = []"
  shows "fst (vault_Get v slug label d') = Inr plaintext \<and>
    (\<forall>slug' label'. (slug', label') \<noteq> (slug, label) \<longrightarrow>
       vault_lookup slug' label' (pg_tabs d') = vault_lookup slug' label' (pg_tabs d))"
proof -
  obtain blob where blob: "Encrypt v (Inr b) plaintext = Inr blob" "Decrypt v blob = Inr plaintext"
    using assms(1,2) by (rule Decrypt_Encrypt)
  from assms(4,6) blob(1) have "vault_upsert i label blob (d\<lparr>pg_fates := tl (pg_fates d)\<rparr>) = (Inr (), d')"
    by (auto simp: vault_Put_def dest: pg_call_InrD)
  from vault_upsert_lookup [OF _ _ this, of slug] assms(3,5)
  have "vault_lookup slug' label' (pg_tabs d') =
      (if slug' = slug \<and> label' = label then Some blob else vault_lookup slug' label' (pg_tabs d))" for slug' label'
    by simp
  then show ?thesis
    using assms(7) blob(2) by (auto simp: vault_Get_def pg_call_def select_row_def)
qed

section \<open>A key and a credential\<close>

text \<open>A cipher that appends the nonce, and a text form of identifiers.\<close>

definition demo_aead :: AEAD where
  "demo_aead = \<lparr>NonceSize = 2, Seal = (\<lambda>nonce p. p @ nonce), Open = (\<lambda>nonce c. Inr (take (length c - 2) c))\<rparr>"

definition demo_ustr :: "uuid \<Rightarrow> string" where "demo_ustr i = show_nat (unat i)"
definition demo_uparse :: "string \<Rightarrow> uuid option" where "demo_uparse s = Some (of_nat (nat_of_digits s))"

lemma demo_uuid_text: "\<forall>i. demo_uparse (demo_ustr i) = Some i"
  by (simp add: demo_uparse_def demo_ustr_def)

definition demo_key :: QuarkGateKey where
  "demo_key = \<lparr>k_ID = 5, k_UserID = 7, k_KeyPrefix = ''qg_live_abcd'', k_KeyHash = ''h'', k_Name = ''n'',
     k_Scopes = ''[ ]'', k_RateLimitRPM = 60, k_Status = ''active'', k_LastUsedAt = None, k_CreatedAt = 3, k_RevokedAt = None\<rparr>"

theorem key_cache_roundtrip_witness:
  "\<exists>s. KeyToCache demo_ustr demo_key = Inr s \<and>
     KeyFromCache demo_uparse s = Inr (demo_key\<lparr>k_Scopes := ''[]'', k_CreatedAt := zero_instant\<rparr>)"
proof -
  have "json_decode (k_Scopes demo_key) = JDoc (JArr [])" by code_simp
  from key_cache_roundtrip [OF demo_uuid_text _ this] show ?thesis by (simp add: demo_key_def in_i64_iff)
qed

definition demo_providers :: tables where
  "demo_providers = \<lparr>t_users = [], t_keys = [],
     t_providers = [\<lparr>pr_ID = 3, pr_provider_slug = ''apify'', pr_display_name = [], pr_category = [], pr_base_url = [],
       pr_auth_injection = ''{}'', pr_pricing_model = ''{}'', pr_health_check_path = None, pr_enabled = True, pr_driver_module = []\<rparr>],
     t_vault = [], t_ledger = [], t_usage = [], t_sessions = [], t_migrations = []\<rparr>"

definition demo_vault_pg :: pg where
  "demo_vault_pg = \<lparr>pg_tabs = demo_providers, pg_now = 9, pg_uuids = [11], pg_fates = []\<rparr>"

theorem vault_roundtrip_witness:
  "fst (vault_Get \<lparr>v_gcm = demo_aead\<rparr> ''apify'' ''master''
     (snd (vault_Put demo_uparse \<lparr>v_gcm = demo_aead\<rparr> (Inr ''xy'') ''3'' ''master'' ''secret'' demo_vault_pg))) = Inr ''secret''"
proof -
  let ?v = "\<lparr>v_gcm = demo_aead\<rparr>" and ?put = "vault_Put demo_uparse \<lparr>v_gcm = demo_aead\<rparr> (Inr ''xy'') ''3'' ''master'' ''secret'' demo_vault_pg"
  have a: "aead_ok (v_gcm ?v)" "NonceSize (v_gcm ?v) \<le> length ''xy''"
    by (simp_all add: aead_ok_def demo_aead_def)
  have t: "vault_ok (pg_tabs demo_vault_pg)" "owns (pg_tabs demo_vault_pg) ''apify'' 3"
    by (simp_all add: vault_ok_def owns_def demo_vault_pg_def demo_providers_def)
  have p: "?put = (Inr (), snd ?put)" "pg_fates (snd ?put) = []" by code_simp+
  have "demo_uparse ''3'' = Some 3" by code_simp
  from vault_roundtrip [OF a t(1) this t(2) p] show ?thesis by simp
qed

end
