(* ===== verification/Pricing.thy ===== *)
theory Pricing
  imports Models "HOL-Library.Multiset"
begin

text \<open>
  \<open>internal/metering/hold.go\<close> and \<open>internal/metering/normalize.go\<close>: splitting a hold into the part
  that is captured and the part that is released, decoding a provider's pricing model from its JSON
  text, and turning raw usage metrics into micro-credits.  A panic of the Go runtime is the value
  \<open>Panics\<close>; the conversion of a float that does not fit \<open>int64\<close> is the parameter \<open>oob\<close>.
\<close>

section \<open>hold.go\<close>

definition CaptureRelease :: "int \<Rightarrow> int \<Rightarrow> int \<times> int" where
  "CaptureRelease holdMicro captureMicro =
     (let release = i64 (holdMicro - captureMicro)
      in if release < 0 then (holdMicro, 0) else (captureMicro, release))"

section \<open>Decoding a pricing model\<close>

text \<open>A Go map that may be nil is an option; \<open>None\<close> is nil.\<close>

record PricingModel =
  PassthroughUSD :: bool
  PlatformMargin :: float64
  BaseRatesMicroPerUnit :: "int gomap option"
  ModelOverrides :: "int gomap option gomap option"
  MinimumChargeMicro :: int

definition zero_pricing :: PricingModel where
  "zero_pricing = \<lparr>PassthroughUSD = False, PlatformMargin = Fin 0, BaseRatesMicroPerUnit = None,
     ModelOverrides = None, MinimumChargeMicro = 0\<rparr>"

abbreviation dec_rates :: "int gomap option \<Rightarrow> json \<Rightarrow> int gomap option option" where
  "dec_rates \<equiv> dec_map dec_int64 0"

definition pricing_fields :: "(string \<times> (PricingModel \<Rightarrow> json \<Rightarrow> PricingModel option)) list" where
  "pricing_fields =
     [(''passthrough_usd'', \<lambda>pm j. map_option (\<lambda>v. pm\<lparr>PassthroughUSD := v\<rparr>) (dec_bool (PassthroughUSD pm) j)),
      (''platform_margin'', \<lambda>pm j. map_option (\<lambda>v. pm\<lparr>PlatformMargin := v\<rparr>) (dec_float (PlatformMargin pm) j)),
      (''base_rates_micro_per_unit'', \<lambda>pm j.
         map_option (\<lambda>v. pm\<lparr>BaseRatesMicroPerUnit := v\<rparr>) (dec_rates (BaseRatesMicroPerUnit pm) j)),
      (''model_overrides'', \<lambda>pm j.
         map_option (\<lambda>v. pm\<lparr>ModelOverrides := v\<rparr>) (dec_map dec_rates None (ModelOverrides pm) j)),
      (''minimum_charge_micro'', \<lambda>pm j.
         map_option (\<lambda>v. pm\<lparr>MinimumChargeMicro := v\<rparr>) (dec_int64 (MinimumChargeMicro pm) j))]"

definition unmarshal_pricing :: "jtext \<Rightarrow> PricingModel option" where
  "unmarshal_pricing = unmarshal_struct pricing_fields zero_pricing"

section \<open>normalize.go\<close>

record NormalizeOptions =
  no_PlatformMargin :: float64
  no_Partial :: bool

datatype 'a go = Returns 'a | Panics string

text \<open>The float literal \<open>0.05\<close>: the binary64 number nearest to one twentieth.\<close>

definition default_margin :: float64 where
  "default_margin = rnd (1 / 20)"

definition effective_margin :: "NormalizeOptions \<Rightarrow> PricingModel \<Rightarrow> float64" where
  "effective_margin opts pm =
     (let m = (if flt (Fin 0) (no_PlatformMargin opts) then no_PlatformMargin opts else PlatformMargin pm)
      in if m = Fin 0 then default_margin else m)"

definition million :: float64 where
  "million = Fin 1000000"

definition passthrough_micro :: "(float64 \<Rightarrow> int) \<Rightarrow> float64 \<Rightarrow> float64 \<Rightarrow> int \<Rightarrow> int" where
  "passthrough_micro oob costUSD margin creditUSDMicro =
     (let usdMicro = int64_of oob (fround (fmul costUSD million))
      in int64_of oob (fround (fdiv
           (fmul (fmul (float_of_int usdMicro) (fadd (Fin 1) margin)) (float_of_int creditUSDMicro))
           million)))"

text \<open>The metric names of raw usage and the billing units they are counted in.\<close>

definition usage_units :: "(string \<times> string) list" where
  "usage_units =
     [(''input_tokens'', ''TOK_INPUT''), (''output_tokens'', ''TOK_OUTPUT''),
      (''compute_seconds'', ''COMPUTE_S''), (''db_reads'', ''DB_READ''), (''db_writes'', ''DB_WRITE''),
      (''vec_queries'', ''VEC_QUERY''), (''api_calls'', ''API_CALL'')]"

definition metric :: "gmap \<Rightarrow> string \<Rightarrow> float64 option" where
  "metric raw name =
     (case as_int (mget raw name) of
        Some n \<Rightarrow> Some (float_of_int n)
      | None \<Rightarrow> as_float (mget raw name))"

fun collect :: "gmap \<Rightarrow> (string \<times> string) list \<Rightarrow> float64 gomap \<Rightarrow> float64 gomap" where
  "collect raw [] qs = qs"
| "collect raw ((name, unit) # us) qs =
     collect raw us (case metric raw name of Some v \<Rightarrow> mset_at unit v qs | None \<Rightarrow> qs)"

definition quantities_of :: "gmap \<Rightarrow> float64 gomap" where
  "quantities_of raw = collect raw usage_units []"

text \<open>
  The rates a request is charged with: the base rates, overwritten entry by entry with the override of
  the request's model.  Writing an entry into a nil map panics.
\<close>

definition rates_of :: "PricingModel \<Rightarrow> gmap \<Rightarrow> int gomap option go" where
  "rates_of pm raw =
     (let model = str_or_empty (mget raw ''model''); rates = BaseRatesMicroPerUnit pm
      in if model = [] then Returns rates
         else
           (case ModelOverrides pm of
              None \<Rightarrow> Returns rates
            | Some ov \<Rightarrow>
                (case mget ov model of
                   None \<Rightarrow> Returns rates
                 | Some None \<Rightarrow> Returns rates
                 | Some (Some []) \<Rightarrow> Returns rates
                 | Some (Some (e # es)) \<Rightarrow>
                     (case rates of
                        None \<Rightarrow> Panics ''assignment to entry in nil map''
                      | Some r \<Rightarrow> Returns (Some (assign_all r (e # es)))))))"

definition line_charge :: "(float64 \<Rightarrow> int) \<Rightarrow> int gomap option \<Rightarrow> string \<Rightarrow> float64 \<Rightarrow> int" where
  "line_charge oob rates unit qty =
     (case rates of
        None \<Rightarrow> 0
      | Some r \<Rightarrow>
          (case mget r unit of
             None \<Rightarrow> 0
           | Some rate \<Rightarrow> int64_of oob (fround (fmul qty (float_of_int rate)))))"

fun rate_total :: "(float64 \<Rightarrow> int) \<Rightarrow> int gomap option \<Rightarrow> int \<Rightarrow> float64 gomap \<Rightarrow> int" where
  "rate_total oob rates tot [] = tot"
| "rate_total oob rates tot ((unit, qty) # qs) =
     rate_total oob rates (i64 (tot + line_charge oob rates unit qty)) qs"

definition apply_minimum :: "bool \<Rightarrow> int \<Rightarrow> bool \<Rightarrow> int \<Rightarrow> int" where
  "apply_minimum metered minimum partial tot =
     (let t1 = (if tot < minimum \<and> tot > 0 then minimum else tot);
          t2 = (if t1 = 0 \<and> minimum > 0 \<and> metered then minimum else t1)
      in if partial \<and> t2 > 0 \<and> minimum > 0 \<and> t2 < minimum then minimum else t2)"

definition rate_table ::
    "(float64 \<Rightarrow> int) \<Rightarrow> PricingModel \<Rightarrow> gmap \<Rightarrow> NormalizeOptions \<Rightarrow> (int \<times> RawMessage) result go" where
  "rate_table oob pm raw opts =
     (let quantities = quantities_of raw
      in case rates_of pm raw of
           Panics s \<Rightarrow> Panics s
         | Returns rates \<Rightarrow>
             (let tot = apply_minimum (quantities \<noteq> []) (MinimumChargeMicro pm) (no_Partial opts)
                            (rate_total oob rates 0 quantities)
              in Returns (Inr (tot, marshal (GMap
                   [(''micro_credits'', GInt64 tot),
                    (''quantities'', GMap (map (map_prod id GFloat) quantities)),
                    (''method'', GStr ''rate_table'')])))))"

definition NormalizeWithOptions ::
    "(float64 \<Rightarrow> int) \<Rightarrow> RawMessage \<Rightarrow> gmap \<Rightarrow> int \<Rightarrow> NormalizeOptions \<Rightarrow> (int \<times> RawMessage) result go" where
  "NormalizeWithOptions oob pricing raw creditUSDMicro opts =
     (case unmarshal_pricing (json_decode pricing) of
        None \<Rightarrow> Returns (Inl (ErrMsg ''json''))
      | Some pm \<Rightarrow>
          (case (if PassthroughUSD pm then as_float (mget raw ''cost_usd'') else None) of
             Some costUSD \<Rightarrow>
               if flt (Fin 0) costUSD
               then
                 (let m = passthrough_micro oob costUSD (effective_margin opts pm) creditUSDMicro;
                      micro = (if m < MinimumChargeMicro pm then MinimumChargeMicro pm else m)
                  in Returns (Inr (micro, marshal (GMap
                       [(''micro_credits'', GInt64 micro), (''cost_usd'', GFloat costUSD),
                        (''method'', GStr ''passthrough_usd'')]))))
               else rate_table oob pm raw opts
           | None \<Rightarrow> rate_table oob pm raw opts))"

definition Normalize ::
    "(float64 \<Rightarrow> int) \<Rightarrow> RawMessage \<Rightarrow> gmap \<Rightarrow> int \<Rightarrow> (int \<times> RawMessage) result go" where
  "Normalize oob pricing raw creditUSDMicro =
     NormalizeWithOptions oob pricing raw creditUSDMicro \<lparr>no_PlatformMargin = Fin 0, no_Partial = False\<rparr>"

definition EstimateMax :: "RawMessage \<Rightarrow> int \<Rightarrow> int \<Rightarrow> int" where
  "EstimateMax pricing hints defaultEstimate =
     (let fallback = (if defaultEstimate = 0 then 10000000 else defaultEstimate)
      in if hints > 0 then i64 (hints * 1000000)
         else
           (case unmarshal_pricing (json_decode pricing) of
              None \<Rightarrow> fallback
            | Some pm \<Rightarrow>
                if MinimumChargeMicro pm > 0 \<and> defaultEstimate < MinimumChargeMicro pm
                then i64 (MinimumChargeMicro pm * 100)
                else fallback))"

section \<open>Splitting a hold\<close>

lemma CaptureRelease_eq:
  assumes "0 \<le> h" "in_i64 h" "0 \<le> c" "in_i64 c"
  shows "CaptureRelease h c = (min c h, h - min c h)"
proof -
  have "i64 (h - c) = h - c" using assms by (intro i64_id) (simp add: in_i64_iff)
  then show ?thesis using assms by (simp add: CaptureRelease_def min_def)
qed

text \<open>
  C25. The split of a hold is exact: for a non-negative hold and charge the captured part is the charge
  capped at the hold, and captured and released parts add up to the hold, so neither exceeds it.
\<close>

theorem CaptureRelease_split:
  assumes "0 \<le> h" "in_i64 h" "0 \<le> c" "in_i64 c" and "CaptureRelease h c = (capture, release)"
  shows "capture = min c h \<and> capture + release = h \<and> 0 \<le> capture \<and> 0 \<le> release"
  using assms(5) CaptureRelease_eq [OF assms(1-4)] assms(1,3) by auto

theorem CaptureRelease_split_witness:
  "CaptureRelease 10 25 = (10, 0) \<and> (10::int) + 0 = 10"
proof -
  obtain c r where eq: "CaptureRelease 10 25 = (c, r)" by fastforce
  from CaptureRelease_split [OF _ _ _ _ eq] have "c = 10 \<and> c + r = 10" by (simp add: in_i64_iff)
  with eq show ?thesis by simp
qed

section \<open>The rate table\<close>

text \<open>
  The order of the map's entries does not matter: the loop computes the 64-bit sum of the line charges.
\<close>

lemma rate_total_sum:
  "in_i64 t \<Longrightarrow> rate_total oob rates t qs = i64 (t + sum_list (map (\<lambda>(u, q). line_charge oob rates u q) qs))"
proof (induction qs arbitrary: t)
  case Nil
  then show ?case by simp
next
  case (Cons e qs)
  obtain u q where "e = (u, q)" by (cases e)
  with Cons.IH [of "i64 (t + line_charge oob rates u q)"] show ?case by (simp add: add.assoc)
qed

text \<open>
  C27. Charging does not depend on the order in which Go's \<open>range\<close> visits the quantities: any two
  orders of the same entries give the same 64-bit total.
\<close>

theorem rate_total_order:
  assumes "mset qs = mset qs'"
  shows "rate_total oob rates 0 qs = rate_total oob rates 0 qs'"
proof -
  have "sum_list (map f qs) = sum_list (map f qs')" for f :: "string \<times> float64 \<Rightarrow> int"
    using assms by (metis mset_map sum_mset_sum_list)
  then show ?thesis by (simp add: rate_total_sum in_i64_iff)
qed

theorem rate_total_order_witness:
  "rate_total (\<lambda>_. 0) (Some [(''DB_READ'', 3), (''API_CALL'', 7)]) 0
     [(''DB_READ'', Fin 2), (''API_CALL'', Fin 1)] =
   rate_total (\<lambda>_. 0) (Some [(''DB_READ'', 3), (''API_CALL'', 7)]) 0
     [(''API_CALL'', Fin 1), (''DB_READ'', Fin 2)]"
  by (rule rate_total_order) (simp add: add_mset_commute)

lemma line_charge_int:
  assumes "mget r u = Some k" "\<bar>k\<bar> < 2 ^ 53" "\<bar>n * k\<bar> < 2 ^ 53"
  shows "line_charge oob (Some r) u (Fin (of_int n)) = n * k"
proof -
  have "in_i64 (n * k)" using assms(3) unfolding in_i64_iff by simp linarith
  then have "int64_of oob (fround (Fin (of_int (n * k)))) = n * k" by (rule int64_of_round_int)
  then show ?thesis
    using assms fmul_int [of n k] by (simp add: line_charge_def del: of_int_mult fround.simps int64_of.simps)
qed

definition rate :: "int gomap \<Rightarrow> string \<Rightarrow> int" where
  "rate r u = (case mget r u of Some k \<Rightarrow> k | None \<Rightarrow> 0)"

definition bill :: "int gomap \<Rightarrow> (string \<times> int) list \<Rightarrow> int" where
  "bill r ns = sum_list (map (\<lambda>(u, n). n * rate r u) ns)"

definition billable :: "int gomap \<Rightarrow> string \<times> int \<Rightarrow> bool" where
  "billable r un \<longleftrightarrow>
     (let (u, n) = un in 0 \<le> n \<and> 0 \<le> rate r u \<and> rate r u < 2 ^ 53 \<and> n * rate r u < 2 ^ 53)"

definition float_usage :: "(string \<times> int) list \<Rightarrow> float64 gomap" where
  "float_usage ns = map (\<lambda>(u, n). (u, Fin (of_int n))) ns"

lemma line_charge_rate:
  "billable r (u, n) \<Longrightarrow> line_charge oob (Some r) u (Fin (of_int n)) = n * rate r u"
  by (cases "mget r u")
    (simp_all add: billable_def rate_def line_charge_int, simp add: line_charge_def)

lemma bill_nonneg: "list_all (billable r) ns \<Longrightarrow> 0 \<le> bill r ns"
  by (induction ns) (auto simp: bill_def billable_def)

lemma rate_total_bill:
  assumes "list_all (billable r) ns" "bill r ns \<le> max_i64"
  shows "rate_total oob (Some r) 0 (float_usage ns) = bill r ns"
proof -
  have "sum_list (map (\<lambda>(u, q). line_charge oob (Some r) u q) (float_usage ns)) = bill r ns"
    using assms(1) by (induction ns) (auto simp: float_usage_def bill_def line_charge_rate)
  moreover have "in_i64 (bill r ns)"
    using bill_nonneg [OF assms(1)] assms(2) by (simp add: in_i64_iff max_i64_def)
  ultimately show ?thesis by (simp add: rate_total_sum in_i64_iff)
qed

lemma apply_minimum_eq:
  "0 \<le> t \<Longrightarrow> apply_minimum metered m partial t = (if t = 0 \<and> \<not> metered then 0 else max t (max m 0))"
  by (auto simp: apply_minimum_def Let_def max_def)

text \<open>
  C26. What a metered request is charged.  For a pricing model that is not a USD passthrough, whole
  quantities and non-negative rates whose products stay below \<open>2 ^ 53\<close>, the charge is exactly the sum
  of quantity times rate over the metered units, raised to the provider's minimum charge; a request
  that reports no known metric costs nothing.  The partial flag has no influence.
\<close>

theorem Normalize_rate_table:
  assumes "unmarshal_pricing (json_decode pricing) = Some pm" and "\<not> PassthroughUSD pm"
    and "rates_of pm raw = Returns (Some r)" and "quantities_of raw = float_usage ns"
    and "list_all (billable r) ns" and "bill r ns \<le> max_i64"
  shows "\<exists>norm. NormalizeWithOptions oob pricing raw usd opts =
    Returns (Inr (if ns = [] then 0 else max (bill r ns) (max (MinimumChargeMicro pm) 0), norm))"
proof -
  have "bill r [] = 0" by (simp add: bill_def)
  then have "apply_minimum (float_usage ns \<noteq> []) (MinimumChargeMicro pm) (no_Partial opts) (bill r ns) =
      (if ns = [] then 0 else max (bill r ns) (max (MinimumChargeMicro pm) 0))"
    using bill_nonneg [OF assms(5)] by (auto simp: apply_minimum_eq float_usage_def)
  then show ?thesis
    using assms rate_total_bill [OF assms(5,6)] by (simp add: NormalizeWithOptions_def rate_table_def Let_def)
qed

definition demo_pricing :: string where
  "demo_pricing =
     json_encode (JObj [(''base_rates_micro_per_unit'', JObj [(''TOK_INPUT'', JInt 3), (''API_CALL'', JInt 40)]),
       (''minimum_charge_micro'', JInt 100)])"

lemma demo_pricing_decoded:
  "unmarshal_pricing (json_decode demo_pricing) = Some (zero_pricing
     \<lparr>BaseRatesMicroPerUnit := Some [(''TOK_INPUT'', 3), (''API_CALL'', 40)], MinimumChargeMicro := 100\<rparr>)"
  by code_simp

theorem Normalize_rate_table_witness:
  "\<exists>norm. NormalizeWithOptions (\<lambda>_. 0) demo_pricing
      [(''input_tokens'', GFloat (Fin 50)), (''api_calls'', GInt 1)] 10000
      \<lparr>no_PlatformMargin = Fin 0, no_Partial = True\<rparr> = Returns (Inr (190, norm))"
proof -
  let ?raw = "[(''input_tokens'', GFloat (Fin 50)), (''api_calls'', GInt 1)] :: gmap"
  let ?ns = "[(''TOK_INPUT'', 50), (''API_CALL'', 1)] :: (string \<times> int) list"
  have r: "rates_of (zero_pricing
      \<lparr>BaseRatesMicroPerUnit := Some [(''TOK_INPUT'', 3), (''API_CALL'', 40)], MinimumChargeMicro := 100\<rparr>) ?raw =
      Returns (Some [(''TOK_INPUT'', 3), (''API_CALL'', 40)])"
    by (simp add: rates_of_def str_or_empty_def)
  have "quantities_of ?raw = float_usage ?ns"
    by (simp add: quantities_of_def usage_units_def metric_def float_usage_def)
  from Normalize_rate_table [OF demo_pricing_decoded _ r this,
      of "\<lambda>_. 0" 10000 "\<lparr>no_PlatformMargin = Fin 0, no_Partial = True\<rparr>"]
  show ?thesis by (simp add: zero_pricing_def billable_def rate_def bill_def max_i64_def)
qed

text \<open>More of a metric never lowers its line charge.\<close>

lemma rnd_Fin_mono:
  assumes "0 \<le> x" "x \<le> y" "rnd y = Fin b"
  obtains a where "rnd x = Fin a" "0 \<le> a" "a \<le> b"
proof -
  from assms(3) have b: "b = rnd_rat y" "rnd_rat y < 2 ^ 1024"
    by (auto simp: rnd_def Let_def split: if_splits)
  have "0 \<le> rnd_rat x" "rnd_rat x \<le> rnd_rat y"
    using assms rnd_rat_nonneg rnd_rat_mono by auto
  moreover from this b have "rnd x = Fin (rnd_rat x)" by (simp add: rnd_def Let_def)
  ultimately show thesis using b by (intro that) simp_all
qed

definition fits :: "int gomap \<Rightarrow> string \<times> rat \<Rightarrow> bool" where
  "fits r uq \<longleftrightarrow>
     (let (u, q) = uq
      in 0 \<le> q \<and> 0 \<le> rate r u \<and> rate r u < 2 ^ 53 \<and>
         (\<exists>p. rnd (q * of_int (rate r u)) = Fin p \<and> round_away p \<le> max_i64))"

lemma line_charge_fits:
  assumes "fits r (u, q)"
  shows "line_charge oob (Some r) u (Fin q) =
    (case rnd (q * of_int (rate r u)) of Fin p \<Rightarrow> round_away p | _ \<Rightarrow> 0)"
proof (cases "mget r u")
  case None
  have "rnd 0 = Fin 0" using rnd_int [of 0] by simp
  with None show ?thesis using round_away_int [of 0] by (simp add: line_charge_def rate_def)
next
  case (Some k)
  with assms obtain p where k: "rate r u = k" "0 \<le> k" "k < 2 ^ 53" and p: "rnd (q * of_int k) = Fin p"
    and le: "round_away p \<le> max_i64" and q: "0 \<le> q"
    by (auto simp: fits_def rate_def)
  have "0 \<le> q * of_int k" using q k by simp
  from this order_refl p obtain a where "rnd (q * of_int k) = Fin a" "0 \<le> a" by (rule rnd_Fin_mono)
  with p have "0 \<le> p" by simp
  then have "in_i64 (round_away p)"
    using le round_away_nonneg [of p] by (simp add: in_i64_iff max_i64_def)
  then show ?thesis using Some k p by (simp add: line_charge_def fmul_def)
qed

lemma line_charge_mono:
  assumes "0 \<le> q" "q \<le> q'" "fits r (u, q')"
  shows "fits r (u, q)"
    and "0 \<le> line_charge oob (Some r) u (Fin q)"
    and "line_charge oob (Some r) u (Fin q) \<le> line_charge oob (Some r) u (Fin q')"
proof -
  let ?k = "of_int (rate r u) :: rat"
  from assms(3) obtain b where k: "0 \<le> rate r u" "rate r u < 2 ^ 53"
    and b: "rnd (q' * ?k) = Fin b" "round_away b \<le> max_i64"
    by (auto simp: fits_def)
  have "0 \<le> q * ?k" "q * ?k \<le> q' * ?k" using assms k by (simp_all add: mult_right_mono)
  from this b(1) obtain a where a: "rnd (q * ?k) = Fin a" "0 \<le> a" "a \<le> b" by (rule rnd_Fin_mono)
  have "round_away a \<le> max_i64" using round_away_mono [OF a(3)] b(2) by linarith
  with a k assms show f: "fits r (u, q)" by (auto simp: fits_def)
  show "0 \<le> line_charge oob (Some r) u (Fin q)"
    using line_charge_fits [OF f] a round_away_nonneg by simp
  show "line_charge oob (Some r) u (Fin q) \<le> line_charge oob (Some r) u (Fin q')"
    using line_charge_fits [OF f] line_charge_fits [OF assms(3)] a b round_away_mono by simp
qed

definition line_sum :: "(float64 \<Rightarrow> int) \<Rightarrow> int gomap \<Rightarrow> (string \<times> rat) list \<Rightarrow> int" where
  "line_sum oob r qs = sum_list (map (\<lambda>(u, q). line_charge oob (Some r) u (Fin q)) qs)"

definition rat_usage :: "(string \<times> rat) list \<Rightarrow> float64 gomap" where
  "rat_usage qs = map (\<lambda>(u, q). (u, Fin q)) qs"

definition less_usage :: "string \<times> rat \<Rightarrow> string \<times> rat \<Rightarrow> bool" where
  "less_usage x y \<longleftrightarrow> fst x = fst y \<and> 0 \<le> snd x \<and> snd x \<le> snd y"

lemma line_sum_mono:
  assumes "list_all2 less_usage qs qs'" "list_all (fits r) qs'"
  shows "0 \<le> line_sum oob r qs \<and> line_sum oob r qs \<le> line_sum oob r qs'"
  using assms
proof (induction qs qs' rule: list_all2_induct)
  case Nil
  then show ?case by (simp add: line_sum_def)
next
  case (Cons x xs y ys)
  obtain u q where x: "x = (u, q)" by (cases x)
  with Cons.hyps obtain q' where y: "y = (u, q')" "0 \<le> q" "q \<le> q'"
    by (cases y) (auto simp: less_usage_def)
  with Cons x show ?case
    using line_charge_mono(2,3) [of q q' r u oob] by (simp add: line_sum_def)
qed

lemma rate_total_line_sum:
  "rate_total oob (Some r) 0 (rat_usage qs) = i64 (line_sum oob r qs)"
proof -
  have "map (\<lambda>(u, q). line_charge oob (Some r) u q) (rat_usage qs) =
      map (\<lambda>(u, q). line_charge oob (Some r) u (Fin q)) qs"
    by (simp add: rat_usage_def case_prod_beta)
  then show ?thesis by (simp add: rate_total_sum in_i64_iff line_sum_def)
qed

text \<open>
  C28. Charging is monotone: with non-negative rates, a request that reports at least as much of every
  metric is never charged less, fractional quantities and the roundings of floating point included, as
  long as the larger charge fits 64 bits.
\<close>

theorem rate_total_mono:
  assumes "list_all2 less_usage qs qs'" and "list_all (fits r) qs'" and "line_sum oob r qs' \<le> max_i64"
  shows "rate_total oob (Some r) 0 (rat_usage qs) \<le> rate_total oob (Some r) 0 (rat_usage qs')"
proof -
  from line_sum_mono [OF assms(1,2), of oob] assms(3)
  have "in_i64 (line_sum oob r qs)" "in_i64 (line_sum oob r qs')" "line_sum oob r qs \<le> line_sum oob r qs'"
    by (simp_all add: in_i64_iff max_i64_def)
  then show ?thesis by (simp add: rate_total_line_sum)
qed

lemma rnd_half3: "rnd (15 / 2) = Fin (15 / 2)"
  using rnd_eval [of "15 / 2" 50 8444249301319680] by simp

theorem rate_total_mono_witness:
  "rate_total (\<lambda>_. 0) (Some [(''COMPUTE_S'', 3)]) 0 (rat_usage [(''COMPUTE_S'', 1 / 2)])
     \<le> rate_total (\<lambda>_. 0) (Some [(''COMPUTE_S'', 3)]) 0 (rat_usage [(''COMPUTE_S'', 5 / 2)])"
proof -
  let ?r = "[(''COMPUTE_S'', 3)] :: int gomap"
  have ra: "round_away (15 / 2) = 8" by (simp add: round_away_def)
  have f: "fits ?r (''COMPUTE_S'', 5 / 2)"
    using rnd_half3 ra by (auto simp: fits_def rate_def max_i64_def intro: exI [of _ "15 / 2"])
  then have "line_sum (\<lambda>_. 0) ?r [(''COMPUTE_S'', 5 / 2)] = 8"
    using line_charge_fits [OF f] rnd_half3 ra by (simp add: line_sum_def rate_def)
  with f show ?thesis
    by (intro rate_total_mono) (simp_all add: less_usage_def max_i64_def)
qed

section \<open>Errors and panics\<close>

text \<open>
  C29. When normalization does not return.  It reports an error exactly when the pricing model does not
  decode.  With a decodable model outside the passthrough it panics exactly when the request names a
  model that has a non-empty override and the pricing model has no base rates, because the override is
  written into a nil map; in every other case it returns a charge.
\<close>

theorem Normalize_outcome:
  "(unmarshal_pricing (json_decode pricing) = None \<longleftrightarrow>
      NormalizeWithOptions oob pricing raw usd opts = Returns (Inl (ErrMsg ''json''))) \<and>
   (\<forall>pm. unmarshal_pricing (json_decode pricing) = Some pm \<longrightarrow> \<not> PassthroughUSD pm \<longrightarrow>
      (let model = str_or_empty (mget raw ''model'')
       in if model \<noteq> [] \<and> BaseRatesMicroPerUnit pm = None \<and>
             (\<exists>ov e es. ModelOverrides pm = Some ov \<and> mget ov model = Some (Some (e # es)))
          then NormalizeWithOptions oob pricing raw usd opts = Panics ''assignment to entry in nil map''
          else \<exists>charge norm. NormalizeWithOptions oob pricing raw usd opts = Returns (Inr (charge, norm))))"
proof -
  have table: "rate_table oob pm raw opts \<noteq> Returns (Inl e)" for pm e
    by (simp add: rate_table_def Let_def split: go.split)
  have "(unmarshal_pricing (json_decode pricing) = None) =
      (NormalizeWithOptions oob pricing raw usd opts = Returns (Inl (ErrMsg ''json'')))"
    by (auto simp: NormalizeWithOptions_def table Let_def split: option.splits)
  moreover have "NormalizeWithOptions oob pricing raw usd opts = rate_table oob pm raw opts"
    if "unmarshal_pricing (json_decode pricing) = Some pm" "\<not> PassthroughUSD pm" for pm
    using that by (simp add: NormalizeWithOptions_def)
  ultimately show ?thesis
    by (auto simp: rate_table_def rates_of_def Let_def split: option.splits list.splits)
qed

definition override_pricing :: string where
  "override_pricing = json_encode (JObj [(''model_overrides'', JObj [(''gpt'', JObj [(''TOK_INPUT'', JInt 5)])])])"

lemma override_pricing_decoded:
  "unmarshal_pricing (json_decode override_pricing) =
     Some (zero_pricing\<lparr>ModelOverrides := Some [(''gpt'', Some [(''TOK_INPUT'', 5)])]\<rparr>)"
  by code_simp

theorem Normalize_outcome_witness:
  "NormalizeWithOptions (\<lambda>_. 0) override_pricing [(''model'', GStr ''gpt'')] 10000
     \<lparr>no_PlatformMargin = Fin 0, no_Partial = False\<rparr> = Panics ''assignment to entry in nil map''"
  using Normalize_outcome [of override_pricing "\<lambda>_. 0" "[(''model'', GStr ''gpt'')]" 10000
      "\<lparr>no_PlatformMargin = Fin 0, no_Partial = False\<rparr>"]
  by (simp add: override_pricing_decoded str_or_empty_def zero_pricing_def)

section \<open>The passthrough and the estimate\<close>

lemma fmul_Fin: "fmul (Fin a) (Fin b) = rnd (a * b)"
  by (simp add: fmul_def)

lemma rnd_cent_margin:
  "rnd (1 / 20) = Fin (3602879701896397 / 72057594037927936)"
  "rnd (1 + 3602879701896397 / 72057594037927936) = Fin (4728779608739021 / 4503599627370496)"
  "rnd (10000 * (4728779608739021 / 4503599627370496)) = Fin 10500"
  "rnd (10500 * 10000) = Fin 105000000"
  "rnd (105000000 / 1000000) = Fin 105"
  "rnd (1 / 100) = Fin (5764607523034235 / 576460752303423488)"
  "rnd (5764607523034235 / 576460752303423488 * 1000000) = Fin 10000"
proof -
  show "rnd (1 / 20) = Fin (3602879701896397 / 72057594037927936)"
    using rnd_eval [of "1 / 20" 57 7205759403792794] by simp
  show "rnd (1 + 3602879701896397 / 72057594037927936) = Fin (4728779608739021 / 4503599627370496)"
    using rnd_eval [of "1 + 3602879701896397 / 72057594037927936" 52 4728779608739021] by simp
  show "rnd (10000 * (4728779608739021 / 4503599627370496)) = Fin 10500"
    using rnd_eval [of "10000 * (4728779608739021 / 4503599627370496)" 39 5772436045824000] by simp
  show "rnd (10500 * 10000) = Fin 105000000" using rnd_int [of 105000000] by simp
  show "rnd (105000000 / 1000000) = Fin 105" using rnd_int [of 105] by simp
  show "rnd (1 / 100) = Fin (5764607523034235 / 576460752303423488)"
    using rnd_eval [of "1 / 100" 59 5764607523034235] by simp
  show "rnd (5764607523034235 / 576460752303423488 * 1000000) = Fin 10000"
    using rnd_eval [of "5764607523034235 / 576460752303423488 * 1000000" 39 5497558138880000] by simp
qed

text \<open>
  The passthrough scale at the default configuration (a margin of five percent and 10,000 USD-micro
  to the credit): a reported cost of one cent is charged 105 micro-credits, although one cent is worth one credit,
  that is one million micro-credits, at that rate.  The conversion multiplies by the value of a credit
  where the unit calls for a division.
\<close>

theorem passthrough_cent:
  "passthrough_micro oob (rnd (1 / 100)) default_margin 10000 = 105"
proof -
  have f: "float_of_int 10000 = Fin 10000" using float_of_int_exact [of 10000] by simp
  have r: "int64_of oob (fround (Fin 10000)) = 10000" "int64_of oob (fround (Fin 105)) = 105"
    using int64_of_round_int [of 10000 oob] int64_of_round_int [of 105 oob]
    by (simp_all add: in_i64_iff del: fround.simps int64_of.simps)
  show ?thesis
    by (simp add: passthrough_micro_def default_margin_def million_def fmul_Fin Let_def
        rnd_cent_margin rnd_cent_margin [simplified] f r del: fround.simps int64_of.simps)
qed

text \<open>
  The default hold estimate: a hint of up to \<open>9223372036854\<close> credits is converted exactly to
  micro-credits; without a hint the estimate is positive whenever the default is not negative and the
  provider's minimum charge is below one hundredth of the largest integer.
\<close>

theorem EstimateMax_bounds:
  assumes "hints \<le> 9223372036854" and "0 \<le> dflt"
    and "\<forall>pm. unmarshal_pricing (json_decode pricing) = Some pm \<longrightarrow>
      MinimumChargeMicro pm \<le> max_i64 div 100"
  shows "0 < EstimateMax pricing hints dflt \<and>
    (hints > 0 \<longrightarrow> EstimateMax pricing hints dflt = hints * 1000000)"
proof (cases "hints > 0")
  case True
  with assms(1) have "i64 (hints * 1000000) = hints * 1000000" by (intro i64_id) (simp add: in_i64_iff)
  with True show ?thesis by (simp add: EstimateMax_def Let_def)
next
  case False
  have "0 < i64 (MinimumChargeMicro pm * 100)"
    if "unmarshal_pricing (json_decode pricing) = Some pm" "MinimumChargeMicro pm > 0" for pm
  proof -
    from assms(3) that have "MinimumChargeMicro pm \<le> max_i64 div 100" by blast
    with that(2) have "in_i64 (MinimumChargeMicro pm * 100)" by (simp add: in_i64_iff max_i64_def)
    with that(2) show ?thesis by simp
  qed
  with False assms(2) show ?thesis by (auto simp: EstimateMax_def Let_def split: option.split)
qed

theorem EstimateMax_bounds_witness:
  "EstimateMax demo_pricing 3 0 = 3000000 \<and> 0 < EstimateMax demo_pricing 0 7"
  using EstimateMax_bounds [of 3 0 demo_pricing] EstimateMax_bounds [of 0 7 demo_pricing]
  by (simp add: demo_pricing_decoded max_i64_def)

section \<open>Charges are 64-bit integers\<close>

lemma unmarshal_pricing_minimum:
  assumes "unmarshal_pricing t = Some pm"
  shows "in_i64 (MinimumChargeMicro pm)"
proof (rule unmarshal_struct_keeps [where P = "\<lambda>pm. in_i64 (MinimumChargeMicro pm)"])
  show "unmarshal_struct pricing_fields zero_pricing t = Some pm" using assms by (simp add: unmarshal_pricing_def)
  show "in_i64 (MinimumChargeMicro zero_pricing)" by (simp add: zero_pricing_def in_i64_iff)
  fix n f r j r'
  assume "(n, f) \<in> set pricing_fields" "in_i64 (MinimumChargeMicro r)" "f r j = Some r'"
  then show "in_i64 (MinimumChargeMicro r')" by (auto simp: pricing_fields_def dest: dec_int64_range)
qed

lemma in_i64_rate_total: "in_i64 t \<Longrightarrow> in_i64 (rate_total oob rates t qs)"
  by (simp add: rate_total_sum)

lemma in_i64_apply_minimum: "in_i64 m \<Longrightarrow> in_i64 t \<Longrightarrow> in_i64 (apply_minimum a m p t)"
  by (simp add: apply_minimum_def Let_def)

lemma rate_table_range:
  assumes "rate_table oob pm raw opts = Returns (Inr (charge, js))" "in_i64 (MinimumChargeMicro pm)"
  shows "in_i64 charge"
proof (cases "rates_of pm raw")
  case (Returns rates)
  with assms show ?thesis
    by (auto simp: rate_table_def Let_def intro!: in_i64_apply_minimum in_i64_rate_total) (simp add: in_i64_iff)
next
  case (Panics s)
  with assms show ?thesis by (simp add: rate_table_def Let_def)
qed

lemma Normalize_range:
  assumes "NormalizeWithOptions oob pricing raw usd opts = Returns (Inr (charge, js))"
  shows "in_i64 charge"
proof -
  from assms obtain pm where pm: "unmarshal_pricing (json_decode pricing) = Some pm"
    by (cases "unmarshal_pricing (json_decode pricing)") (simp_all add: NormalizeWithOptions_def)
  note m = unmarshal_pricing_minimum [OF pm]
  have "in_i64 (passthrough_micro oob c x u)" for c x u by (simp add: passthrough_micro_def Let_def)
  with assms pm m show ?thesis
    by (auto simp: NormalizeWithOptions_def Let_def split: option.splits if_splits dest: rate_table_range)
qed

lemma CaptureRelease_range:
  "CaptureRelease h c = (capture, release) \<Longrightarrow> in_i64 h \<Longrightarrow> in_i64 c \<Longrightarrow> in_i64 capture \<and> in_i64 release"
  using in_i64_i64 [of "h - c"] by (auto simp: CaptureRelease_def Let_def split: if_splits) (simp add: in_i64_iff)

end
