(* ===== verification/Gateway.thy ===== *)
theory Gateway
  imports Http Access Pricing
begin

text \<open>
  The middlewares of the gateway (\<open>internal/gateway/middleware.go\<close>, \<open>route.go\<close>, \<open>idempotency.go\<close>), one
  definition per \<open>Wrap\<close>: a function from the next handler to a handler.  What the constructors store in
  the middleware structs is gathered in the record \<open>genv\<close>; logging is left out.  Where the source drops
  the error of a call, the model drops its result.
\<close>

record genv =
  ge_host :: host
  ge_reg :: Registry
  ge_str :: "uuid \<Rightarrow> string"
  ge_parse :: "string \<Rightarrow> uuid option"
  ge_crypto :: crypto
  ge_vault :: Vault
  ge_pepper :: string
  ge_holdTTL :: int
  ge_defaultHold :: int

text \<open>The text of an error; texts of the libraries are abbreviated.\<close>

fun Error :: "goerr \<Rightarrow> string" where
  "Error (ErrMsg s) = s"
| "Error (ErrWrap s e) = s @ '': '' @ Error e"
| "Error ErrConn = ''connection''"
| "Error ErrNoRows = ''no rows in result set''"
| "Error (ErrUnique s) = s"
| "Error (ErrCheck s) = s"
| "Error (ErrForeignKey s) = s"
| "Error (ErrNotNull s) = s"
| "Error (ErrInvalidText s) = s"
| "Error ErrOutOfRange = ''out of range''"

section \<open>middleware.go\<close>

definition extractBearer :: "Request \<Rightarrow> string" where
  "extractBearer r =
     (let h = header_Get (rq_Header r) ''Authorization''
      in if HasPrefix h ''Bearer '' then TrimSpace (drop 7 h) else [])"

text \<open>
  The slice \<open>token[:12]\<close> is in range: every caller has validated the token (\<open>ValidateFormat_length\<close>).
\<close>

definition findKeyByTokenPG :: "crypto \<Rightarrow> string \<Rightarrow> QuarkGateKey stmt" where
  "findKeyByTokenPG cr token =
     pg_call (\<lambda>d.
       let rows = filter (\<lambda>k. k_KeyPrefix k = take 12 token \<and> k_Status k = ''active'') (t_keys (pg_tabs d))
       in case find (\<lambda>k. key_Compare cr (k_KeyHash k) token) rows of
            None \<Rightarrow> (Inl (ErrMsg ''key not found''), d)
          | Some k \<Rightarrow> (Inr k, d))"

text \<open>The key that the cache has for the token, if the entry can be used.\<close>

definition cached_key :: "genv \<Rightarrow> string \<Rightarrow> string option result \<Rightarrow> QuarkGateKey option" where
  "cached_key g token meta =
     (case meta of
        Inr (Some m) \<Rightarrow>
          (case KeyFromCache (ge_parse g) m of
             Inl _ \<Rightarrow> None
           | Inr k \<Rightarrow> if key_Compare (ge_crypto g) (k_KeyHash k) token then Some k else None)
      | _ \<Rightarrow> None)"

definition findKeyByToken :: "genv \<Rightarrow> string \<Rightarrow> gw \<Rightarrow> QuarkGateKey result \<times> gw" where
  "findKeyByToken g token st =
     (let mac = HMACHash (ge_crypto g) token (ge_pepper g);
          (meta, st1) = on_rd (GetKeyMeta mac) st
      in case cached_key g token meta of
           Some k \<Rightarrow> (Inr k, st1)
         | None \<Rightarrow>
             (case on_pg (findKeyByTokenPG (ge_crypto g) token) st1 of
                (Inl e, st2) \<Rightarrow> (Inl e, st2)
              | (Inr k, st2) \<Rightarrow>
                  (case KeyToCache (ge_str g) k of
                     Inl _ \<Rightarrow> (Inr k, st2)
                   | Inr cached \<Rightarrow>
                       (let st3 = snd (on_rd (SetKeyMeta mac cached) st2);
                            st4 = snd (on_rd (SetKeyIDIndex (ge_str g (k_ID k)) mac) st3)
                        in (Inr k, st4)))))"

definition Auth_Wrap :: "genv \<Rightarrow> handler \<Rightarrow> handler" where
  "Auth_Wrap g nxt r st =
     (let token = extractBearer r
      in if token = [] then reply_json 401 [(''error'', ''missing bearer token'')] st
         else
           (case ValidateFormat token of
              Inl _ \<Rightarrow> reply_json 401 [(''error'', ''invalid token format'')] st
            | Inr _ \<Rightarrow>
                (case findKeyByToken g token st of
                   (Inl _, st1) \<Rightarrow> reply_json 401 [(''error'', ''invalid token'')] st1
                 | (Inr k, st1) \<Rightarrow>
                     nxt (WithContext r (WithKey k (WithKeyID (k_ID k) (WithUserID (k_UserID k) (rq_ctx r))))) st1)))"

text \<open>\<open>json.Unmarshal\<close> into a \<open>[]string\<close>; \<open>None\<close> is an error.\<close>

definition unmarshal_strings :: "RawMessage \<Rightarrow> string list option" where
  "unmarshal_strings s =
     (case json_decode s of
        JDoc j \<Rightarrow> map_option slice (dec_list (dec_string []) None j)
      | _ \<Rightarrow> None)"

definition scope_allows :: "RouteMatch \<Rightarrow> string \<Rightarrow> bool" where
  "scope_allows rm sc \<longleftrightarrow> sc = ''*'' \<or> sc = rm_Provider rm \<or> sc = rm_Provider rm @ '':'' @ rm_Operation rm"

definition Scope_Wrap :: "handler \<Rightarrow> handler" where
  "Scope_Wrap nxt r st =
     (case (Key (rq_ctx r), Route (rq_ctx r)) of
        (Some k, Some rm) \<Rightarrow>
          (case unmarshal_strings (k_Scopes k) of
             Some scopes \<Rightarrow>
               if list_ex (scope_allows rm) scopes then nxt r st
               else reply_json 403 [(''error'', ''scope denied'')] st
           | None \<Rightarrow> nxt r st)
      | _ \<Rightarrow> nxt r st)"

definition RateLimit_Wrap :: "genv \<Rightarrow> handler \<Rightarrow> handler" where
  "RateLimit_Wrap g nxt r st =
     (case Key (rq_ctx r) of
        None \<Rightarrow> nxt r st
      | Some k \<Rightarrow>
          (let (now, st1) = time_Now st;
               (res, st2) = on_rd (AllowRate (ge_str g (k_UserID k)) (k_RateLimitRPM k) (now div 1000000000)) st1
           in if res = Inr True then nxt r st2
              else reply_json 429 [(''error'', ''rate limit exceeded'')] (on_w (rw_Set ''Retry-After'' ''60'') st2)))"

definition RequestID_Wrap :: "genv \<Rightarrow> handler \<Rightarrow> handler" where
  "RequestID_Wrap g nxt r st =
     (let (i, st1) = uuid_New st;
          trace0 = header_Get (rq_Header r) ''X-Trace-Id'';
          trace = (if trace0 = [] then ge_str g i else trace0);
          c = WithTraceID trace (WithRequestID i (rq_ctx r))
      in nxt (WithContext r c) (on_w (rw_Set ''X-Request-Id'' (ge_str g i)) st1))"

definition fmtInt :: "int \<Rightarrow> string" where
  "fmtInt n = show_int n"

text \<open>PostgreSQL keeps microseconds of an instant, Redis milliseconds of a time to live.\<close>

definition pg_time :: "instant \<Rightarrow> instant" where
  "pg_time t = t div 1000"

definition rd_ttl :: "int \<Rightarrow> int" where
  "rd_ttl t = t div 1000000 * 1000"

text \<open>\<open>NewSolvencyMiddleware\<close> turns the configured minutes into a duration.\<close>

definition hold_ttl :: "int \<Rightarrow> int" where
  "hold_ttl holdMinutes = i64 (holdMinutes * 60000000000)"

text \<open>
  The balance check of the solvency middleware: the cached balance, or the one of the database, which is
  then cached; \<open>None\<close> is the answer 500.
\<close>

definition check_balance :: "genv \<Rightarrow> uuid \<Rightarrow> gw \<Rightarrow> int option \<times> gw" where
  "check_balance g userID st =
     (case on_rd (GetBalance (ge_str g userID)) st of
        (Inr (Some balance), st1) \<Rightarrow> (Some balance, st1)
      | (res, st1) \<Rightarrow>
          (case on_pg (GetUser userID) st1 of
             (Inl _, st2) \<Rightarrow> (None, st2)
           | (Inr u, st2) \<Rightarrow>
               (let st3 = snd (on_rd (SetBalance (ge_str g userID) (u_CreditBalanceMicro u)) st2)
                in (case res of Inl _ \<Rightarrow> None | Inr _ \<Rightarrow> Some (u_CreditBalanceMicro u), st3))))"

definition hold_idem :: "genv \<Rightarrow> ctx \<Rightarrow> string" where
  "hold_idem g c =
     (if IdempotencyKey c \<noteq> [] then ''hold-'' @ IdempotencyKey c else ''hold-'' @ ge_str g (RequestID c))"

definition pending_usage :: "uuid \<Rightarrow> ctx \<Rightarrow> RouteMatch \<Rightarrow> int \<Rightarrow> instant \<Rightarrow> UsageLog" where
  "pending_usage i c rm hold now =
     \<lparr>ul_ID = i, ul_UserID = UserID c, ul_QuarkGateKeyID = KeyID c, ul_ProviderSlug = rm_Provider rm,
      ul_Operation = rm_Operation rm, ul_RequestID = RequestID c, ul_Status = ''pending'', ul_RawUsage = [],
      ul_NormalizedUsage = [], ul_CreditsReservedMicro = hold, ul_CreditsCapturedMicro = 0, ul_LatencyMs = None,
      ul_TraceID = TraceID c, ul_StartedAt = pg_time now, ul_CompletedAt = None, ul_CaptureTxnID = None,
      ul_ReleaseTxnID = None\<rparr>"

text \<open>After the hold: usage log, metering session, next handler.\<close>

definition open_session :: "genv \<Rightarrow> handler \<Rightarrow> int \<Rightarrow> RouteMatch \<Rightarrow> handler" where
  "open_session g nxt hold rm r st =
     (let c = rq_ctx r;
          (i, st1) = uuid_New st;
          (now, st2) = time_Now st1
      in case on_pg (CreateUsageLog (pending_usage i c rm hold now)) st2 of
           (Inl _, st3) \<Rightarrow> reply_json 500 [(''error'', ''usage log failed'')] st3
         | (Inr _, st3) \<Rightarrow>
             (let (now2, st4) = time_Now st3
              in case on_pg (CreateMeteringSession (RequestID c) (UserID c) hold (pg_time (now2 + ge_holdTTL g))) st4 of
                   (Inl _, st5) \<Rightarrow> reply_json 500 [(''error'', ''metering session failed'')] st5
                 | (Inr _, st5) \<Rightarrow> nxt (WithContext r (WithHoldMicro hold c)) st5))"

definition solvency_hold :: "genv \<Rightarrow> ctx \<Rightarrow> int" where
  "solvency_hold g c = (if HoldMicro c = 0 then ge_defaultHold g else HoldMicro c)"

definition Solvency_Wrap :: "genv \<Rightarrow> handler \<Rightarrow> handler" where
  "Solvency_Wrap g nxt r st =
     (let c = rq_ctx r;
          hold = solvency_hold g c;
          userID = UserID c
      in case check_balance g userID st of
           (None, st1) \<Rightarrow> reply_json 500 [(''error'', ''balance check failed'')] st1
         | (Some balance, st1) \<Rightarrow>
             if balance < hold
             then reply_json 402 [(''error'', ''insufficient_credits''), (''balance_micro'', fmtInt balance),
                    (''required_micro'', fmtInt hold)] (st1\<lparr>gw_metrics := IncHoldFailures (gw_metrics st1)\<rparr>)
             else
               (case on_pg (ApplyHold userID hold (RequestID c) (hold_idem g c)) st1 of
                  (Inl _, st2) \<Rightarrow> reply_json 402 [(''error'', ''insufficient_credits'')] st2
                | (Inr newBal, st2) \<Rightarrow>
                    (let st3 = snd (on_rd (SetBalance (ge_str g userID) newBal) st2);
                         st4 = snd (on_rd (SetHold (ge_str g (RequestID c)) hold (rd_ttl (ge_holdTTL g))) st3)
                     in case Route c of
                          None \<Rightarrow> (Panicked ''nil pointer dereference'', st4)
                        | Some rm \<Rightarrow> open_session g nxt hold rm r st4)))"

section \<open>route.go\<close>

text \<open>
  The label of the credential: \<open>json.Unmarshal\<close> into a \<open>map[string]string\<close> whose error is ignored; a
  value that is no string leaves the empty string under its key.
\<close>

definition inject_text :: "json \<Rightarrow> string" where
  "inject_text j = (case j of JStr s \<Rightarrow> s | _ \<Rightarrow> [])"

definition auth_inject :: "RawMessage \<Rightarrow> string gomap" where
  "auth_inject s =
     (case json_decode s of JDoc (JObj kvs) \<Rightarrow> assign_all [] (map (map_prod id inject_text) kvs) | _ \<Rightarrow> [])"

definition vault_label :: "ProviderConfig \<Rightarrow> string \<Rightarrow> string" where
  "vault_label provider slug =
     (let l = (case mget (auth_inject (p_AuthInjection provider)) ''vault_label'' of None \<Rightarrow> [] | Some v \<Rightarrow> v)
      in if l = [] then ''master_'' @ slug else l)"

text \<open>The envelope of a request, and the provider and operation it names.\<close>

definition route_envelope :: "RouteMatch \<Rightarrow> ctx \<Rightarrow> string \<Rightarrow> (RouteMatch \<times> QuarkGateEnvelope) result" where
  "route_envelope rm c body =
     (if rm_Operation rm = ''envelope''
      then (case ReadEnvelope (Inr body) of
              Inl e \<Rightarrow> Inl e
            | Inr e \<Rightarrow> Inr (rm\<lparr>rm_Provider := e_Provider e, rm_Operation := e_Operation e\<rparr>, e))
      else if rm_Compat rm \<and> rm_Provider rm = ''openrouter''
      then Inr (rm, \<lparr>e_QuarkgateVersion = ''1'', e_Provider = ''openrouter'', e_Operation = ''chat.completions.create'',
                     e_Payload = body, e_MeteringHints = None, e_TraceID = TraceID c\<rparr>)
      else Inr (rm, \<lparr>e_QuarkgateVersion = ''1'', e_Provider = rm_Provider rm, e_Operation = rm_Operation rm,
                     e_Payload = body, e_MeteringHints = None, e_TraceID = TraceID c\<rparr>))"

definition route_hold :: "ProviderConfig \<Rightarrow> QuarkGateEnvelope \<Rightarrow> DownstreamRequest \<Rightarrow> int" where
  "route_hold provider e ds =
     (let hold = (case e_MeteringHints e of
                    Some h \<Rightarrow> if mh_EstimatedMaxCredits h > 0 then i64 (mh_EstimatedMaxCredits h * 1000000) else dr_EstimateMicro ds
                  | None \<Rightarrow> dr_EstimateMicro ds)
      in if hold = 0 then EstimateMax (p_PricingModel provider) 0 10000000 else hold)"

definition route_context ::
    "RouteMatch \<Rightarrow> QuarkGateEnvelope \<Rightarrow> DownstreamRequest \<Rightarrow> int \<Rightarrow> string \<Rightarrow> string \<Rightarrow> ctx \<Rightarrow> ctx" where
  "route_context rm e ds hold credential baseURL c =
     WithProviderBaseURL baseURL (WithProviderCredential credential (WithHoldMicro hold
       (WithDownstream ds (WithEnvelope e (WithRoute rm c)))))"

definition Route_Wrap :: "genv \<Rightarrow> handler \<Rightarrow> handler" where
  "Route_Wrap g nxt r st =
     (case MatchRoute (ge_reg g) (rq_Method r) (rq_Path r) of
        Inl _ \<Rightarrow> reply_json 404 [(''error'', ''unknown route'')] st
      | Inr rm0 \<Rightarrow>
     (case rq_Body r of
        Inl _ \<Rightarrow> reply_json 400 [(''error'', ''read body'')] st
      | Inr body \<Rightarrow>
     (case route_envelope rm0 (rq_ctx r) body of
        Inl _ \<Rightarrow> reply_json 400 [(''error'', ''invalid envelope'')] st
      | Inr (rm, e) \<Rightarrow>
     (case on_pg (GetProviderBySlug (rm_Provider rm)) st of
        (Inl _, st1) \<Rightarrow> reply_json 404 [(''error'', ''provider not found'')] st1
      | (Inr provider, st1) \<Rightarrow>
     (case on_pg (vault_Get (ge_vault g) (rm_Provider rm) (vault_label provider (rm_Provider rm))) st1 of
        (Inl _, st2) \<Rightarrow> reply_json 503 [(''error'', ''credential unavailable'')] st2
      | (Inr credential, st2) \<Rightarrow>
     (let envelopeBytes = (case marshal_envelope e of None \<Rightarrow> [] | Some s \<Rightarrow> s)
      in case InvokePrepare (ge_host g) (ge_reg g) (rm_Provider rm) envelopeBytes credential (p_BaseURL provider) of
           Inl err \<Rightarrow> reply_json 400 [(''error'', ''transform failed''), (''detail'', Error err)] st2
         | Inr ds \<Rightarrow>
             nxt (WithContext r (route_context rm e ds (route_hold provider e ds) credential (p_BaseURL provider) (rq_ctx r)))
               st2))))))"

definition event_fields :: "MeteringEvent \<Rightarrow> gmap" where
  "event_fields ev =
     [(''request_id'', GStr (me_RequestID ev)), (''user_id'', GStr (me_UserID ev)), (''key_id'', GStr (me_KeyID ev)),
      (''provider'', GStr (me_Provider ev)), (''operation'', GStr (me_Operation ev)), (''status'', GStr (me_Status ev)),
      (''raw_usage'', GStr (me_RawUsage ev)), (''partial'', GBool (me_Partial ev)), (''duration_ms'', GInt (me_DurationMs ev)),
      (''timestamp'', GStr (me_Timestamp ev)), (''error'', GStr (me_Error ev)), (''hold_micro'', GInt64 (me_HoldMicro ev))] @
     (if me_IdempotencyKey ev \<noteq> [] then [(''idempotency_key'', GStr (me_IdempotencyKey ev))] else []) @
     (if me_Envelope ev \<noteq> [] then [(''envelope'', GStr (me_Envelope ev))] else [])"

definition gateway_EmitMeterEvent :: "MeteringEvent \<Rightarrow> gw \<Rightarrow> gw" where
  "gateway_EmitMeterEvent ev st = snd (on_rd (EmitMeterEvent (event_fields ev)) st)"

section \<open>idempotency.go\<close>

definition idempotencyTTL :: int where
  "idempotencyTTL = day"

record CachedResponse =
  cr_Status :: int
  cr_Headers :: "string gomap"
  cr_Body :: string

definition marshal_cached :: "CachedResponse \<Rightarrow> string" where
  "marshal_cached c =
     json_encode (JObj [(''status'', JInt (cr_Status c)),
       (''headers'', JObj (map (map_prod id JStr) (sort_key fst (cr_Headers c)))), (''body'', JStr (cr_Body c))])"

definition cached_fields :: "(string \<times> (CachedResponse \<Rightarrow> json \<Rightarrow> CachedResponse option)) list" where
  "cached_fields =
     [(''status'', \<lambda>r j. map_option (\<lambda>v. r\<lparr>cr_Status := v\<rparr>) (dec_int64 (cr_Status r) j)),
      (''headers'', \<lambda>r j. map_option (\<lambda>v. r\<lparr>cr_Headers := slice v\<rparr>) (dec_map dec_string [] (Some (cr_Headers r)) j)),
      (''body'', \<lambda>r j. map_option (\<lambda>v. r\<lparr>cr_Body := v\<rparr>) (dec_string (cr_Body r) j))]"

definition zero_cached :: CachedResponse where
  "zero_cached = \<lparr>cr_Status = 0, cr_Headers = [], cr_Body = []\<rparr>"

definition isStreamingRequest :: "ctx \<Rightarrow> bool" where
  "isStreamingRequest c \<longleftrightarrow>
     (case Downstream c of Some ds \<Rightarrow> dr_Streaming ds | None \<Rightarrow> False) \<or>
     (case Envelope c of
        None \<Rightarrow> False
      | Some e \<Rightarrow>
          (case unmarshal_map (json_decode (e_Payload e)) of
             (Some payload, False) \<Rightarrow> as_bool (mget payload ''stream'') = Some True
           | _ \<Rightarrow> False))"

definition getCached :: "string \<Rightarrow> gw \<Rightarrow> CachedResponse option result \<times> gw" where
  "getCached key st =
     (case on_rd (GetIdempotency key) st of
        (Inl e, st1) \<Rightarrow> (Inl e, st1)
      | (Inr None, st1) \<Rightarrow> (Inr None, st1)
      | (Inr (Some raw), st1) \<Rightarrow>
          (case unmarshal_struct cached_fields zero_cached (json_decode raw) of
             None \<Rightarrow> (Inl (ErrMsg ''json''), st1)
           | Some c \<Rightarrow> (Inr (Some c), st1)))"

fun replay_headers :: "string gomap \<Rightarrow> rwriter \<Rightarrow> rwriter" where
  "replay_headers [] w = w"
| "replay_headers ((k, v) # h) w = replay_headers h (if EqualFold k ''Content-Length'' then w else rw_Set k v w)"

definition replayCached :: "CachedResponse \<Rightarrow> gw \<Rightarrow> outcome \<times> gw" where
  "replayCached c st =
     (let st1 = on_w (replay_headers (cr_Headers c)) st
      in if valid_code (cr_Status c)
         then (Served, on_w (\<lambda>w. rw_Write (cr_Body c) (rw_WriteHeader (cr_Status c) w)) st1)
         else (Panicked ''invalid WriteHeader code'', st1))"

definition idempotencyCacheKey :: "string \<Rightarrow> string \<Rightarrow> string \<Rightarrow> string" where
  "idempotencyCacheKey userID clientKey path = userID @ '':'' @ clientKey @ '':'' @ path"

text \<open>Start a recorder around the writer; take it off again.\<close>

definition start_recorder :: "gw \<Rightarrow> gw" where
  "start_recorder st = on_w (\<lambda>w. w\<lparr>rw_rec := Some \<lparr>ir_body = [], ir_status = 200, ir_headers = []\<rparr>\<rparr>) st"

definition stop_recorder :: "gw \<Rightarrow> gw" where
  "stop_recorder st = on_w (\<lambda>w. w\<lparr>rw_rec := None\<rparr>) st"

definition store_response :: "string \<Rightarrow> gw \<Rightarrow> gw" where
  "store_response cacheKey st =
     (case rw_rec (gw_w st) of
        None \<Rightarrow> st
      | Some rc \<Rightarrow>
          if 200 \<le> ir_status rc \<and> ir_status rc < 300
          then snd (on_rd (SetIdempotency cacheKey
            (marshal_cached \<lparr>cr_Status = ir_status rc, cr_Headers = ir_headers rc, cr_Body = ir_body rc\<rparr>) idempotencyTTL) st)
          else st)"

definition record_response :: "handler \<Rightarrow> string option \<Rightarrow> handler" where
  "record_response nxt cacheKey r st =
     (case nxt r (start_recorder st) of
        (Served, st1) \<Rightarrow>
          (Served, stop_recorder (case cacheKey of None \<Rightarrow> st1 | Some k \<Rightarrow> store_response k st1))
      | (x, st1) \<Rightarrow> (x, st1))"

definition Idempotency_Wrap :: "genv \<Rightarrow> handler \<Rightarrow> handler" where
  "Idempotency_Wrap g nxt r0 st =
     (let clientKey = TrimSpace (header_Get (rq_Header r0) ''Idempotency-Key'');
          c = WithIdempotencyKey clientKey (rq_ctx r0);
          r = WithContext r0 c;
          userID = UserID c
      in if clientKey = [] then nxt r st
         else if isStreamingRequest c
         then reply_json 409 [(''error'', ''idempotency not supported for streaming requests'')] st
         else if userID = uuid_Nil then record_response nxt None r st
         else
           (let cacheKey = idempotencyCacheKey (ge_str g userID) clientKey (rq_Path r)
            in case getCached cacheKey st of
                 (Inr (Some cached), st1) \<Rightarrow> replayCached cached st1
               | (_, st1) \<Rightarrow> record_response nxt (Some cacheKey) r st1))"

text \<open>\<open>ReadAndRestoreBody\<close>: the body, and the request with the body put back.\<close>

definition ReadAndRestoreBody :: "Request \<Rightarrow> string result \<times> Request" where
  "ReadAndRestoreBody r = (rq_Body r, r)"

end
