(* ===== verification/Meter_Queue.thy ===== *)
theory Meter_Queue
  imports Redis
begin

text \<open>
  The metering stream as a work queue.  The gateway appends events, a worker of a consumer group takes
  new events, takes over events that another worker left pending, and acknowledges events.  The
  interface \<open>event_queue\<close> states what the ledger worker relies on: an event stays open until it is
  acknowledged, whichever calls are lost.  The interpretation \<open>mq\<close> discharges it for the commands
  of the client.
\<close>

section \<open>The interface\<close>

datatype 'e queue_op = Emit 'e | Take string nat | TakeOver string int nat | Ack nat

locale event_queue =
  fixes inv :: "'s \<Rightarrow> bool"
    and open_ids :: "'s \<Rightarrow> nat set"
    and emit :: "'e \<Rightarrow> 's \<Rightarrow> 's"
    and take_new :: "string \<Rightarrow> nat \<Rightarrow> 's \<Rightarrow> 's"
    and take_over :: "string \<Rightarrow> int \<Rightarrow> nat \<Rightarrow> 's \<Rightarrow> 's"
    and ack :: "nat \<Rightarrow> 's \<Rightarrow> 's"
  assumes emit_inv: "inv s \<Longrightarrow> inv (emit e s)"
    and emit_open: "inv s \<Longrightarrow> open_ids s \<subseteq> open_ids (emit e s)"
    and take_inv: "inv s \<Longrightarrow> inv (take_new c n s)"
    and take_open: "inv s \<Longrightarrow> open_ids (take_new c n s) = open_ids s"
    and over_inv: "inv s \<Longrightarrow> inv (take_over c d n s)"
    and over_open: "inv s \<Longrightarrow> open_ids (take_over c d n s) = open_ids s"
    and ack_inv: "inv s \<Longrightarrow> inv (ack i s)"
    and ack_open: "inv s \<Longrightarrow> open_ids s - {i} \<subseteq> open_ids (ack i s)"
begin

fun run_op :: "'e queue_op \<Rightarrow> 's \<Rightarrow> 's" where
  "run_op (Emit e) s = emit e s"
| "run_op (Take c n) s = take_new c n s"
| "run_op (TakeOver c d n) s = take_over c d n s"
| "run_op (Ack i) s = ack i s"

lemma run_op_inv: "inv s \<Longrightarrow> inv (run_op x s)"
  by (cases x) (simp_all add: emit_inv take_inv over_inv ack_inv)

lemma run_op_open: "inv s \<Longrightarrow> i \<in> open_ids s \<Longrightarrow> x \<noteq> Ack i \<Longrightarrow> i \<in> open_ids (run_op x s)"
proof (cases x)
  case (Emit e)
  then show "inv s \<Longrightarrow> i \<in> open_ids s \<Longrightarrow> ?thesis" using emit_open by auto
next
  case (Ack j)
  then show "inv s \<Longrightarrow> i \<in> open_ids s \<Longrightarrow> x \<noteq> Ack i \<Longrightarrow> ?thesis" using ack_open [of s j] by auto
qed (simp_all add: take_open over_open)

lemma run_open:
  "inv s \<Longrightarrow> i \<in> open_ids s \<Longrightarrow> Ack i \<notin> set xs \<Longrightarrow> i \<in> open_ids (fold run_op xs s)"
proof (induction xs arbitrary: s)
  case Nil
  then show ?case by simp
next
  case (Cons x xs)
  then show ?case using run_op_inv [of s x] run_op_open [of s i x] by auto
qed

end

section \<open>The stream as a queue\<close>

definition entry_ids :: "rstream \<Rightarrow> nat list" where
  "entry_ids x = map fst (st_entries x)"

definition group_ok :: "rstream \<Rightarrow> rgroup \<Rightarrow> bool" where
  "group_ok x g \<longleftrightarrow> rg_last g \<le> st_last x \<and> (\<forall>p \<in> set (rg_pel g). pe_id p \<in> set (entry_ids x) \<and> pe_id p \<le> rg_last g)"

definition queue_inv :: "string \<Rightarrow> redis \<Rightarrow> bool" where
  "queue_inv grp s \<longleftrightarrow>
     (let x = stream_of MeterStreamKey s
      in sorted_wrt (<) (entry_ids x) \<and> (\<forall>i \<in> set (entry_ids x). i \<le> st_last x) \<and>
         (case group_of grp x of None \<Rightarrow> False | Some g \<Rightarrow> group_ok x g))"

text \<open>The entries the group still has to deal with: not delivered yet, or delivered and pending.\<close>

definition group_open :: "rstream \<Rightarrow> rgroup \<Rightarrow> nat set" where
  "group_open x g = {i \<in> set (entry_ids x). rg_last g < i \<or> i \<in> pe_id ` set (rg_pel g)}"

definition open_events :: "string \<Rightarrow> redis \<Rightarrow> nat set" where
  "open_events grp s =
     (let x = stream_of MeterStreamKey s in case group_of grp x of None \<Rightarrow> {} | Some g \<Rightarrow> group_open x g)"

lemma stream_of_set [simp]: "stream_of k (set_stream k x s) = x"
  by (simp add: stream_of_def set_stream_def update_conv')

lemma stream_of_fates [simp]: "stream_of k (s\<lparr>rd_fates := fs\<rparr>) = stream_of k s"
  by (simp add: stream_of_def)

lemma group_of_set [simp]: "group_of g (set_group g r x) = Some r"
  by (simp add: group_of_def set_group_def update_conv')

lemma set_group_simps [simp]:
  "st_entries (set_group g r x) = st_entries x" "st_last (set_group g r x) = st_last x"
  "entry_ids (set_group g r x) = entry_ids x"
  by (simp_all add: set_group_def entry_ids_def)

lemma queue_fates [simp]:
  "queue_inv grp (s\<lparr>rd_fates := fs\<rparr>) = queue_inv grp s"
  "open_events grp (s\<lparr>rd_fates := fs\<rparr>) = open_events grp s"
  by (simp_all add: queue_inv_def open_events_def)

text \<open>A call either does nothing to the server or does what its command does.\<close>

lemma rd_call_effect:
  "snd (rd_call q s) = s\<lparr>rd_fates := tl (rd_fates s)\<rparr> \<or>
   snd (rd_call q s) = snd (q (s\<lparr>rd_fates := tl (rd_fates s)\<rparr>))"
  by (cases "fst (next_fate (rd_fates s))") (simp_all add: rd_call_def Let_def)

definition cmd_ok :: "string \<Rightarrow> (nat set \<Rightarrow> nat set \<Rightarrow> bool) \<Rightarrow> 'a rcmd \<Rightarrow> bool" where
  "cmd_ok grp R q \<longleftrightarrow>
     (\<forall>s. queue_inv grp s \<longrightarrow> queue_inv grp (snd (q s)) \<and> R (open_events grp s) (open_events grp (snd (q s))))"

lemma cmd_ok_call:
  assumes "cmd_ok grp R q" and "\<And>A. R A A"
  shows "cmd_ok grp R (rd_call q)"
  unfolding cmd_ok_def
proof (intro allI impI)
  fix s
  assume "queue_inv grp s"
  then have "queue_inv grp (s\<lparr>rd_fates := tl (rd_fates s)\<rparr>)" by simp
  with assms(1) have "queue_inv grp (snd (q (s\<lparr>rd_fates := tl (rd_fates s)\<rparr>))) \<and>
      R (open_events grp s) (open_events grp (snd (q (s\<lparr>rd_fates := tl (rd_fates s)\<rparr>))))"
    unfolding cmd_ok_def by (metis queue_fates(2))
  with \<open>queue_inv grp s\<close> assms(2) rd_call_effect [of q s]
  show "queue_inv grp (snd (rd_call q s)) \<and> R (open_events grp s) (open_events grp (snd (rd_call q s)))"
    by auto
qed

lemma cmd_ok_inv: "cmd_ok grp R q \<Longrightarrow> queue_inv grp s \<Longrightarrow> queue_inv grp (snd (q s))"
  by (simp add: cmd_ok_def)

lemma cmd_ok_open:
  "cmd_ok grp R q \<Longrightarrow> queue_inv grp s \<Longrightarrow> R (open_events grp s) (open_events grp (snd (q s)))"
  by (simp add: cmd_ok_def)

lemma queue_invD:
  assumes "queue_inv grp s"
  obtains x g where "stream_of MeterStreamKey s = x" "group_of grp x = Some g" "sorted_wrt (<) (entry_ids x)"
    "\<forall>i \<in> set (entry_ids x). i \<le> st_last x" "group_ok x g"
    "open_events grp s = group_open x g"
  using assms by (auto simp: queue_inv_def open_events_def Let_def split: option.splits)

lemma queue_invI:
  "sorted_wrt (<) (entry_ids x) \<Longrightarrow> \<forall>i \<in> set (entry_ids x). i \<le> st_last x \<Longrightarrow>
   group_of grp x = Some g \<Longrightarrow> group_ok x g \<Longrightarrow>
   queue_inv grp (set_stream MeterStreamKey x s) \<and> open_events grp (set_stream MeterStreamKey x s) = group_open x g"
  by (simp add: queue_inv_def open_events_def)

lemma xadd_ok: "cmd_ok grp (\<subseteq>) (xadd MeterStreamKey flds)"
  unfolding cmd_ok_def
proof (intro allI impI)
  fix s
  assume "queue_inv grp s"
  then obtain x g where x: "stream_of MeterStreamKey s = x" "group_of grp x = Some g" "sorted_wrt (<) (entry_ids x)"
      "\<forall>i \<in> set (entry_ids x). i \<le> st_last x" "group_ok x g"
    and o: "open_events grp s = group_open x g" by (rule queue_invD)
  show "queue_inv grp (snd (xadd MeterStreamKey flds s)) \<and>
      open_events grp s \<subseteq> open_events grp (snd (xadd MeterStreamKey flds s))"
  proof (cases "xadd_fields flds")
    case None
    with \<open>queue_inv grp s\<close> show ?thesis by (simp add: xadd_def)
  next
    case (Some fs)
    let ?x = "x\<lparr>st_entries := st_entries x @ [(Suc (st_last x), fs)], st_last := Suc (st_last x)\<rparr>"
    have ids: "entry_ids ?x = entry_ids x @ [Suc (st_last x)]" by (simp add: entry_ids_def)
    have "queue_inv grp (set_stream MeterStreamKey ?x s) \<and>
        open_events grp (set_stream MeterStreamKey ?x s) = group_open ?x g"
      using x by (intro queue_invI) (auto simp: ids sorted_wrt_append less_Suc_eq_le group_of_def group_ok_def le_SucI)
    moreover have "group_open x g \<subseteq> group_open ?x g" by (auto simp: group_open_def ids)
    ultimately show ?thesis using Some x o by (simp add: xadd_def)
  qed
qed

text \<open>The new entries a read delivers are the oldest of the undelivered ones.\<close>

lemma taken_prefix:
  fixes es :: "(nat \<times> 'a) list"
  assumes "sorted_wrt (<) (map fst es)" "take n (filter (\<lambda>e. l < fst e) es) = t" "t \<noteq> []"
  shows "{i \<in> fst ` set es. l < i} = fst ` set t \<union> {i \<in> fst ` set es. fst (last t) < i}"
    and "\<forall>e \<in> set t. e \<in> set es \<and> l < fst e \<and> fst e \<le> fst (last t)"
proof -
  let ?f = "filter (\<lambda>e. l < fst e) es"
  obtain r where f: "?f = t @ r" using assms(2) append_take_drop_id [of n ?f] by metis
  obtain u where t: "t = u @ [last t]" using assms(3) append_butlast_last_id by metis
  have "sorted_wrt (\<lambda>a b. fst a < fst b) ?f"
    using assms(1) by (intro sorted_wrt_filter) (simp add: sorted_wrt_map)
  then have st: "sorted_wrt (\<lambda>a b. fst a < fst b) t"
    and gt: "\<forall>a \<in> set t. \<forall>b \<in> set r. fst a < fst b"
    unfolding f sorted_wrt_append by auto
  from st have "\<forall>a \<in> set u. fst a < fst (last t)" by (subst (asm) t) (auto simp: sorted_wrt_append)
  then have le: "\<forall>e \<in> set t. fst e \<le> fst (last t)" by (subst t) (auto simp: less_imp_le simp del: append_butlast_last_id)
  have mem: "set t \<union> set r = {e \<in> set es. l < fst e}" using f set_filter by (metis set_append)
  show "\<forall>e \<in> set t. e \<in> set es \<and> l < fst e \<and> fst e \<le> fst (last t)" using le mem by auto
  have r: "\<forall>b \<in> set r. fst (last t) < fst b" using gt assms(3) by simp
  show "{i \<in> fst ` set es. l < i} = fst ` set t \<union> {i \<in> fst ` set es. fst (last t) < i}"
  proof (intro set_eqI iffI)
    fix i assume "i \<in> {i \<in> fst ` set es. l < i}"
    then obtain e where "e \<in> set t \<union> set r" "i = fst e" unfolding mem by auto
    then show "i \<in> fst ` set t \<union> {i \<in> fst ` set es. fst (last t) < i}" using r mem by auto
  next
    fix i assume i: "i \<in> fst ` set t \<union> {i \<in> fst ` set es. fst (last t) < i}"
    have memD: "e \<in> set es \<and> l < fst e" if "e \<in> set t" for e using that mem by auto
    have "l < fst (last t)" using memD last_in_set [OF assms(3)] by blast
    with i memD show "i \<in> {i \<in> fst ` set es. l < i}" by auto
  qed
qed

definition deliver :: "string \<Rightarrow> instant \<Rightarrow> (nat \<times> string gomap) list \<Rightarrow> rgroup \<Rightarrow> rgroup" where
  "deliver consumer now es g =
     \<lparr>rg_last = fst (last es),
      rg_pel = rg_pel g @ map (\<lambda>e. \<lparr>pe_id = fst e, pe_consumer = consumer, pe_time = now, pe_count = 1\<rparr>) es\<rparr>"

lemma deliver_pel: "pe_id ` set (rg_pel (deliver c n es g)) = pe_id ` set (rg_pel g) \<union> fst ` set es"
  by (simp add: deliver_def image_Un image_image)

lemma deliver_ok:
  assumes "group_ok x g" "\<forall>i \<in> set (entry_ids x). i \<le> st_last x" "es \<noteq> []"
    and new: "{i \<in> set (entry_ids x). rg_last g < i} = fst ` set es \<union> {i \<in> set (entry_ids x). fst (last es) < i}"
    and le: "\<forall>e \<in> set es. fst e \<le> fst (last es)"
  shows "group_ok x (deliver c n es g)" and "group_open x (deliver c n es g) = group_open x g"
proof -
  let ?A = "set (entry_ids x)" and ?P = "pe_id ` set (rg_pel g)" and ?g = "deliver c n es g"
  have T: "i \<in> fst ` set es \<Longrightarrow> i \<in> ?A \<and> rg_last g < i" for i using new by blast
  have l: "fst (last es) \<in> ?A" "rg_last g < fst (last es)" using T last_in_set [OF assms(3)] by blast+
  have gl: "rg_last ?g = fst (last es)" by (simp add: deliver_def)
  show "group_ok x ?g"
    unfolding group_ok_def
  proof (intro conjI ballI)
    show "rg_last ?g \<le> st_last x" using l(1) assms(2) gl by simp
    fix p
    assume "p \<in> set (rg_pel ?g)"
    then have "pe_id p \<in> ?P \<union> fst ` set es" using deliver_pel by blast
    then show "pe_id p \<in> ?A" "pe_id p \<le> rg_last ?g"
      using assms(1) l(2) le T gl unfolding group_ok_def by fastforce+
  qed
  have "group_open x ?g = {i \<in> ?A. fst (last es) < i} \<union> (?A \<inter> (?P \<union> fst ` set es))"
    unfolding group_open_def deliver_pel gl by blast
  also have "\<dots> = (fst ` set es \<union> {i \<in> ?A. fst (last es) < i}) \<union> (?A \<inter> ?P)" using T by blast
  also have "\<dots> = {i \<in> ?A. rg_last g < i} \<union> (?A \<inter> ?P)" by (simp only: new)
  also have "\<dots> = group_open x g" unfolding group_open_def by blast
  finally show "group_open x ?g = group_open x g" .
qed

lemma take_ok: "cmd_ok grp (=) (ReadMeterEvents grp consumer count)"
  unfolding ReadMeterEvents_def
proof (rule cmd_ok_call, unfold cmd_ok_def, intro allI impI, goal_cases)
  case (1 s)
  then obtain x g where x: "stream_of MeterStreamKey s = x" "group_of grp x = Some g"
      "sorted_wrt (<) (entry_ids x)" "\<forall>i \<in> set (entry_ids x). i \<le> st_last x" "group_ok x g"
    and o: "open_events grp s = group_open x g" by (rule queue_invD)
  define es where es: "es = take count (filter (\<lambda>e. rg_last g < fst e) (st_entries x))"
  show ?case
  proof (cases "es = []")
    case True
    with 1 x es show ?thesis by simp
  next
    case False
    note tp = taken_prefix [OF x(3) [unfolded entry_ids_def] es [symmetric] False]
    let ?g = "deliver consumer (rd_now s) es g"
    have "{i \<in> set (entry_ids x). rg_last g < i} = fst ` set es \<union> {i \<in> set (entry_ids x). fst (last es) < i}"
      using tp(1) by (simp add: entry_ids_def)
    moreover have "\<forall>e \<in> set es. fst e \<le> fst (last es)" using tp(2) by blast
    ultimately have "group_ok x ?g" "group_open x ?g = group_open x g"
      by (rule deliver_ok [OF x(5,4) False])+
    then have "group_ok (set_group grp ?g x) ?g" "group_open (set_group grp ?g x) ?g = group_open x g"
      by (simp_all add: group_ok_def group_open_def)
    with queue_invI [of "set_group grp ?g x" grp ?g s] x o False show ?thesis
      by (simp add: Let_def es [symmetric] deliver_def)
  qed
qed simp

lemma group_upd_ok:
  assumes "queue_inv grp s" "stream_of MeterStreamKey s = x" "group_of grp x = Some g"
    and "pe_id ` set (rg_pel g') \<subseteq> pe_id ` set (rg_pel g)" "rg_last g' = rg_last g"
  shows "queue_inv grp (set_stream MeterStreamKey (set_group grp g' x) s)"
    and "open_events grp (set_stream MeterStreamKey (set_group grp g' x) s) =
      open_events grp s - (pe_id ` set (rg_pel g) - pe_id ` set (rg_pel g'))"
proof -
  from assms(1-3) have x: "sorted_wrt (<) (entry_ids x)" "\<forall>i \<in> set (entry_ids x). i \<le> st_last x" "group_ok x g"
    and o: "open_events grp s = group_open x g"
    by (auto elim: queue_invD)
  have "group_ok (set_group grp g' x) g'"
    using x(3) assms(4,5) unfolding group_ok_def by (force simp: subset_iff)
  with queue_invI [of "set_group grp g' x" grp g' s] x
  have q: "queue_inv grp (set_stream MeterStreamKey (set_group grp g' x) s) \<and>
      open_events grp (set_stream MeterStreamKey (set_group grp g' x) s) = group_open (set_group grp g' x) g'"
    by simp
  moreover have "group_open (set_group grp g' x) g' =
      group_open x g - (pe_id ` set (rg_pel g) - pe_id ` set (rg_pel g'))"
    using x(3) assms(4,5) by (auto simp: group_open_def group_ok_def)
  ultimately show "queue_inv grp (set_stream MeterStreamKey (set_group grp g' x) s)"
    and "open_events grp (set_stream MeterStreamKey (set_group grp g' x) s) =
      open_events grp s - (pe_id ` set (rg_pel g) - pe_id ` set (rg_pel g'))"
    using o by simp_all
qed

lemma claim_id [simp]: "pe_id (claim ids c s p) = pe_id p"
  by (simp add: claim_def)

lemma over_ok: "cmd_ok grp (=) (AutoClaimMeterEvents grp consumer minIdle count)"
  unfolding AutoClaimMeterEvents_def
proof (rule cmd_ok_call, unfold cmd_ok_def, intro allI impI, goal_cases)
  case (1 s)
  then obtain x g where x: "stream_of MeterStreamKey s = x" "group_of grp x = Some g" by (rule queue_invD)
  let ?ids = "take count (map pe_id (filter (claimable minIdle s) (rg_pel g)))"
  let ?g = "g\<lparr>rg_pel := map (claim ?ids consumer s) (rg_pel g)\<rparr>"
  have "pe_id ` set (rg_pel ?g) = pe_id ` set (rg_pel g)" by (simp add: image_image)
  with group_upd_ok [OF 1 x, of ?g] x show ?case by (simp add: Let_def)
qed simp

lemma ack_ok: "cmd_ok grp (\<lambda>A B. A - {i} \<subseteq> B) (AckMeterEvent grp i)"
  unfolding AckMeterEvent_def
proof (rule cmd_ok_call, unfold cmd_ok_def, intro allI impI, goal_cases)
  case (1 s)
  then obtain x g where x: "stream_of MeterStreamKey s = x" "group_of grp x = Some g" by (rule queue_invD)
  let ?g = "g\<lparr>rg_pel := filter (\<lambda>p. pe_id p \<noteq> i) (rg_pel g)\<rparr>"
  have "pe_id ` set (rg_pel ?g) \<subseteq> pe_id ` set (rg_pel g)"
    "pe_id ` set (rg_pel g) - pe_id ` set (rg_pel ?g) \<subseteq> {i}" by auto
  with group_upd_ok [OF 1 x, of ?g] x show ?case by (auto simp: Let_def)
qed auto

lemma emit_ok: "cmd_ok grp (\<subseteq>) (EmitMeterEvent flds)"
  unfolding EmitMeterEvent_def by (rule cmd_ok_call [OF xadd_ok]) simp

interpretation mq: event_queue "queue_inv grp" "open_events grp" "\<lambda>e s. snd (EmitMeterEvent e s)"
    "\<lambda>c n s. snd (ReadMeterEvents grp c n s)" "\<lambda>c d n s. snd (AutoClaimMeterEvents grp c d n s)"
    "\<lambda>i s. snd (AckMeterEvent grp i s)" for grp
  by unfold_locales
    (simp_all add: cmd_ok_inv [OF emit_ok] cmd_ok_inv [OF take_ok] cmd_ok_inv [OF over_ok] cmd_ok_inv [OF ack_ok]
      cmd_ok_open [OF emit_ok] cmd_ok_open [OF take_ok, symmetric] cmd_ok_open [OF over_ok, symmetric]
      cmd_ok_open [OF ack_ok])

section \<open>Properties\<close>

text \<open>The commands on the stream, in any order.\<close>

fun queue_step :: "string \<Rightarrow> gmap queue_op \<Rightarrow> redis \<Rightarrow> redis" where
  "queue_step grp (Emit e) s = snd (EmitMeterEvent e s)"
| "queue_step grp (Take c n) s = snd (ReadMeterEvents grp c n s)"
| "queue_step grp (TakeOver c d n) s = snd (AutoClaimMeterEvents grp c d n s)"
| "queue_step grp (Ack i) s = snd (AckMeterEvent grp i s)"

lemma queue_step_run: "queue_step grp = mq.run_op grp"
proof (intro ext)
  fix x s
  show "queue_step grp x s = mq.run_op grp x s" by (cases x) simp_all
qed

text \<open>
  C13. No metering event is lost in the stream: once an event is open for the consumer group (appended
  and not acknowledged), it stays open through every sequence of appends, reads, takeovers and
  acknowledgements by any consumers in which that very event is not acknowledged, whichever of the
  calls are lost on the way.
\<close>

theorem meter_event_not_lost:
  assumes "queue_inv grp s" and "i \<in> open_events grp s" and "Ack i \<notin> set ops"
  shows "i \<in> open_events grp (fold (queue_step grp) ops s)"
  unfolding queue_step_run by (rule mq.run_open [OF assms])

definition demo_event :: gmap where
  "demo_event = [(''request_id'', GStr ''r1''), (''hold_micro'', GInt64 10)]"

definition demo_queue :: redis where
  "demo_queue = snd (EmitMeterEvent demo_event (snd (CreateConsumerGroup ''g'' empty_redis)))"

theorem meter_event_not_lost_witness:
  "1 \<in> open_events ''g'' (fold (queue_step ''g'') [Take ''w1'' 10, Emit demo_event, Ack 2, TakeOver ''w2'' 0 10] demo_queue)"
proof -
  have "stream_of MeterStreamKey demo_queue =
      \<lparr>st_entries = [(1, [(''request_id'', ''r1''), (''hold_micro'', ''10'')])], st_last = 1,
       st_groups = [(''g'', \<lparr>rg_last = 0, rg_pel = []\<rparr>)]\<rparr>"
    by code_simp
  then have "queue_inv ''g'' demo_queue" "1 \<in> open_events ''g'' demo_queue"
    by (simp_all add: queue_inv_def open_events_def group_of_def entry_ids_def group_ok_def group_open_def)
  then show ?thesis by (rule meter_event_not_lost) simp
qed

text \<open>
  Replaying the dead letter queue: when Redis answers, a dead letter that is replayed is appended
  to the stream with the same fields, under a new identifier, and is open for the consumer group.
\<close>

theorem dlq_replay_reopens:
  assumes "queue_inv grp s" and "rd_fates s = []" and "xadd_fields flds = Some fs"
  shows "Suc (st_last (stream_of MeterStreamKey s)) \<in> open_events grp (snd (ReplayDLQEntry flds s)) \<and>
    (Suc (st_last (stream_of MeterStreamKey s)), fs) \<in>
      set (st_entries (stream_of MeterStreamKey (snd (ReplayDLQEntry flds s))))"
proof -
  from assms(1) obtain x g where x: "stream_of MeterStreamKey s = x" "group_of grp x = Some g"
      "\<forall>i \<in> set (entry_ids x). i \<le> st_last x" "group_ok x g" by (rule queue_invD)
  have "set_stream k y (t\<lparr>rd_fates := []\<rparr>) = (set_stream k y t)\<lparr>rd_fates := []\<rparr>" for k y t
    by (simp add: set_stream_def)
  then show ?thesis
    using assms(2,3) x
    by (simp add: ReplayDLQEntry_def EmitMeterEvent_def rd_call_def xadd_def Let_def open_events_def
        group_of_def group_open_def entry_ids_def group_ok_def)
qed

theorem dlq_replay_reopens_witness:
  "2 \<in> open_events ''g'' (snd (ReplayDLQEntry [(''request_id'', GStr ''r9'')] demo_queue))"
proof -
  have st: "stream_of MeterStreamKey demo_queue =
      \<lparr>st_entries = [(1, [(''request_id'', ''r1''), (''hold_micro'', ''10'')])], st_last = 1,
       st_groups = [(''g'', \<lparr>rg_last = 0, rg_pel = []\<rparr>)]\<rparr>"
    by code_simp
  then have "queue_inv ''g'' demo_queue"
    by (simp add: queue_inv_def group_of_def entry_ids_def group_ok_def)
  moreover have "rd_fates demo_queue = []" by code_simp
  moreover have "xadd_fields [(''request_id'', GStr ''r9'')] = Some [(''request_id'', ''r9'')]"
    by (simp add: xadd_fields_def)
  ultimately show ?thesis using dlq_replay_reopens [of "''g''" demo_queue "[(''request_id'', GStr ''r9'')]" "[(''request_id'', ''r9'')]"]
    by (simp add: st numeral_2_eq_2)
qed

end
