(* ===== verification/Admin.thy ===== *)
theory Admin
  imports Gateway Meter_Queue
begin

text \<open>
  The administration tool (\<open>cmd/admin/main.go\<close>) and the schema migrations every process runs first
  (\<open>internal/db/db.go\<close>, \<open>migrate_fs.go\<close>).  A command is a function on the two servers; its result is the
  lines it prints and the error it dies of, if any (\<open>log.Fatal\<close>).
\<close>

section \<open>db.go\<close>

text \<open>
  \<open>read\<close> is \<open>os.ReadFile\<close>, \<open>script\<close> what PostgreSQL makes of a script: a script of several statements
  is one implicit transaction, so an error leaves the tables alone.
\<close>

definition run_script :: "(string \<Rightarrow> tables \<Rightarrow> tables result) \<Rightarrow> string \<Rightarrow> unit stmt" where
  "run_script script data =
     pg_call (\<lambda>d. case script data (pg_tabs d) of Inl e \<Rightarrow> (Inl e, d) | Inr T \<Rightarrow> (Inr (), d\<lparr>pg_tabs := T\<rparr>))"

definition record_migration :: "string \<Rightarrow> unit stmt" where
  "record_migration path =
     pg_call (\<lambda>d.
       let T = pg_tabs d
       in if path \<in> set (t_migrations T) then (Inl (ErrUnique ''schema_migrations_pkey''), d)
          else (Inr (), d\<lparr>pg_tabs := T\<lparr>t_migrations := t_migrations T @ [path]\<rparr>\<rparr>))"

definition migration_applied :: "string \<Rightarrow> bool stmt" where
  "migration_applied path = pg_call (\<lambda>d. (Inr (path \<in> set (t_migrations (pg_tabs d))), d))"

definition readMigration :: "(string \<Rightarrow> string result) \<Rightarrow> string \<Rightarrow> string result" where
  "readMigration read path = read path"

definition wrap_err :: "string \<Rightarrow> 'a stmt \<Rightarrow> 'a stmt" where
  "wrap_err s q d = (case q d of (Inl e, d1) \<Rightarrow> (Inl (ErrWrap s e), d1) | (Inr x, d1) \<Rightarrow> (Inr x, d1))"

fun migrate_paths ::
    "(string \<Rightarrow> string result) \<Rightarrow> (string \<Rightarrow> tables \<Rightarrow> tables result) \<Rightarrow> string list \<Rightarrow> unit stmt" where
  "migrate_paths read script [] d = (Inr (), d)"
| "migrate_paths read script (path # paths) d =
     (case wrap_err (''migrate check '' @ path) (migration_applied path) d of
        (Inl e, d1) \<Rightarrow> (Inl e, d1)
      | (Inr True, d1) \<Rightarrow> migrate_paths read script paths d1
      | (Inr False, d1) \<Rightarrow>
          (case readMigration read path of
             Inl e \<Rightarrow> (Inl e, d1)
           | Inr data \<Rightarrow>
               (case wrap_err (''migrate '' @ path) (run_script script data) d1 of
                  (Inl e, d2) \<Rightarrow> (Inl e, d2)
                | (Inr _, d2) \<Rightarrow>
                    (case wrap_err (''migrate record '' @ path) (record_migration path) d2 of
                       (Inl e, d3) \<Rightarrow> (Inl e, d3)
                     | (Inr _, d3) \<Rightarrow> migrate_paths read script paths d3))))"

text \<open>\<open>CREATE TABLE IF NOT EXISTS schema_migrations\<close> changes nothing here: the table is part of the record.\<close>

definition Migrate ::
    "(string \<Rightarrow> string result) \<Rightarrow> (string \<Rightarrow> tables \<Rightarrow> tables result) \<Rightarrow> string list \<Rightarrow> unit stmt" where
  "Migrate read script paths =
     and_then (wrap_err ''migrate schema_migrations'' (pg_call (stmt_return ())))
       (\<lambda>_. migrate_paths read script paths)"

definition migration_files :: "string list" where
  "migration_files = [''migrations/001_initial.sql'', ''migrations/002_seed_providers.sql'',
     ''migrations/003_usage_ledger_links.sql'']"

section \<open>The tool\<close>

text \<open>
  What a run of the tool meets: its random bytes, the clock in nanoseconds, the scanner of numbers
  \<open>fmt.Sscan\<close>, and the JSON text of a usage log (which contains calendar times).
\<close>

record aenv =
  ae_host :: host
  ae_parse :: "string \<Rightarrow> uuid option"
  ae_str :: "uuid \<Rightarrow> string"
  ae_crypto :: crypto
  ae_vault :: Vault
  ae_KEK :: string
  ae_DriversPath :: string
  ae_NodePath :: string
  ae_rand :: "string result"
  ae_now :: int
  ae_Sscan :: "string \<Rightarrow> int result"
  ae_usage_json :: "UsageLog \<Rightarrow> string"

type_synonym servers = "pg \<times> redis"

record exit =
  ex_out :: "string list"
  ex_err :: "goerr option"

type_synonym command = "aenv \<Rightarrow> string list \<Rightarrow> servers \<Rightarrow> exit \<times> servers"

definition prints :: "string list \<Rightarrow> servers \<Rightarrow> exit \<times> servers" where
  "prints ls s = (\<lparr>ex_out = ls, ex_err = None\<rparr>, s)"

definition fatal :: "goerr \<Rightarrow> servers \<Rightarrow> exit \<times> servers" where
  "fatal e s = (\<lparr>ex_out = [], ex_err = Some e\<rparr>, s)"

text \<open>\<open>x, err := call; if err != nil { log.Fatal(err) }\<close> on the database, and on a value.\<close>

definition try_pg :: "'a stmt \<Rightarrow> servers \<Rightarrow> ('a \<Rightarrow> servers \<Rightarrow> exit \<times> servers) \<Rightarrow> exit \<times> servers" where
  "try_pg q s f = (case q (fst s) of (Inl e, d) \<Rightarrow> fatal e (d, snd s) | (Inr x, d) \<Rightarrow> f x (d, snd s))"

definition try_rd :: "'a rcmd \<Rightarrow> servers \<Rightarrow> ('a \<Rightarrow> servers \<Rightarrow> exit \<times> servers) \<Rightarrow> exit \<times> servers" where
  "try_rd q s f = (case q (snd s) of (Inl e, k) \<Rightarrow> fatal e (fst s, k) | (Inr x, k) \<Rightarrow> f x (fst s, k))"

definition try_val :: "'a result \<Rightarrow> servers \<Rightarrow> ('a \<Rightarrow> servers \<Rightarrow> exit \<times> servers) \<Rightarrow> exit \<times> servers" where
  "try_val r s f = (case r of Inl e \<Rightarrow> fatal e s | Inr x \<Rightarrow> f x s)"

definition try_uuid :: "aenv \<Rightarrow> string \<Rightarrow> servers \<Rightarrow> (uuid \<Rightarrow> servers \<Rightarrow> exit \<times> servers) \<Rightarrow> exit \<times> servers" where
  "try_uuid a t s f = (case ae_parse a t of None \<Rightarrow> fatal (ErrMsg ''invalid UUID'') s | Some i \<Rightarrow> f i s)"

definition usage_error :: "string \<Rightarrow> servers \<Rightarrow> exit \<times> servers" where
  "usage_error t = fatal (ErrMsg (''usage: admin '' @ t))"

text \<open>A Redis call whose error is ignored.\<close>

definition also_rd :: "'a rcmd \<Rightarrow> servers \<Rightarrow> servers" where
  "also_rd q s = (fst s, snd (q (snd s)))"

definition parseCredits :: "aenv \<Rightarrow> string \<Rightarrow> int result" where
  "parseCredits a s =
     (case ae_Sscan a s of Inl e \<Rightarrow> Inl e | Inr credits \<Rightarrow> Inr (i64 (credits * 1000000)))"

definition cacheAPIKey :: "aenv \<Rightarrow> string \<Rightarrow> string \<Rightarrow> QuarkGateKey \<Rightarrow> unit rcmd" where
  "cacheAPIKey a pepper token k s =
     (case KeyToCache (ae_str a) k of
        Inl e \<Rightarrow> (Inl e, s)
      | Inr cached \<Rightarrow>
          (let mac = HMACHash (ae_crypto a) token pepper
           in case SetKeyMeta mac cached s of
                (Inl e, s1) \<Rightarrow> (Inl e, s1)
              | (Inr _, s1) \<Rightarrow> SetKeyIDIndex (ae_str a (k_ID k)) mac s1))"

subsection \<open>Commands\<close>

text \<open>The arguments are those after the name of the command.\<close>

definition cmd_create_user :: command where
  "cmd_create_user a args s =
     (case args of
        email # _ \<Rightarrow> try_pg (CreateUser email) s (\<lambda>u. prints [''user_id='' @ ae_str a (u_ID u) @ '' email='' @ u_Email u])
      | _ \<Rightarrow> usage_error ''create-user <email>'' s)"

definition cmd_deposit_credits :: command where
  "cmd_deposit_credits a args s =
     (case args of
        u # c # _ \<Rightarrow>
          try_uuid a u s (\<lambda>userID s. try_val (parseCredits a c) s (\<lambda>credits s.
            try_pg (DepositCredits userID credits (''deposit-'' @ show_int (ae_now a))) s
              (\<lambda>bal. prints [''balance_micro='' @ show_int bal])))
      | _ \<Rightarrow> usage_error ''deposit-credits <user_id> <credits>'' s)"

definition all_scopes :: RawMessage where
  "all_scopes = ''['' @ [CHR 0x22] @ ''*'' @ [CHR 0x22] @ '']''"

definition cmd_create_key :: command where
  "cmd_create_key a args s =
     (case args of
        u # name # _ \<Rightarrow>
          try_uuid a u s (\<lambda>userID s. try_val (Generate (ae_crypto a) (ae_rand a) False) s (\<lambda>(full, pre, h) s.
            try_pg (CreateKey userID name pre h all_scopes 120) s (\<lambda>k s.
              try_rd (cacheAPIKey a (ae_KEK a) full k) s
                (\<lambda>_. prints [''key_id='' @ ae_str a (k_ID k) @ '' api_key='' @ full @ '' (save this; shown once)'']))))
      | _ \<Rightarrow> usage_error ''create-key <user_id> <name>'' s)"

definition forget_key :: "aenv \<Rightarrow> uuid \<Rightarrow> servers \<Rightarrow> servers" where
  "forget_key a keyID s =
     (case GetKeyIDIndex (ae_str a keyID) (snd s) of
        (Inr (Some mac), k) \<Rightarrow> also_rd (DeleteKeyIDIndex (ae_str a keyID)) (also_rd (DeleteKeyMeta mac) (fst s, k))
      | (_, k) \<Rightarrow> (fst s, k))"

definition cmd_revoke_key :: command where
  "cmd_revoke_key a args s =
     (case args of
        t # _ \<Rightarrow>
          try_uuid a t s (\<lambda>keyID s. try_pg (RevokeKey keyID) s (\<lambda>_ s. prints [''key revoked''] (forget_key a keyID s)))
      | _ \<Rightarrow> usage_error ''revoke-key <key_id>'' s)"

definition cmd_store_credential :: command where
  "cmd_store_credential a args s =
     (case args of
        slug # label # secret # _ \<Rightarrow>
          try_pg (GetProviderBySlug slug) s (\<lambda>p s.
            try_pg (vault_Put (ae_parse a) (ae_vault a) (ae_rand a) (ae_str a (p_ID p)) label secret) s
              (\<lambda>_. prints [''credential stored'']))
      | _ \<Rightarrow> usage_error ''store-credential <provider_slug> <label> <secret>'' s)"

definition marshal_health :: "HealthResult \<Rightarrow> string" where
  "marshal_health h =
     json_encode (JObj [(''ok'', JBool (hr_OK h)), (''latency_ms'', JInt (hr_LatencyMs h)), (''message'', JStr (hr_Message h))])"

definition cmd_driver_health :: command where
  "cmd_driver_health a args s =
     (case args of
        slug # _ \<Rightarrow>
          try_val (Load (ae_host a) (ae_DriversPath a) (ae_NodePath a)) s (\<lambda>reg s.
            try_pg (GetProviderBySlug slug) s (\<lambda>p s.
              try_pg (vault_Get (ae_vault a) slug (vault_label p slug)) s (\<lambda>cred s.
                try_val (InvokeHealthCheck (ae_host a) reg slug (p_BaseURL p) cred) s
                  (\<lambda>h. prints [marshal_health h]))))
      | _ \<Rightarrow> usage_error ''driver-health <provider_slug>'' s)"

definition show_bool :: "bool \<Rightarrow> string" where
  "show_bool b = (if b then ''true'' else ''false'')"

definition cmd_balance :: command where
  "cmd_balance a args s =
     (case args of
        t # _ \<Rightarrow>
          try_uuid a t s (\<lambda>userID s. try_pg (ReconcileUserBalance userID) s (\<lambda>(cached, ledger) s.
            (let (r, k) = GetBalance (ae_str a userID) (snd s);
                 redisBal = (case r of Inr (Some n) \<Rightarrow> n | _ \<Rightarrow> 0); ok = (case r of Inr (Some _) \<Rightarrow> True | _ \<Rightarrow> False)
             in prints [''cached_micro='' @ show_int cached @ '' ledger_micro='' @ show_int ledger @ '' redis_micro='' @
                  show_int redisBal @ '' redis_cached='' @ show_bool ok] (fst s, k))))
      | _ \<Rightarrow> usage_error ''balance <user_id>'' s)"

definition cmd_usage_summary :: command where
  "cmd_usage_summary a args s =
     (case args of
        t # _ \<Rightarrow>
          try_uuid a t s (\<lambda>userID s. try_pg (UsageSummary24h userID) s (\<lambda>rows.
            prints (map (\<lambda>r. ''provider='' @ us_ProviderSlug r @ '' captured_micro='' @ show_int (us_TotalMicro r) @
              '' count='' @ show_int (us_Count r)) rows)))
      | _ \<Rightarrow> usage_error ''usage-summary <user_id>'' s)"

definition cmd_burn_rate :: command where
  "cmd_burn_rate a args s =
     (case args of
        t # _ \<Rightarrow>
          try_uuid a t s (\<lambda>userID s. try_pg (BurnRate24h userID) s (\<lambda>micro.
            prints [''burn_24h_micro='' @ show_int micro @ '' burn_per_hour_micro='' @ show_int (quo micro 24)]))
      | _ \<Rightarrow> usage_error ''burn-rate <user_id>'' s)"

text \<open>The usage log is printed before the ledger is asked for.\<close>

definition after_line :: "string \<Rightarrow> exit \<times> servers \<Rightarrow> exit \<times> servers" where
  "after_line l res = (case res of (e, s) \<Rightarrow> (e\<lparr>ex_out := l # ex_out e\<rparr>, s))"

definition cmd_usage_log :: command where
  "cmd_usage_log a args s =
     (case args of
        t # _ \<Rightarrow>
          try_uuid a t s (\<lambda>rid s. try_pg (GetUsageLogByRequestID rid) s (\<lambda>u s.
            after_line (ae_usage_json a u) (try_pg (ListLedgerByReference rid) s (\<lambda>txns.
              prints (map (\<lambda>x. ''ledger txn='' @ ae_str a (lt_ID x) @ '' type='' @ lt_Type x @ '' amount_micro='' @
                show_int (lt_AmountMicro x)) txns)))))
      | _ \<Rightarrow> usage_error ''usage-log <request_id>'' s)"

definition cmd_reconcile_user :: command where
  "cmd_reconcile_user a args s =
     (case args of
        t # _ \<Rightarrow>
          try_uuid a t s (\<lambda>userID s. try_pg (ReconcileUserBalance userID) s (\<lambda>(cached, ledger) s.
            if cached = ledger then prints [''no drift''] s
            else try_pg (SetUserBalanceFromLedger userID ledger) s (\<lambda>_ s.
              prints [''fixed cached='' @ show_int cached @ '' -> ledger='' @ show_int ledger]
                (also_rd (SetBalance (ae_str a userID) ledger) s))))
      | _ \<Rightarrow> usage_error ''reconcile-user <user_id>'' s)"

fun replay_messages :: "XMessage list \<Rightarrow> servers \<Rightarrow> exit \<times> servers" where
  "replay_messages [] s = prints [] s"
| "replay_messages (m # ms) s =
     try_rd (ReplayDLQEntry (xm_Values m)) s (\<lambda>_ s. after_line (''replayed '' @ show_nat (xm_ID m)) (replay_messages ms s))"

definition cmd_replay_dlq :: command where
  "cmd_replay_dlq a args s = try_rd (ReadDLQ 100) s replay_messages"

definition usage_text :: "string list" where
  "usage_text = [''quarkgate admin commands:'', ''  migrate'', ''  create-user <email>'',
     ''  deposit-credits <user_id> <credits>'', ''  create-key <user_id> <name>'', ''  revoke-key <key_id>'',
     ''  store-credential <provider_slug> <label> <secret>'', ''  seed-provider'', ''  driver-health <provider_slug>'',
     ''  balance <user_id>'', ''  usage-summary <user_id>'', ''  burn-rate <user_id>'', ''  usage-log <request_id>'',
     ''  reconcile-user <user_id>'', ''  replay-dlq'']"

definition show_usage :: "servers \<Rightarrow> exit \<times> servers" where
  "show_usage s = (\<lparr>ex_out = usage_text, ex_err = Some (ErrMsg ''exit status 1'')\<rparr>, s)"

text \<open>The switch over the first argument, behind the migrations.\<close>

definition admin_switch :: "aenv \<Rightarrow> string \<Rightarrow> string list \<Rightarrow> servers \<Rightarrow> exit \<times> servers" where
  "admin_switch a cmd args s =
     (if cmd = ''migrate'' then prints [''migrations applied''] s
      else if cmd = ''create-user'' then cmd_create_user a args s
      else if cmd = ''deposit-credits'' then cmd_deposit_credits a args s
      else if cmd = ''create-key'' then cmd_create_key a args s
      else if cmd = ''revoke-key'' then cmd_revoke_key a args s
      else if cmd = ''store-credential'' then cmd_store_credential a args s
      else if cmd = ''seed-provider'' then prints [''providers seeded via migrations''] s
      else if cmd = ''driver-health'' then cmd_driver_health a args s
      else if cmd = ''balance'' then cmd_balance a args s
      else if cmd = ''usage-summary'' then cmd_usage_summary a args s
      else if cmd = ''burn-rate'' then cmd_burn_rate a args s
      else if cmd = ''usage-log'' then cmd_usage_log a args s
      else if cmd = ''reconcile-user'' then cmd_reconcile_user a args s
      else if cmd = ''replay-dlq'' then cmd_replay_dlq a args s
      else show_usage s)"

definition admin_main ::
    "aenv \<Rightarrow> (string \<Rightarrow> tables \<Rightarrow> tables result) \<Rightarrow> string list \<Rightarrow> servers \<Rightarrow> exit \<times> servers" where
  "admin_main a script args s =
     (case args of
        [] \<Rightarrow> show_usage s
      | cmd # rest \<Rightarrow>
          try_pg (Migrate (h_ReadFile (ae_host a)) script migration_files) s (\<lambda>_. admin_switch a cmd rest))"

section \<open>Migrations\<close>

lemma migration_applied_Inr:
  "migration_applied path d = (Inr b, d') \<Longrightarrow> pg_tabs d' = pg_tabs d \<and> b = (path \<in> set (t_migrations (pg_tabs d)))"
  by (auto simp: migration_applied_def dest!: pg_call_InrD)

lemma record_migration_Inr:
  "record_migration path d = (Inr u, d') \<Longrightarrow> t_migrations (pg_tabs d') = t_migrations (pg_tabs d) @ [path]"
  by (auto simp: record_migration_def Let_def dest!: pg_call_InrD split: if_splits)

lemma run_script_Inr:
  "run_script script data d = (Inr u, d') \<Longrightarrow> \<exists>T. script data (pg_tabs d) = Inr T \<and> pg_tabs d' = T"
  by (auto simp: run_script_def dest!: pg_call_InrD split: sum.splits)

text \<open>A migration script leaves the table of migrations alone.\<close>

definition scripts_ok :: "(string \<Rightarrow> tables \<Rightarrow> tables result) \<Rightarrow> bool" where
  "scripts_ok script \<longleftrightarrow> (\<forall>data T T'. script data T = Inr T' \<longrightarrow> t_migrations T' = t_migrations T)"

lemma migrate_paths_records:
  assumes "scripts_ok script"
  shows "migrate_paths read script paths d = (Inr u, d') \<Longrightarrow>
    set (t_migrations (pg_tabs d')) = set (t_migrations (pg_tabs d)) \<union> set paths"
proof (induction paths arbitrary: d)
  case Nil
  then show ?case by simp
next
  case (Cons path paths)
  obtain r d1 where a: "migration_applied path d = (r, d1)" by (metis surj_pair)
  with Cons.prems obtain b where b: "r = Inr b" by (cases r) (auto simp: wrap_err_def)
  note t1 = migration_applied_Inr [OF a [unfolded b]]
  show ?case
  proof (cases b)
    case True
    with Cons.prems a b have "migrate_paths read script paths d1 = (Inr u, d')" by (simp add: wrap_err_def)
    from Cons.IH [OF this] t1 True show ?thesis by auto
  next
    case False
    with Cons.prems a b obtain data d2 d3 where s: "run_script script data d1 = (Inr (), d2)"
        "record_migration path d2 = (Inr (), d3)" "migrate_paths read script paths d3 = (Inr u, d')"
      by (auto simp: wrap_err_def split: sum.splits prod.splits)
    from run_script_Inr [OF s(1)] assms have "t_migrations (pg_tabs d2) = t_migrations (pg_tabs d)"
      using t1 by (auto simp: scripts_ok_def)
    with Cons.IH [OF s(3)] record_migration_Inr [OF s(2)] show ?thesis by auto
  qed
qed

lemma migrate_paths_done:
  assumes "set paths \<subseteq> set (t_migrations (pg_tabs d))" "pg_fates d = []"
  shows "migrate_paths read script paths d = (Inr (), d)"
  using assms(1)
proof (induction paths)
  case (Cons path paths)
  have "migration_applied path d = (Inr True, d)"
    using Cons.prems assms(2) by (simp add: migration_applied_def pg_call_def)
  with Cons show ?case by (simp add: wrap_err_def)
qed simp

text \<open>
  C37. Migrations run once.  When \<open>Migrate\<close> has succeeded every file is recorded, and any later run over
  the same files, by whatever process of the system, succeeds without reading a file, without running a
  script and without changing a table.
\<close>

theorem Migrate_once:
  assumes "scripts_ok script" "Migrate read script paths d = (Inr (), d')"
    and "pg_tabs d2 = pg_tabs d'" "pg_fates d2 = []"
  shows "set paths \<subseteq> set (t_migrations (pg_tabs d')) \<and>
    (\<forall>read2 script2. Migrate read2 script2 paths d2 = (Inr (), d2))"
proof -
  from assms(2) obtain d1 where "migrate_paths read script paths d1 = (Inr (), d')"
    by (auto simp: Migrate_def elim: and_then_Inr)
  then have rec: "set paths \<subseteq> set (t_migrations (pg_tabs d'))" using migrate_paths_records [OF assms(1)] by blast
  have "pg_call (stmt_return ()) d2 = (Inr (), d2)"
    using assms(4) by (cases d2) (simp add: pg_call_def stmt_return_def)
  then have "Migrate read2 script2 paths d2 = (Inr (), d2)" for read2 script2
    using migrate_paths_done [of paths d2 read2 script2] rec assms(3,4)
    by (simp add: Migrate_def and_then_def wrap_err_def)
  with rec show ?thesis by blast
qed

definition empty_tables :: tables where
  "empty_tables = \<lparr>t_users = [], t_keys = [], t_providers = [], t_vault = [], t_ledger = [], t_usage = [],
     t_sessions = [], t_migrations = []\<rparr>"

definition empty_pg :: pg where
  "empty_pg = \<lparr>pg_tabs = empty_tables, pg_now = 0, pg_uuids = [], pg_fates = []\<rparr>"

theorem Migrate_once_witness:
  "\<forall>read2 script2. Migrate read2 script2 [''a'', ''b''] (empty_pg\<lparr>pg_tabs := empty_tables\<lparr>t_migrations := [''a'', ''b'']\<rparr>\<rparr>) =
     (Inr (), empty_pg\<lparr>pg_tabs := empty_tables\<lparr>t_migrations := [''a'', ''b'']\<rparr>\<rparr>)"
proof -
  let ?d' = "empty_pg\<lparr>pg_tabs := empty_tables\<lparr>t_migrations := [''a'', ''b'']\<rparr>\<rparr>"
  have "Migrate (\<lambda>p. Inr p) (\<lambda>_ T. Inr T) [''a'', ''b''] empty_pg = (Inr (), ?d')" by code_simp
  from Migrate_once [OF _ this, of ?d'] show ?thesis by (simp add: scripts_ok_def empty_pg_def)
qed

text \<open>
  A script that ran but could not be recorded runs again: running and recording are two transactions.
\<close>

lemma migration_runs_again:
  assumes "script data T = Inr T'" "path \<notin> set (t_migrations T)" "path \<notin> set (t_migrations T')" "read path = Inr data"
    and "pg_tabs d = T" "pg_fates d = [Answered, Answered, LostRequest]"
  shows "\<exists>e d'. migrate_paths read script [path] d = (Inl e, d') \<and> pg_tabs d' = T' \<and> path \<notin> set (t_migrations (pg_tabs d'))"
  using assms by (simp add: wrap_err_def migration_applied_def run_script_def record_migration_def readMigration_def pg_call_def)

end
