(* ===== verification/Proxy.thy ===== *)
theory Proxy
  imports Gateway
begin

text \<open>
  The proxy handler (\<open>internal/proxy/handler.go\<close>): forwarding an admitted request to its provider and
  emitting one metering event for it.  The HTTP client, the calendar format of instants and what the copy
  loop of a stream meets are parameters, gathered in the record \<open>transport\<close>; nothing is assumed of what
  a provider answers.  A clock reading that the code only takes on some path is drawn on every path.
\<close>

section \<open>The other side\<close>

record OutRequest =
  or_Method :: string
  or_URL :: string
  or_Header :: header
  or_Body :: string

record Response =
  rs_StatusCode :: int
  rs_Header :: header
  rs_Body :: body

text \<open>
  \<open>tr_NewRequest\<close> is the error of \<open>http.NewRequest\<close> for a method and a URL, if any; \<open>tr_Do\<close> the answer
  of the plain client (\<open>False\<close>) or of the one for streams (\<open>True\<close>).
\<close>

record transport =
  tr_NewRequest :: "string \<Rightarrow> string \<Rightarrow> goerr option"
  tr_Do :: "bool \<Rightarrow> OutRequest \<Rightarrow> Response result"
  tr_ticks :: ticks
  tr_RFC3339 :: "instant \<Rightarrow> string"

text \<open>The breaker and the bulkhead change, so they are part of the state.\<close>

record Handler =
  h_redis :: bool
  h_reg :: "Registry option"
  h_host :: host
  h_str :: "uuid \<Rightarrow> string"
  h_idleSec :: int
  h_maxStreamSec :: int

text \<open>\<open>io.ReadAll\<close> of a body: it returns when a read reports the end.\<close>

partial_function (option) read_all :: "body \<Rightarrow> nat \<Rightarrow> string \<Rightarrow> string result option" where
  "read_all src i acc =
     (case rd_err (src i) of
        None \<Rightarrow> read_all src (Suc i) (acc @ rd_line (src i))
      | Some e \<Rightarrow> Some (if e = io_EOF then Inr (acc @ rd_line (src i)) else Inl e))"

declare read_all.simps [code]

section \<open>Usage\<close>

definition needsPoll :: "gmap option \<Rightarrow> bool" where
  "needsPoll raw \<longleftrightarrow>
     (case raw of
        None \<Rightarrow> False
      | Some m \<Rightarrow>
          (case mget m ''needs_poll'' of
             Some (GBool t) \<Rightarrow> t
           | Some (GStr t) \<Rightarrow> t = ''true''
           | _ \<Rightarrow> False))"

definition mergeMaps :: "gmap option \<Rightarrow> gmap option \<Rightarrow> gmap option" where
  "mergeMaps base patch =
     (let out = assign_all (assign_all [] (slice base)) (slice patch) in if out = [] then None else Some out)"

definition poll_usage :: "Handler \<Rightarrow> Registry \<Rightarrow> ctx \<Rightarrow> string \<Rightarrow> gmap option \<Rightarrow> gmap option" where
  "poll_usage h reg c provider merged =
     (let credential = ProviderCredential c; baseURL = ProviderBaseURL c;
          runID = str_or_empty (mget (slice merged) ''run_id'')
      in if runID \<noteq> [] \<and> credential \<noteq> [] \<and> baseURL \<noteq> []
         then (case InvokePoll (h_host h) reg provider baseURL credential [(''run_id'', GStr runID)] of
                 Inl _ \<Rightarrow> merged
               | Inr p \<Rightarrow>
                   (case po_RawUsage p of
                      None \<Rightarrow> merged
                    | Some usage \<Rightarrow> map_option (AList.delete ''needs_poll'') (mergeMaps merged (Some usage))))
         else merged)"

definition envelope_bytes :: "ctx \<Rightarrow> string" where
  "envelope_bytes c =
     (case Envelope c of None \<Rightarrow> [] | Some e \<Rightarrow> (case marshal_envelope e of None \<Rightarrow> [] | Some s \<Rightarrow> s))"

definition mergeDriverUsage ::
    "Handler \<Rightarrow> ctx \<Rightarrow> string \<Rightarrow> header \<Rightarrow> string \<Rightarrow> bool \<Rightarrow> gmap option \<Rightarrow> gmap option" where
  "mergeDriverUsage h c provider hdr body streaming base =
     (case h_reg h of
        None \<Rightarrow> base
      | Some reg \<Rightarrow>
          if \<not> HasCapability reg provider ''parse_response'' then base
          else
            (case InvokeParseResponse (h_host h) reg provider (first_values [] hdr) body streaming (envelope_bytes c) of
               Inl _ \<Rightarrow> base
             | Inr None \<Rightarrow> base
             | Inr (Some driverUsage) \<Rightarrow>
                 (let merged = mergeMaps base (Some driverUsage)
                  in if needsPoll merged \<and> HasCapability reg provider ''async_poll''
                     then poll_usage h reg c provider merged else merged)))"

section \<open>Answers and events\<close>

definition writeSSEError :: "string \<Rightarrow> rwriter \<Rightarrow> rwriter" where
  "writeSSEError msg w =
     rw_Write (''data: '' @ marshal (GMap [(''error'', GStr msg)]) @ [newline, newline]) w"

fun add_values :: "string \<Rightarrow> string list \<Rightarrow> rwriter \<Rightarrow> rwriter" where
  "add_values k [] w = w"
| "add_values k (v # vs) w = add_values k vs (rw_Add k v w)"

fun copyHeaders :: "header \<Rightarrow> rwriter \<Rightarrow> rwriter" where
  "copyHeaders [] w = w"
| "copyHeaders ((k, vs) # h) w =
     copyHeaders h (if EqualFold k ''Connection'' \<or> EqualFold k ''Transfer-Encoding'' then w else add_values k vs w)"

text \<open>The metering event of a request; \<open>since\<close> and \<open>now\<close> are two readings of the clock.\<close>

definition meter_event ::
    "Handler \<Rightarrow> transport \<Rightarrow> ctx \<Rightarrow> RouteMatch \<Rightarrow> instant \<Rightarrow> instant \<Rightarrow> instant \<Rightarrow> string \<Rightarrow> bool \<Rightarrow> gmap option \<Rightarrow> MeteringEvent" where
  "meter_event h tr c rm start since now status partial raw =
     \<lparr>me_RequestID = h_str h (RequestID c), me_UserID = h_str h (UserID c), me_KeyID = h_str h (KeyID c),
      me_Provider = rm_Provider rm, me_Operation = rm_Operation rm, me_Status = status,
      me_RawUsage = marshal (GMap (slice raw)), me_Partial = partial,
      me_DurationMs = quo (since - start) 1000000, me_Timestamp = tr_RFC3339 tr now, me_Error = [],
      me_HoldMicro = HoldMicro c, me_IdempotencyKey = IdempotencyKey c, me_Envelope = envelope_bytes c\<rparr>"

definition emitMeter ::
    "Handler \<Rightarrow> transport \<Rightarrow> Request \<Rightarrow> instant \<Rightarrow> string \<Rightarrow> bool \<Rightarrow> gmap option \<Rightarrow> gw \<Rightarrow> outcome \<times> gw" where
  "emitMeter h tr r start status partial raw st =
     (if \<not> h_redis h then (Served, st)
      else
        (case Route (rq_ctx r) of
           None \<Rightarrow> (Panicked ''nil pointer dereference'', st)
         | Some rm \<Rightarrow>
             (let (since, st1) = time_Now st; (now, st2) = time_Now st1
              in (Served, gateway_EmitMeterEvent (meter_event h tr (rq_ctx r) rm start since now status partial raw) st2))))"

definition proxy_fail :: "Handler \<Rightarrow> transport \<Rightarrow> Request \<Rightarrow> instant \<Rightarrow> gw \<Rightarrow> outcome \<times> gw" where
  "proxy_fail h tr r start st =
     (case emitMeter h tr r start ''failed'' False None st of
        (Served, st1) \<Rightarrow> (Served, on_w (\<lambda>w. writeErr 502 ''downstream error'' (rw_Set ''Retry-After'' ''10'' w)) st1)
      | (x, st1) \<Rightarrow> (x, st1))"

section \<open>Serving\<close>

text \<open>
  The streamed answer.  \<open>None\<close>: the stream does not end.  The result is the status of the event, whether
  it is partial, the raw usage and the body for the driver.
\<close>

definition stream_answer ::
    "Handler \<Rightarrow> transport \<Rightarrow> Request \<Rightarrow> Response \<Rightarrow> gw \<Rightarrow> (string \<times> bool \<times> gmap option \<times> string \<times> gw) option" where
  "stream_answer h tr r resp st =
     (let (now1, st1) = time_Now st; (now2, st2) = time_Now st1;
          m0 = newMeteringReader (h_idleSec h) (i64 (h_maxStreamSec h * 1000000000)) (HoldMicro (rq_ctx r))
      in case copy (rs_Body resp) (tr_ticks tr) now1 now2 m0 of
           None \<Rightarrow> None
         | Some (_, parseErr, m) \<Rightarrow>
             (let st3 = on_w (fold rw_Write (mr_out m)) st2
              in if mr_softCapExceeded m
                 then Some (''partial'', True,
                        (case mr_usage m of None \<Rightarrow> Some [(''soft_cap'', GBool True)] | Some u \<Rightarrow> Some u),
                        mr_body m, on_w (writeSSEError ''insufficient_credits'') st3)
                 else
                   (case parseErr of
                      Some e \<Rightarrow>
                        Some (''partial'', True,
                          (case mr_usage m of None \<Rightarrow> Some [(''error'', GStr (Error e))] | Some u \<Rightarrow> Some u),
                          mr_body m, on_w (writeSSEError (Error e)) st3)
                    | None \<Rightarrow> Some (''completed'', False, mr_usage m, mr_body m, st3))))"

definition plain_answer ::
    "Response \<Rightarrow> gw \<Rightarrow> (string \<times> bool \<times> gmap option \<times> string \<times> gw) option" where
  "plain_answer resp st =
     (case read_all (rs_Body resp) 0 [] of
        None \<Rightarrow> None
      | Some (Inl _) \<Rightarrow> Some (''failed'', False, None, [], st)
      | Some (Inr data) \<Rightarrow>
          Some (if rs_StatusCode resp \<ge> 400 then ''failed'' else ''completed'', False, parseJSONUsage data, data,
            on_w (rw_Write data) st))"

definition answer_headers :: "Response \<Rightarrow> rwriter \<Rightarrow> rwriter" where
  "answer_headers resp w = rw_Set ''X-Accel-Buffering'' ''no'' (copyHeaders (rs_Header resp) w)"

definition forward_answer ::
    "Handler \<Rightarrow> transport \<Rightarrow> Request \<Rightarrow> instant \<Rightarrow> DownstreamRequest \<Rightarrow> Response \<Rightarrow> gw \<Rightarrow> outcome \<times> gw" where
  "forward_answer h tr r start ds resp st =
     (let code = rs_StatusCode resp; st1 = on_w (answer_headers resp) st
      in if \<not> valid_code code then (Panicked ''invalid WriteHeader code'', st1)
         else
           (let st2 = on_w (rw_WriteHeader code) st1;
                ans = (if dr_Streaming ds \<and> 200 \<le> code \<and> code < 300
                       then stream_answer h tr r resp st2 else plain_answer resp st2)
            in case ans of
                 None \<Rightarrow> (Hung, st2)
               | Some (status, partial, rawUsage, responseBody, st3) \<Rightarrow>
                   emitMeter h tr r start status partial
                     (mergeDriverUsage h (rq_ctx r) (dr_Provider ds) (rs_Header resp) responseBody (dr_Streaming ds) rawUsage)
                     st3))"

text \<open>The request to the provider.  An empty method is GET; an error while the client's body is read is ignored.\<close>

definition out_request :: "Request \<Rightarrow> DownstreamRequest \<Rightarrow> OutRequest" where
  "out_request r ds =
     (let body = (if dr_Body ds = [] then (case rq_Body r of Inl _ \<Rightarrow> [] | Inr b \<Rightarrow> b) else dr_Body ds);
          hdr = fold (\<lambda>(k, v). header_Set k v) (dr_Headers ds) []
      in \<lparr>or_Method = (if dr_Method ds = [] then ''GET'' else dr_Method ds), or_URL = dr_URL ds,
          or_Header = (if dr_Streaming ds then header_Set ''Accept'' ''text/event-stream'' hdr else hdr),
          or_Body = body\<rparr>)"

definition record_breaker :: "bool \<Rightarrow> gw \<Rightarrow> gw" where
  "record_breaker ok st = st\<lparr>gw_breaker := map_option (Record ok) (gw_breaker st)\<rparr>"

definition call_provider :: "Handler \<Rightarrow> transport \<Rightarrow> Request \<Rightarrow> instant \<Rightarrow> DownstreamRequest \<Rightarrow> gw \<Rightarrow> outcome \<times> gw" where
  "call_provider h tr r start ds st =
     (let req = out_request r ds
      in case tr_NewRequest tr (or_Method req) (or_URL req) of
           Some _ \<Rightarrow> proxy_fail h tr r start st
         | None \<Rightarrow>
             (case tr_Do tr (dr_Streaming ds) req of
                Inl _ \<Rightarrow> proxy_fail h tr r start (record_breaker False st)
              | Inr resp \<Rightarrow>
                  forward_answer h tr r start ds resp (record_breaker (rs_StatusCode resp < 500) st)))"

definition ask_breaker :: "string \<Rightarrow> gw \<Rightarrow> bool \<times> gw" where
  "ask_breaker provider st =
     (let (now1, st1) = time_Now st; (now2, st2) = time_Now st1
      in case gw_breaker st2 of
           None \<Rightarrow> (True, st2)
         | Some cb \<Rightarrow> (case Allow now1 now2 provider cb of (ok, cb') \<Rightarrow> (ok, st2\<lparr>gw_breaker := Some cb'\<rparr>)))"

text \<open>A refusal for lack of capacity.\<close>

definition refuse ::
    "Handler \<Rightarrow> transport \<Rightarrow> Request \<Rightarrow> instant \<Rightarrow> string \<Rightarrow> string \<Rightarrow> gw \<Rightarrow> outcome \<times> gw" where
  "refuse h tr r start wait msg st =
     emitMeter h tr r start ''failed'' False None
       (on_w (\<lambda>w. writeErr 503 msg (rw_Set ''Retry-After'' wait w)) st)"

definition serve_breaker :: "Handler \<Rightarrow> transport \<Rightarrow> Request \<Rightarrow> instant \<Rightarrow> DownstreamRequest \<Rightarrow> gw \<Rightarrow> outcome \<times> gw" where
  "serve_breaker h tr r start ds st =
     (case ask_breaker (dr_Provider ds) st of
        (False, st1) \<Rightarrow> refuse h tr r start ''30'' ''circuit open'' st1
      | (True, st1) \<Rightarrow> call_provider h tr r start ds st1)"

text \<open>The deferred calls run when the handler returns or panics, not while it waits.\<close>

definition deferred :: "(gw \<Rightarrow> gw) \<Rightarrow> outcome \<times> gw \<Rightarrow> outcome \<times> gw" where
  "deferred f res = (case res of (Hung, st) \<Rightarrow> (Hung, st) | (x, st) \<Rightarrow> (x, f st))"

definition release_slot :: "string \<Rightarrow> gw \<Rightarrow> gw" where
  "release_slot provider st = st\<lparr>gw_bulkhead := Release (gw_bulkhead st) provider\<rparr>"

definition serve_bulkhead :: "Handler \<Rightarrow> transport \<Rightarrow> Request \<Rightarrow> instant \<Rightarrow> DownstreamRequest \<Rightarrow> gw \<Rightarrow> outcome \<times> gw" where
  "serve_bulkhead h tr r start ds st =
     (case TryAcquire (gw_bulkhead st) (dr_Provider ds) of
        (False, b) \<Rightarrow> refuse h tr r start ''5'' ''bulkhead full'' (st\<lparr>gw_bulkhead := b\<rparr>)
      | (True, b) \<Rightarrow>
          deferred (release_slot (dr_Provider ds)) (serve_breaker h tr r start ds (st\<lparr>gw_bulkhead := b\<rparr>)))"

definition ServeHTTP :: "Handler \<Rightarrow> transport \<Rightarrow> handler" where
  "ServeHTTP h tr r st =
     deferred (\<lambda>st. st\<lparr>gw_active := DecActive (gw_active st)\<rparr>)
       (let st0 = st\<lparr>gw_active := IncActive (gw_active st), gw_metrics := IncRequests (gw_metrics st)\<rparr>;
            (start, st1) = time_Now st0
        in case Downstream (rq_ctx r) of
             None \<Rightarrow> (Served, on_w (http_Error ''no downstream'' 500) st1)
           | Some ds \<Rightarrow> serve_bulkhead h tr r start ds st1)"

section \<open>cmd/gateway\<close>

text \<open>
  The chain that \<open>main\<close> builds around the proxy, and the multiplexer.  The multiplexer redirects a path
  that is not clean before any handler runs; paths here are clean.
\<close>

definition gateway_chain :: "genv \<Rightarrow> handler \<Rightarrow> handler" where
  "gateway_chain g proxy =
     RequestID_Wrap g (Auth_Wrap g (RateLimit_Wrap g (Route_Wrap g (Idempotency_Wrap g
       (Scope_Wrap (Solvency_Wrap g proxy))))))"

definition healthz :: handler where
  "healthz r st = (Served, on_w (\<lambda>w. rw_Write ''ok'' (rw_WriteHeader 200 w)) st)"

definition readyz :: handler where
  "readyz r st =
     (case on_pg (pg_call (stmt_return ())) st of
        (Inl _, st1) \<Rightarrow> (Served, on_w (http_Error ''db down'' 503) st1)
      | (Inr _, st1) \<Rightarrow>
          (case on_rd (rd_call (\<lambda>s. (Inr (), s))) st1 of
             (Inl _, st2) \<Rightarrow> (Served, on_w (http_Error ''redis down'' 503) st2)
           | (Inr _, st2) \<Rightarrow> (Served, on_w (\<lambda>w. rw_Write ''ready'' (rw_WriteHeader 200 w)) st2)))"

definition metrics_handler :: handler where
  "metrics_handler r st =
     (Served, on_w (\<lambda>w. rw_Write (MetricsHandler (gw_metrics st))
        (rw_Set ''Content-Type'' ''text/plain; version=0.0.4'' w)) st)"

definition gateway_mux :: "genv \<Rightarrow> handler \<Rightarrow> handler" where
  "gateway_mux g proxy r st =
     (if rq_Path r = ''/healthz'' then healthz r st
      else if rq_Path r = ''/readyz'' then readyz r st
      else if rq_Path r = ''/metrics'' then metrics_handler r st
      else gateway_chain g proxy r st)"

end
