(* ===== verification/Ledger.thy ===== *)
theory Ledger
  imports Store
begin

text \<open>
  The credit ledger: the invariant of the database (unique keys, foreign keys, non-negative 64-bit
  balances, and every user's balance equal to the sum of that user's ledger rows), its preservation
  by the operations of \<open>Store\<close> under every fate of every call, and the exact effect of the
  operations that move credits.
\<close>

section \<open>The invariant\<close>

definition users_ok :: "tables \<Rightarrow> bool" where
  "users_ok T \<longleftrightarrow>
     distinct (map u_ID (t_users T)) \<and> distinct (map u_Email (t_users T)) \<and>
     (\<forall>u \<in> set (t_users T). 0 \<le> u_CreditBalanceMicro u \<and> u_CreditBalanceMicro u \<le> max_i64)"

definition ledger_ok :: "tables \<Rightarrow> bool" where
  "ledger_ok T \<longleftrightarrow>
     distinct (map lt_ID (t_ledger T)) \<and> distinct (map lt_IdempotencyKey (t_ledger T)) \<and>
     lt_UserID ` set (t_ledger T) \<subseteq> u_ID ` set (t_users T)"

definition consistent :: "tables \<Rightarrow> bool" where
  "consistent T \<longleftrightarrow> (\<forall>u \<in> set (t_users T). u_CreditBalanceMicro u = ledger_sum (u_ID u) T)"

definition keys_ok :: "tables \<Rightarrow> bool" where
  "keys_ok T \<longleftrightarrow>
     distinct (map k_ID (t_keys T)) \<and> distinct (map k_KeyHash (t_keys T)) \<and>
     k_UserID ` set (t_keys T) \<subseteq> u_ID ` set (t_users T)"

definition usage_ok :: "tables \<Rightarrow> bool" where
  "usage_ok T \<longleftrightarrow>
     distinct (map ul_ID (t_usage T)) \<and> distinct (map ul_RequestID (t_usage T)) \<and>
     ul_UserID ` set (t_usage T) \<subseteq> u_ID ` set (t_users T) \<and>
     ul_QuarkGateKeyID ` set (t_usage T) \<subseteq> k_ID ` set (t_keys T)"

definition sessions_ok :: "tables \<Rightarrow> bool" where
  "sessions_ok T \<longleftrightarrow>
     distinct (map ms_request_id (t_sessions T)) \<and>
     ms_user_id ` set (t_sessions T) \<subseteq> u_ID ` set (t_users T) \<and>
     (\<forall>s \<in> set (t_sessions T). in_i64 (ms_hold_micro s))"

definition db_inv :: "tables \<Rightarrow> bool" where
  "db_inv T \<longleftrightarrow>
     users_ok T \<and> ledger_ok T \<and> consistent T \<and> keys_ok T \<and> usage_ok T \<and> sessions_ok T"

lemmas db_inv_defs =
  db_inv_def users_ok_def ledger_ok_def consistent_def keys_ok_def usage_ok_def sessions_ok_def

lemma db_inv_users: "db_inv T \<Longrightarrow> users_ok T"
  by (simp add: db_inv_def)

lemma user_by_id_Some:
  "users_ok T \<Longrightarrow> user_by_id i T = Some u \<longleftrightarrow> u \<in> set (t_users T) \<and> u_ID u = i"
  by (simp add: user_by_id_def users_ok_def find_Some_iff_distinct)

lemma user_by_id_None: "user_by_id i T = None \<longleftrightarrow> i \<notin> u_ID ` set (t_users T)"
  by (auto simp: user_by_id_def find_None_iff)

lemma balance_of_range:
  "users_ok T \<Longrightarrow> balance_of i T = Some b \<Longrightarrow> 0 \<le> b \<and> b \<le> max_i64"
  by (auto simp: balance_of_def user_by_id_Some users_ok_def)

lemma balance_of_ledger_sum:
  "db_inv T \<Longrightarrow> balance_of i T = Some b \<Longrightarrow> b = ledger_sum i T"
  by (auto simp: balance_of_def user_by_id_Some db_inv_def consistent_def)

section \<open>Posting rows to an account\<close>

text \<open>The one way credits move: new ledger rows of a user, and the balance that includes them.\<close>

definition amounts :: "LedgerTransaction list \<Rightarrow> int" where
  "amounts rows = sum_list (map lt_AmountMicro rows)"

definition posting :: "uuid \<Rightarrow> int \<Rightarrow> instant \<Rightarrow> LedgerTransaction list \<Rightarrow> tables \<Rightarrow> tables" where
  "posting i v n rows T =
     T\<lparr>t_users := map (set_balance_row i v n) (t_users T), t_ledger := t_ledger T @ rows\<rparr>"

lemma set_balance_row_simps [simp]:
  "u_ID (set_balance_row i v n u) = u_ID u"
  "u_Email (set_balance_row i v n u) = u_Email u"
  "u_CreditBalanceMicro (set_balance_row i v n u) =
     (if u_ID u = i then v else u_CreditBalanceMicro u)"
  by (simp_all add: set_balance_row_def)

lemma set_balance_row_comp [simp]:
  "u_ID \<circ> set_balance_row i v n = u_ID"
  "u_Email \<circ> set_balance_row i v n = u_Email"
  by (simp_all add: fun_eq_iff)

lemma balance_of_posting:
  "balance_of j (posting i v n rows T) =
     (if j = i then map_option (\<lambda>_. v) (balance_of i T) else balance_of j T)"
proof -
  have "find (\<lambda>u. u_ID u = j) (map (set_balance_row i v n) us) =
      map_option (set_balance_row i v n) (find (\<lambda>u. u_ID u = j) us)" for us
    by (induction us) simp_all
  then show ?thesis
    by (cases "find (\<lambda>u. u_ID u = j) (t_users T)")
      (auto simp: balance_of_def user_by_id_def posting_def dest: find_SomeD)
qed

lemma ledger_sum_posting:
  "\<forall>r \<in> set rows. lt_UserID r = i \<Longrightarrow>
     ledger_sum j (posting i v n rows T) = ledger_sum j T + (if j = i then amounts rows else 0)"
proof -
  assume "\<forall>r \<in> set rows. lt_UserID r = i"
  then have "filter (\<lambda>t. lt_UserID t = j) rows = (if j = i then rows else [])"
    by (induction rows) auto
  then show ?thesis by (simp add: ledger_sum_def posting_def amounts_def)
qed

text \<open>Rows that PostgreSQL accepts for user \<open>i\<close> after the ledger \<open>ts\<close>.\<close>

definition fresh_rows :: "uuid \<Rightarrow> LedgerTransaction list \<Rightarrow> LedgerTransaction list \<Rightarrow> bool" where
  "fresh_rows i ts rows \<longleftrightarrow>
     (\<forall>r \<in> set rows. lt_UserID r = i) \<and>
     distinct (map lt_ID rows) \<and> distinct (map lt_IdempotencyKey rows) \<and>
     lt_ID ` set rows \<inter> lt_ID ` set ts = {} \<and>
     lt_IdempotencyKey ` set rows \<inter> lt_IdempotencyKey ` set ts = {}"

lemma db_inv_posting:
  assumes inv: "db_inv T" and b: "balance_of i T = Some b" and fresh: "fresh_rows i (t_ledger T) rows"
    and v: "v = b + amounts rows" "0 \<le> v" "v \<le> max_i64"
  shows "db_inv (posting i v n rows T)"
proof -
  let ?T = "posting i v n rows T"
  have users: "map u_ID (t_users ?T) = map u_ID (t_users T)"
      "map u_Email (t_users ?T) = map u_Email (t_users T)"
      "u_ID ` set (t_users ?T) = u_ID ` set (t_users T)"
    by (simp_all add: posting_def image_image)
  have i: "i \<in> u_ID ` set (t_users T)"
    using b user_by_id_None [of i T] by (auto simp: balance_of_def)
  have "users_ok ?T"
    using inv v by (auto simp: db_inv_def users_ok_def users posting_def)
  moreover have "ledger_ok ?T"
    using inv fresh i unfolding db_inv_def ledger_ok_def users
    by (auto simp: posting_def fresh_rows_def)
  moreover have "consistent ?T"
    unfolding consistent_def
  proof
    fix u' assume "u' \<in> set (t_users ?T)"
    then obtain u where u: "u \<in> set (t_users T)" and u': "u' = set_balance_row i v n u"
      by (auto simp: posting_def)
    have "u_CreditBalanceMicro u = ledger_sum (u_ID u) T"
      using inv u by (simp add: db_inv_def consistent_def)
    then show "u_CreditBalanceMicro u' = ledger_sum (u_ID u') ?T"
      using balance_of_ledger_sum [OF inv b] fresh v(1)
      by (simp add: u' ledger_sum_posting fresh_rows_def)
  qed
  moreover have "keys_ok ?T" "usage_ok ?T" "sessions_ok ?T"
    using inv unfolding db_inv_def keys_ok_def usage_ok_def sessions_ok_def users
    by (simp_all add: posting_def)
  ultimately show ?thesis by (simp add: db_inv_def)
qed

section \<open>What the statements do when they are answered\<close>

lemma update_balance_Inr:
  assumes "update_balance i v d = (Inr x, d')"
  shows "d' = d\<lparr>pg_tabs := (pg_tabs d)\<lparr>t_users :=
      map (set_balance_row i v (pg_now d)) (t_users (pg_tabs d))\<rparr>\<rparr>"
    and "user_by_id i (pg_tabs d) \<noteq> None \<Longrightarrow> 0 \<le> v"
  using assms by (auto simp: update_balance_def Let_def split: if_splits)

definition ledger_entry ::
    "uuid \<Rightarrow> uuid \<Rightarrow> string \<Rightarrow> int \<Rightarrow> int \<Rightarrow> string \<Rightarrow> uuid option \<Rightarrow> string \<Rightarrow> instant \<Rightarrow>
     LedgerTransaction" where
  "ledger_entry x i ty amount after rty rid idem n =
     \<lparr>lt_ID = x, lt_UserID = i, lt_Type = ty, lt_AmountMicro = amount,
      lt_BalanceAfterMicro = after, lt_ReferenceType = rty, lt_ReferenceID = rid,
      lt_IdempotencyKey = idem, lt_CreatedAt = n\<rparr>"

lemma ledger_entry_simps [simp]:
  "lt_ID (ledger_entry x i ty amount after rty rid idem n) = x"
  "lt_UserID (ledger_entry x i ty amount after rty rid idem n) = i"
  "lt_Type (ledger_entry x i ty amount after rty rid idem n) = ty"
  "lt_AmountMicro (ledger_entry x i ty amount after rty rid idem n) = amount"
  "lt_BalanceAfterMicro (ledger_entry x i ty amount after rty rid idem n) = after"
  "lt_ReferenceID (ledger_entry x i ty amount after rty rid idem n) = rid"
  "lt_IdempotencyKey (ledger_entry x i ty amount after rty rid idem n) = idem"
  by (simp_all add: ledger_entry_def)

lemma insert_ledger_Inr:
  assumes "insert_ledger i ty amount after rty rid idem d = (Inr x, d')"
  defines "T \<equiv> pg_tabs d"
  shows "pg_tabs d' = T\<lparr>t_ledger :=
      t_ledger T @ [ledger_entry x i ty amount after rty rid idem (pg_now d)]\<rparr>"
    and "pg_now d' = pg_now d"
    and "x \<notin> lt_ID ` set (t_ledger T)"
    and "idem \<notin> lt_IdempotencyKey ` set (t_ledger T)"
    and "i \<in> u_ID ` set (t_users T)"
proof -
  obtain y us where n: "next_uuid (pg_uuids d) = (y, us)" by (cases "next_uuid (pg_uuids d)")
  have c: "y \<notin> lt_ID ` set (t_ledger T)" "idem \<notin> lt_IdempotencyKey ` set (t_ledger T)"
    "i \<in> u_ID ` set (t_users T)"
    using assms(1) n by (auto simp: insert_ledger_def Let_def T_def simp del: image_iff split: if_splits)
  have "x = y" "d' = d\<lparr>pg_uuids := us, pg_tabs := T\<lparr>t_ledger :=
      t_ledger T @ [ledger_entry y i ty amount after rty rid idem (pg_now d)]\<rparr>\<rparr>"
    using assms(1) n c by (auto simp: insert_ledger_def Let_def ledger_entry_def T_def)
  then show "pg_tabs d' = T\<lparr>t_ledger :=
      t_ledger T @ [ledger_entry x i ty amount after rty rid idem (pg_now d)]\<rparr>"
    and "pg_now d' = pg_now d"
    and "x \<notin> lt_ID ` set (t_ledger T)"
    and "idem \<notin> lt_IdempotencyKey ` set (t_ledger T)"
    and "i \<in> u_ID ` set (t_users T)"
    using c by simp_all
qed

lemma select_row_Inr:
  assumes "select_row f d = (Inr x, d')"
  shows "d' = d" and "f (pg_tabs d) = Some x"
  using assms by (cases "f (pg_tabs d)"; simp add: select_row_def)+

text \<open>The same for a statement issued as a call: only the list of fates differs.\<close>

lemma call_update_balance_Inr:
  assumes "pg_call (update_balance i v) d = (Inr x, d')"
  shows "pg_tabs d' = (pg_tabs d)\<lparr>t_users :=
      map (set_balance_row i v (pg_now d)) (t_users (pg_tabs d))\<rparr>"
    and "pg_now d' = pg_now d"
    and "user_by_id i (pg_tabs d) \<noteq> None \<Longrightarrow> 0 \<le> v"
  using update_balance_Inr [OF pg_call_InrD [OF assms]] by simp_all

lemma call_insert_ledger_Inr:
  assumes "pg_call (insert_ledger i ty amount after rty rid idem) d = (Inr x, d')"
  shows "pg_tabs d' = (pg_tabs d)\<lparr>t_ledger :=
      t_ledger (pg_tabs d) @ [ledger_entry x i ty amount after rty rid idem (pg_now d)]\<rparr>"
    and "pg_now d' = pg_now d"
    and "x \<notin> lt_ID ` set (t_ledger (pg_tabs d))"
    and "idem \<notin> lt_IdempotencyKey ` set (t_ledger (pg_tabs d))"
  using insert_ledger_Inr [OF pg_call_InrD [OF assms]] by simp_all

lemma call_select_row_Inr:
  assumes "pg_call (select_row f) d = (Inr x, d')"
  shows "pg_tabs d' = pg_tabs d" and "pg_now d' = pg_now d" and "f (pg_tabs d) = Some x"
  using select_row_Inr [OF pg_call_InrD [OF assms]] by simp_all


section \<open>Operations that move credits\<close>

lemma add_balance_Inr:
  assumes "pg_call (add_balance i a) d = (Inr v, d')"
  shows "\<exists>b. balance_of i (pg_tabs d) = Some b \<and> v = b + a \<and> 0 \<le> v \<and> v \<le> max_i64 \<and>
      pg_tabs d' = (pg_tabs d)\<lparr>t_users :=
        map (set_balance_row i v (pg_now d)) (t_users (pg_tabs d))\<rparr> \<and> pg_now d' = pg_now d"
proof -
  let ?d = "d\<lparr>pg_fates := tl (pg_fates d)\<rparr>"
  from pg_call_InrD [OF assms] have eq: "add_balance i a ?d = (Inr v, d')" .
  then obtain b where b: "balance_of i (pg_tabs d) = Some b"
    by (cases "balance_of i (pg_tabs d)") (simp_all add: add_balance_def)
  with eq have r: "in_i64 (b + a)"
    and t: "and_then (update_balance i (b + a)) (\<lambda>_. stmt_return (b + a)) ?d = (Inr v, d')"
    by (simp_all add: add_balance_def split: if_splits)
  from t obtain x d1 where u: "update_balance i (b + a) ?d = (Inr x, d1)"
    and v: "stmt_return (b + a) d1 = (Inr v, d')" by (rule and_then_Inr)
  from v have "v = b + a" "d' = d1" by (simp_all add: stmt_return_def)
  moreover have "user_by_id i (pg_tabs d) \<noteq> None" using b by (auto simp: balance_of_def)
  ultimately show ?thesis
    using b r update_balance_Inr [OF u] by (simp add: in_i64_def)
qed

text \<open>The tables after a completed transaction body.\<close>

lemma deposit_tx_Inr:
  assumes "deposit_tx i a idem d = (Inr v, d')"
  obtains b x where "balance_of i (pg_tabs d) = Some b" "v = b + a" "0 \<le> v" "v \<le> max_i64"
    "pg_tabs d' = posting i v (pg_now d)
       [ledger_entry x i ''deposit'' a v ''admin'' None idem (pg_now d)] (pg_tabs d)"
    "fresh_rows i (t_ledger (pg_tabs d))
       [ledger_entry x i ''deposit'' a v ''admin'' None idem (pg_now d)]"
proof -
  from assms [unfolded deposit_tx_def] obtain w d3 where
    a: "pg_call (add_balance i a) d = (Inr w, d3)" and
    r1: "and_then (pg_call (insert_ledger i ''deposit'' a w ''admin'' None idem))
         (\<lambda>_. stmt_return w) d3 = (Inr v, d')" by (rule and_then_Inr)
  from r1 obtain x d4 where ins: "pg_call (insert_ledger i ''deposit'' a w ''admin'' None idem) d3 = (Inr x, d4)"
    and ret: "stmt_return w d4 = (Inr v, d')" by (rule and_then_Inr)
  from ret have w: "w = v" "d' = d4" by (simp_all add: stmt_return_def)
  obtain b where b: "balance_of i (pg_tabs d) = Some b" "v = b + a" "0 \<le> v" "v \<le> max_i64"
    "pg_tabs d3 = (pg_tabs d)\<lparr>t_users := map (set_balance_row i v (pg_now d)) (t_users (pg_tabs d))\<rparr>"
    "pg_now d3 = pg_now d"
    using add_balance_Inr [OF a] by (auto simp: w)
  show thesis
    using that [OF b(1-4), of x] call_insert_ledger_Inr [OF ins] b(5,6)
    by (simp add: w posting_def fresh_rows_def)
qed

lemma hold_tx_Inr:
  assumes "hold_tx i h rid idem d = (Inr v, d')"
  obtains b x where "balance_of i (pg_tabs d) = Some b" "h \<le> b" "v = i64 (b - h)" "0 \<le> v"
    "pg_tabs d' = posting i v (pg_now d)
       [ledger_entry x i ''hold'' (i64 (- h)) v ''usage_log'' (Some rid) idem (pg_now d)] (pg_tabs d)"
    "fresh_rows i (t_ledger (pg_tabs d))
       [ledger_entry x i ''hold'' (i64 (- h)) v ''usage_log'' (Some rid) idem (pg_now d)]"
proof -
  let ?ins = "\<lambda>w. insert_ledger i ''hold'' (i64 (- h)) w ''usage_log'' (Some rid) idem"
  let ?rest = "\<lambda>b. and_then (pg_call (update_balance i (i64 (b - h))))
      (\<lambda>_. and_then (pg_call (?ins (i64 (b - h)))) (\<lambda>_. stmt_return (i64 (b - h))))"
  from assms [unfolded hold_tx_def Let_def] obtain b d3 where
    s: "pg_call (select_row (balance_of i)) d = (Inr b, d3)" and
    r: "(if b < h then stmt_fail (ErrMsg ''insufficient credits'') else ?rest b) d3 = (Inr v, d')"
    by (rule and_then_Inr)
  have b: "balance_of i (pg_tabs d) = Some b" "pg_tabs d3 = pg_tabs d" "pg_now d3 = pg_now d"
    using call_select_row_Inr [OF s] by simp_all
  from r have h: "h \<le> b" and r1: "?rest b d3 = (Inr v, d')"
    by (auto simp: stmt_fail_def split: if_splits)
  from r1 obtain u d4 where u: "pg_call (update_balance i (i64 (b - h))) d3 = (Inr u, d4)" and
    r2: "and_then (pg_call (?ins (i64 (b - h)))) (\<lambda>_. stmt_return (i64 (b - h))) d4 = (Inr v, d')"
    by (rule and_then_Inr)
  from r2 obtain x d5 where ins: "pg_call (?ins (i64 (b - h))) d4 = (Inr x, d5)"
    and ret: "stmt_return (i64 (b - h)) d5 = (Inr v, d')" by (rule and_then_Inr)
  from ret have w: "i64 (b - h) = v" "d' = d5" by (simp_all add: stmt_return_def)
  have nn: "user_by_id i (pg_tabs d) \<noteq> None" using b by (auto simp: balance_of_def)
  show thesis
    using that [OF b(1) h w(1) [symmetric], of x] call_insert_ledger_Inr [OF ins]
      call_update_balance_Inr [OF u] b(2,3) nn
    by (simp add: w posting_def fresh_rows_def)
qed

text \<open>One optional row of a settlement.\<close>

definition rows_if ::
    "int \<Rightarrow> uuid \<Rightarrow> uuid \<Rightarrow> string \<Rightarrow> int \<Rightarrow> int \<Rightarrow> uuid \<Rightarrow> string \<Rightarrow> instant \<Rightarrow>
     LedgerTransaction list" where
  "rows_if m x i ty a after rid idem n =
     (if m > 0 then [ledger_entry x i ty a after ''usage_log'' (Some rid) idem n] else [])"

lemma amounts_rows_if [simp]:
  "amounts (rows_if m x i ty a after rid idem n) = (if m > 0 then a else 0)"
  by (simp add: amounts_def rows_if_def)

lemma amounts_append [simp]: "amounts (xs @ ys) = amounts xs + amounts ys"
  by (simp add: amounts_def)

lemma fresh_rows_append:
  "fresh_rows i ts xs \<Longrightarrow> fresh_rows i (ts @ xs) ys \<Longrightarrow> fresh_rows i ts (xs @ ys)"
  by (auto simp: fresh_rows_def)

lemma ledger_row_if_positive_Inr:
  assumes "ledger_row_if_positive m i ty a after rid idem d = (Inr r, d')"
  obtains x where "r = (if m > 0 then Some x else None)"
    "pg_tabs d' = (pg_tabs d)\<lparr>t_ledger :=
       t_ledger (pg_tabs d) @ rows_if m x i ty a after rid idem (pg_now d)\<rparr>"
    "pg_now d' = pg_now d"
    "fresh_rows i (t_ledger (pg_tabs d)) (rows_if m x i ty a after rid idem (pg_now d))"
proof (cases "m > 0")
  case True
  let ?ins = "insert_ledger i ty a after ''usage_log'' (Some rid) idem"
  from assms True have "and_then (pg_call ?ins) (\<lambda>i. stmt_return (Some i)) d = (Inr r, d')"
    by (simp add: ledger_row_if_positive_def)
  then obtain x d1 where ins: "pg_call ?ins d = (Inr x, d1)" and "stmt_return (Some x) d1 = (Inr r, d')"
    by (rule and_then_Inr)
  then have "r = Some x" "d' = d1" by (simp_all add: stmt_return_def)
  with call_insert_ledger_Inr [OF ins] True show thesis
    by (intro that [of x]) (simp_all add: rows_if_def fresh_rows_def)
next
  case False
  with assms have "r = None" "d' = d"
    by (simp_all add: ledger_row_if_positive_def stmt_return_def)
  with False show thesis
    by (intro that [of 0]) (simp_all add: rows_if_def fresh_rows_def)
qed

definition usage_upd ::
    "uuid \<Rightarrow> UsageLog \<Rightarrow> int \<Rightarrow> LedgerTxnIDs \<Rightarrow> instant \<Rightarrow> UsageLog \<Rightarrow> UsageLog" where
  "usage_upd rid usage c ids n l =
     (if ul_RequestID l = rid
      then l\<lparr>ul_Status := ul_Status usage, ul_RawUsage := ul_RawUsage usage,
             ul_NormalizedUsage := ul_NormalizedUsage usage,
             ul_CreditsCapturedMicro := c, ul_LatencyMs := ul_LatencyMs usage,
             ul_CompletedAt := Some n, ul_CaptureTxnID := CaptureTxnID ids,
             ul_ReleaseTxnID := ReleaseTxnID ids\<rparr>
      else l)"

lemma usage_upd_simps [simp]:
  "ul_ID (usage_upd rid usage c ids n l) = ul_ID l"
  "ul_RequestID (usage_upd rid usage c ids n l) = ul_RequestID l"
  "ul_UserID (usage_upd rid usage c ids n l) = ul_UserID l"
  "ul_QuarkGateKeyID (usage_upd rid usage c ids n l) = ul_QuarkGateKeyID l"
  by (simp_all add: usage_upd_def)

lemma usage_upd_comp [simp]:
  "ul_ID \<circ> usage_upd rid usage c ids n = ul_ID"
  "ul_RequestID \<circ> usage_upd rid usage c ids n = ul_RequestID"
  by (simp_all add: fun_eq_iff)

lemma call_complete_usage_Inr:
  assumes "pg_call (complete_usage rid usage c ids) d = (Inr x, d')"
  shows "pg_tabs d' = (pg_tabs d)\<lparr>t_usage :=
      map (usage_upd rid usage c ids (pg_now d)) (t_usage (pg_tabs d))\<rparr>"
    and "pg_now d' = pg_now d"
  using pg_call_InrD [OF assms]
  by (auto simp: complete_usage_def usage_upd_def [abs_def] Let_def split: if_splits)

lemma settle_tx_Inr:
  fixes c r :: int and b1 v :: "int \<Rightarrow> int"
  assumes "settle_tx ustr i rid c r usage clientIdem d = (Inr ids, d')"
  defines "b1 \<equiv> \<lambda>b. if c > 0 then i64 (b - c) else b"
    and "v \<equiv> \<lambda>b. if r > 0 then i64 (b1 b + r) else b1 b"
    and "crow \<equiv> \<lambda>b x. rows_if c x i ''capture'' (i64 (- c)) (b1 b) rid
           (settle_idem ustr ''capture-'' rid clientIdem) (pg_now d)"
    and "rrow \<equiv> \<lambda>b x. rows_if r x i ''release'' r (v b) rid
           (settle_idem ustr ''release-'' rid clientIdem) (pg_now d)"
  obtains b x y where "balance_of i (pg_tabs d) = Some b" "0 \<le> v b"
    "ids = \<lparr>CaptureTxnID = (if c > 0 then Some x else None),
            ReleaseTxnID = (if r > 0 then Some y else None)\<rparr>"
    "fresh_rows i (t_ledger (pg_tabs d)) (crow b x @ rrow b y)"
    "pg_tabs d' = (posting i (v b) (pg_now d) (crow b x @ rrow b y) (pg_tabs d))\<lparr>t_usage :=
       map (usage_upd rid usage c ids (pg_now d)) (t_usage (pg_tabs d))\<rparr>"
proof -
  let ?ci = "settle_idem ustr ''capture-'' rid clientIdem"
  let ?ri = "settle_idem ustr ''release-'' rid clientIdem"
  let ?done = "\<lambda>b cid rid'. and_then (pg_call (update_balance i (v b))) (\<lambda>_.
      and_then (pg_call (complete_usage rid usage c \<lparr>CaptureTxnID = cid, ReleaseTxnID = rid'\<rparr>))
        (\<lambda>_. stmt_return \<lparr>CaptureTxnID = cid, ReleaseTxnID = rid'\<rparr>))"
  let ?release = "\<lambda>b cid. and_then
      (ledger_row_if_positive r i ''release'' r (v b) rid ?ri) (?done b cid)"
  let ?capture = "\<lambda>b. and_then
      (ledger_row_if_positive c i ''capture'' (i64 (- c)) (b1 b) rid ?ci) (?release b)"
  from assms(1) obtain b d3 where s: "pg_call (select_row (balance_of i)) d = (Inr b, d3)" and
    cap: "?capture b d3 = (Inr ids, d')"
    unfolding settle_tx_def Let_def v_def b1_def by (rule and_then_Inr)
  have b: "balance_of i (pg_tabs d) = Some b" "pg_tabs d3 = pg_tabs d" "pg_now d3 = pg_now d"
    using call_select_row_Inr [OF s] by simp_all
  from cap obtain cid d4 where
    c4: "ledger_row_if_positive c i ''capture'' (i64 (- c)) (b1 b) rid ?ci d3 = (Inr cid, d4)" and
    rel: "?release b cid d4 = (Inr ids, d')" by (rule and_then_Inr)
  obtain x where x: "cid = (if c > 0 then Some x else None)"
    "pg_tabs d4 = (pg_tabs d)\<lparr>t_ledger := t_ledger (pg_tabs d) @ crow b x\<rparr>"
    "pg_now d4 = pg_now d" "fresh_rows i (t_ledger (pg_tabs d)) (crow b x)"
    using ledger_row_if_positive_Inr [OF c4] b by (metis crow_def)
  from rel obtain rid' d5 where
    r5: "ledger_row_if_positive r i ''release'' r (v b) rid ?ri d4 = (Inr rid', d5)" and
    dn: "?done b cid rid' d5 = (Inr ids, d')" by (rule and_then_Inr)
  obtain y where y: "rid' = (if r > 0 then Some y else None)"
    "pg_tabs d5 = (pg_tabs d)\<lparr>t_ledger := t_ledger (pg_tabs d) @ crow b x @ rrow b y\<rparr>"
    "pg_now d5 = pg_now d" "fresh_rows i (t_ledger (pg_tabs d) @ crow b x) (rrow b y)"
    using ledger_row_if_positive_Inr [OF r5] x(2,3) by (auto simp: rrow_def)
  from dn obtain u d6 where u: "pg_call (update_balance i (v b)) d5 = (Inr u, d6)" and
    fc: "and_then (pg_call (complete_usage rid usage c \<lparr>CaptureTxnID = cid, ReleaseTxnID = rid'\<rparr>))
      (\<lambda>_. stmt_return \<lparr>CaptureTxnID = cid, ReleaseTxnID = rid'\<rparr>) d6 = (Inr ids, d')"
    by (rule and_then_Inr)
  from fc obtain z d7 where
    cu: "pg_call (complete_usage rid usage c \<lparr>CaptureTxnID = cid, ReleaseTxnID = rid'\<rparr>) d6 = (Inr z, d7)" and
    ret: "stmt_return \<lparr>CaptureTxnID = cid, ReleaseTxnID = rid'\<rparr> d7 = (Inr ids, d')" by (rule and_then_Inr)
  have ids: "ids = \<lparr>CaptureTxnID = cid, ReleaseTxnID = rid'\<rparr>" "d' = d7"
    using ret by (simp_all add: stmt_return_def)
  have nn: "user_by_id i (pg_tabs d5) \<noteq> None"
    using b(1) by (auto simp: balance_of_def user_by_id_def y(2))
  show thesis
    using that [OF b(1), of x y] call_update_balance_Inr [OF u] nn call_complete_usage_Inr [OF cu]
      fresh_rows_append [OF x(4) y(4)] y(1-3) x(1) ids
    by (simp add: posting_def)
qed

section \<open>Exact arithmetic of the answered operations\<close>

text \<open>
  The Go code computes with wrapping 64-bit integers; whatever wraps shows as a negative balance
  and is refused by the table's \<open>CHECK\<close>.  So an answered operation did exact arithmetic.
\<close>

lemma hold_exact:
  assumes "0 \<le> b" "b \<le> max_i64" "in_i64 h" "h \<le> b" "0 \<le> i64 (b - h)"
  shows "i64 (b - h) = b - h" "i64 (- h) = - h"
proof -
  show e: "i64 (b - h) = b - h"
    using assms by (intro i64_nonneg_exact) (simp_all add: in_i64_iff max_i64_def min_i64_def)
  have "b - h \<le> max_i64" using in_i64_i64 [of "b - h"] by (simp add: e in_i64_def)
  then have "in_i64 (- h)" using assms by (simp add: in_i64_iff max_i64_def)
  then show "i64 (- h) = - h" by simp
qed

definition settled :: "int \<Rightarrow> int \<Rightarrow> int \<Rightarrow> int" where
  "settled c r b = b - max c 0 + max r 0"

lemma settle_exact:
  fixes c r b :: int
  defines "b1 \<equiv> if c > 0 then i64 (b - c) else b"
  defines "v \<equiv> if r > 0 then i64 (b1 + r) else b1"
  assumes "0 \<le> b" "b \<le> max_i64" "in_i64 c" "in_i64 r" "0 \<le> v"
  shows "v = settled c r b" and "i64 (- c) = - c \<or> c \<le> 0" and "b1 = b - max c 0"
proof -
  have c: "in_i64 (b - max c 0)" using assms(3-5) by (auto simp: in_i64_iff max_i64_def max_def)
  then show b1: "b1 = b - max c 0" by (cases "c > 0") (simp_all add: b1_def)
  show "v = settled c r b"
  proof (cases "r > 0")
    case True
    have "0 \<le> i64 (b1 + r)" using assms True by (simp add: v_def)
    moreover have "min_i64 \<le> b1 + r" "b1 + r \<le> 2 * max_i64 + 1"
      using True c assms(6) by (simp_all add: b1 in_i64_iff max_i64_def min_i64_def)
    ultimately have "i64 (b1 + r) = b1 + r" by (rule i64_nonneg_exact)
    then show ?thesis using True by (simp add: v_def settled_def b1)
  qed (simp add: v_def settled_def b1)
  show "i64 (- c) = - c \<or> c \<le> 0"
  proof (cases "c > 0")
    case True
    then have "in_i64 (- c)" using assms(5) by (simp add: in_i64_iff)
    then show ?thesis by simp
  qed simp
qed

section \<open>Preservation of the invariant\<close>

lemma db_inv_usage_upd [simp]:
  "db_inv (T\<lparr>t_usage := map (usage_upd rid usage c ids n) (t_usage T)\<rparr>) = db_inv T"
  by (simp add: db_inv_defs ledger_sum_def image_image)

lemma on_successI:
  "(\<And>d x d'. P (pg_tabs d) \<Longrightarrow> q d = (Inr x, d') \<Longrightarrow> P (pg_tabs d')) \<Longrightarrow> on_success P q"
  by (simp add: on_success_def)

lemma on_successD: "on_success P q \<Longrightarrow> P (pg_tabs d) \<Longrightarrow> q d = (Inr x, d') \<Longrightarrow> P (pg_tabs d')"
  by (simp add: on_success_def)

lemma deposit_tx_inv: "on_success db_inv (deposit_tx i a idem)"
proof (rule on_successI)
  fix d :: pg and v d'
  assume inv: "db_inv (pg_tabs d)" and eq: "deposit_tx i a idem d = (Inr v, d')"
  from eq show "db_inv (pg_tabs d')"
  proof (rule deposit_tx_Inr)
    fix b x
    let ?r = "[ledger_entry x i ''deposit'' a v ''admin'' None idem (pg_now d)]"
    assume b: "balance_of i (pg_tabs d) = Some b" "v = b + a" "0 \<le> v" "v \<le> max_i64"
      and t: "pg_tabs d' = posting i v (pg_now d) ?r (pg_tabs d)"
      and f: "fresh_rows i (t_ledger (pg_tabs d)) ?r"
    show ?thesis
      unfolding t using inv b(1) f by (rule db_inv_posting) (use b in \<open>simp_all add: amounts_def\<close>)
  qed
qed

lemma hold_tx_inv:
  assumes "in_i64 h"
  shows "on_success db_inv (hold_tx i h rid idem)"
proof (rule on_successI)
  fix d :: pg and v d'
  assume inv: "db_inv (pg_tabs d)" and eq: "hold_tx i h rid idem d = (Inr v, d')"
  from eq show "db_inv (pg_tabs d')"
  proof (rule hold_tx_Inr)
    fix b x
    let ?r = "[ledger_entry x i ''hold'' (i64 (- h)) v ''usage_log'' (Some rid) idem (pg_now d)]"
    assume b: "balance_of i (pg_tabs d) = Some b" "h \<le> b" "v = i64 (b - h)" "0 \<le> v"
      and t: "pg_tabs d' = posting i v (pg_now d) ?r (pg_tabs d)"
      and f: "fresh_rows i (t_ledger (pg_tabs d)) ?r"
    have "0 \<le> b" "b \<le> max_i64" using balance_of_range [OF db_inv_users [OF inv] b(1)] by auto
    note ex = hold_exact [OF this assms b(2)]
    have "v \<le> max_i64" using in_i64_i64 [of "b - h"] b(3) by (simp add: in_i64_def)
    then show ?thesis
      unfolding t using inv b(1) f
      by (intro db_inv_posting) (use b ex in \<open>simp_all add: amounts_def\<close>)
  qed
qed

lemma settle_tx_inv:
  assumes "in_i64 c" "in_i64 r"
  shows "on_success db_inv (settle_tx ustr i rid c r usage idem)"
proof (rule on_successI)
  fix d :: pg and ids d'
  assume inv: "db_inv (pg_tabs d)" and eq: "settle_tx ustr i rid c r usage idem d = (Inr ids, d')"
  let ?b1 = "\<lambda>b. if c > 0 then i64 (b - c) else b"
  let ?v = "\<lambda>b. if r > 0 then i64 (?b1 b + r) else ?b1 b"
  from eq show "db_inv (pg_tabs d')"
  proof (rule settle_tx_Inr)
    fix b x y
    let ?rows = "rows_if c x i ''capture'' (i64 (- c)) (?b1 b) rid (settle_idem ustr ''capture-'' rid idem) (pg_now d)
      @ rows_if r y i ''release'' r (?v b) rid (settle_idem ustr ''release-'' rid idem) (pg_now d)"
    assume b: "balance_of i (pg_tabs d) = Some b" and v: "0 \<le> ?v b"
      and f: "fresh_rows i (t_ledger (pg_tabs d)) ?rows"
      and t: "pg_tabs d' = (posting i (?v b) (pg_now d) ?rows (pg_tabs d))\<lparr>t_usage :=
         map (usage_upd rid usage c ids (pg_now d)) (t_usage (pg_tabs d))\<rparr>"
    have "0 \<le> b" "b \<le> max_i64" using balance_of_range [OF db_inv_users [OF inv] b(1)] by auto
    note ex = settle_exact [OF this assms v]
    have "in_i64 b" using \<open>0 \<le> b\<close> \<open>b \<le> max_i64\<close> by (simp add: in_i64_def min_i64_def)
    then have "in_i64 (?v b)" by simp
    then have "?v b \<le> max_i64" by (simp only: in_i64_def)
    moreover have "?v b = b + amounts ?rows" using ex(1,2) by (auto simp: settled_def)
    ultimately have "db_inv (posting i (?v b) (pg_now d) ?rows (pg_tabs d))"
      by (intro db_inv_posting [OF inv b f] v)
    moreover have "t_usage (pg_tabs d) = t_usage (posting i (?v b) (pg_now d) ?rows (pg_tabs d))"
      by (simp add: posting_def)
    ultimately show ?thesis by (simp only: t db_inv_usage_upd)
  qed
qed

lemma keeps_DepositCredits [inv_rules]: "keeps db_inv (DepositCredits i a idem)"
  unfolding DepositCredits_def by (rule keeps_in_tx [OF deposit_tx_inv])

lemma keeps_ApplyHold [inv_rules]: "in_i64 h \<Longrightarrow> keeps db_inv (ApplyHold i h rid idem)"
  unfolding ApplyHold_def by (rule keeps_in_tx [OF hold_tx_inv])

lemma keeps_CaptureAndRelease [inv_rules]:
  "in_i64 c \<Longrightarrow> in_i64 r \<Longrightarrow> keeps db_inv (CaptureAndRelease ustr i rid c r usage idem)"
  unfolding CaptureAndRelease_def by (rule keeps_in_tx [OF settle_tx_inv])

text \<open>Operations that add or change rows elsewhere.\<close>

lemma keeps_if_update:
  assumes "\<And>d. P (pg_tabs d) \<Longrightarrow> pg_tabs (snd (q d)) = pg_tabs d \<or> P (pg_tabs (snd (q d)))"
  shows "keeps P (pg_call q)"
proof (rule keeps_pg_call, rule keepsI)
  fix d :: pg assume "P (pg_tabs d)"
  with assms [OF this] show "P (pg_tabs (snd (q d)))" by auto
qed

lemma ledger_sum_cong: "t_ledger T = t_ledger T' \<Longrightarrow> ledger_sum i T = ledger_sum i T'"
  by (simp add: ledger_sum_def)

lemma db_inv_new_user:
  assumes inv: "db_inv T" and new: "u_ID u \<notin> u_ID ` set (t_users T)" "u_Email u \<notin> u_Email ` set (t_users T)"
    and z: "u_CreditBalanceMicro u = 0"
  shows "db_inv (T\<lparr>t_users := t_users T @ [u]\<rparr>)"
proof -
  have "filter (\<lambda>t. lt_UserID t = u_ID u) (t_ledger T) = []"
    using inv new(1) unfolding filter_empty_conv db_inv_def ledger_ok_def by (metis image_subset_iff)
  then have "ledger_sum (u_ID u) T = 0" by (simp add: ledger_sum_def)
  moreover have "ledger_sum i (T\<lparr>t_users := t_users T @ [u]\<rparr>) = ledger_sum i T" for i
    by (simp add: ledger_sum_def)
  ultimately show ?thesis using inv new z by (auto simp: db_inv_defs max_i64_def)
qed

lemma keeps_CreateUser [inv_rules]: "keeps db_inv (CreateUser email)"
  unfolding CreateUser_def
proof (rule keeps_if_update, goal_cases)
  case (1 d)
  then show ?case
    by (cases "next_uuid (pg_uuids d)") (simp add: Let_def db_inv_new_user del: image_iff)
qed

lemma db_inv_new_key:
  "db_inv T \<Longrightarrow> k_ID k \<notin> k_ID ` set (t_keys T) \<Longrightarrow> k_KeyHash k \<notin> k_KeyHash ` set (t_keys T) \<Longrightarrow>
     k_UserID k \<in> u_ID ` set (t_users T) \<Longrightarrow> db_inv (T\<lparr>t_keys := t_keys T @ [k]\<rparr>)"
  unfolding db_inv_defs by (auto simp: ledger_sum_def simp del: image_iff)

lemma keeps_CreateKey [inv_rules]: "keeps db_inv (CreateKey i name pre hash scopes rpm)"
  unfolding CreateKey_def
proof (rule keeps_if_update, goal_cases)
  case (1 d)
  then show ?case
    by (cases "next_uuid (pg_uuids d)") (simp add: Let_def db_inv_new_key del: image_iff)
qed

lemma db_inv_new_usage:
  "db_inv T \<Longrightarrow> ul_ID l \<notin> ul_ID ` set (t_usage T) \<Longrightarrow> ul_RequestID l \<notin> ul_RequestID ` set (t_usage T) \<Longrightarrow>
     ul_UserID l \<in> u_ID ` set (t_users T) \<Longrightarrow> ul_QuarkGateKeyID l \<in> k_ID ` set (t_keys T) \<Longrightarrow>
     db_inv (T\<lparr>t_usage := t_usage T @ [l]\<rparr>)"
  unfolding db_inv_defs by (auto simp: ledger_sum_def simp del: image_iff)

lemma keeps_CreateUsageLog [inv_rules]: "keeps db_inv (CreateUsageLog l)"
  unfolding CreateUsageLog_def
proof (rule keeps_if_update, goal_cases)
  case (1 d)
  then show ?case by (simp add: Let_def db_inv_new_usage del: image_iff)
qed

lemma db_inv_new_session:
  "db_inv T \<Longrightarrow> ms_request_id m \<notin> ms_request_id ` set (t_sessions T) \<Longrightarrow>
     ms_user_id m \<in> u_ID ` set (t_users T) \<Longrightarrow> in_i64 (ms_hold_micro m) \<Longrightarrow>
     db_inv (T\<lparr>t_sessions := t_sessions T @ [m]\<rparr>)"
  unfolding db_inv_defs by (auto simp: ledger_sum_def simp del: image_iff)

lemma keeps_CreateMeteringSession [inv_rules]: "in_i64 h \<Longrightarrow> keeps db_inv (CreateMeteringSession rid i h e)"
  unfolding CreateMeteringSession_def
proof (rule keeps_if_update, goal_cases)
  case (1 d)
  then show ?case by (simp add: Let_def db_inv_new_session del: image_iff)
qed

lemma db_inv_filter_sessions: "db_inv T \<Longrightarrow> db_inv (T\<lparr>t_sessions := filter P (t_sessions T)\<rparr>)"
  unfolding db_inv_defs by (auto simp: ledger_sum_def distinct_map_filter)

lemma keeps_DeleteMeteringSession [inv_rules]: "keeps db_inv (DeleteMeteringSession rid)"
  unfolding DeleteMeteringSession_def
proof (rule keeps_if_update, goal_cases)
  case (1 d)
  then show ?case by (simp add: Let_def db_inv_filter_sessions)
qed

lemma revoke_row_simps [simp]:
  "k_ID (revoke_row i n k) = k_ID k" "k_KeyHash (revoke_row i n k) = k_KeyHash k"
  "k_UserID (revoke_row i n k) = k_UserID k" "k_KeyPrefix (revoke_row i n k) = k_KeyPrefix k"
  by (simp_all add: revoke_row_def)

lemma revoke_row_comp [simp]:
  "k_ID \<circ> revoke_row i n = k_ID" "k_KeyHash \<circ> revoke_row i n = k_KeyHash"
  by (simp_all add: fun_eq_iff)

lemma db_inv_revoke: "db_inv T \<Longrightarrow> db_inv (T\<lparr>t_keys := map (revoke_row i n) (t_keys T)\<rparr>)"
  unfolding db_inv_defs by (auto simp: ledger_sum_def image_image)

lemma keeps_RevokeKey [inv_rules]: "keeps db_inv (RevokeKey i)"
  unfolding RevokeKey_def
proof (rule keeps_if_update, goal_cases)
  case (1 d)
  then show ?case by (simp add: Let_def db_inv_revoke)
qed

text \<open>Queries leave the tables alone.\<close>

lemma keeps_query: "(\<And>d. pg_tabs (snd (q d)) = pg_tabs d) \<Longrightarrow> keeps P (pg_call q)"
  by (rule keeps_if_update) simp

lemma keeps_queries [inv_rules]:
  "keeps P (GetUser i)" "keeps P (FindKeyByHash h)" "keeps P ListProviderConfigs"
  "keeps P (GetProviderBySlug s)" "keeps P (GetExpiredSessions n)" "keeps P (LedgerBalance i)"
  "keeps P (GetUsageLogByRequestID rid)" "keeps P (GetMeteringSession rid)"
  "keeps P (IsIdempotencyUsed key)" "keeps P (UsageSummary24h i)" "keeps P (BurnRate24h i)"
  "keeps P (ListLedgerByReference rid)"
  by (auto simp: GetUser_def FindKeyByHash_def ListProviderConfigs_def GetProviderBySlug_def
      GetExpiredSessions_def LedgerBalance_def GetUsageLogByRequestID_def GetMeteringSession_def
      IsIdempotencyUsed_def UsageSummary24h_def BurnRate24h_def ListLedgerByReference_def Let_def
      select_row_def intro!: keeps_query split: option.split)

lemma keeps_ReconcileUserBalance [inv_rules]: "keeps P (ReconcileUserBalance i)"
  unfolding ReconcileUserBalance_def by (intro inv_rules)

text \<open>The repair keeps the invariant when it writes the sum the ledger still has.\<close>

lemma SetUserBalanceFromLedger_keeps:
  assumes inv: "db_inv (pg_tabs d)" and s: "ledger_sum i (pg_tabs d) = s" "in_i64 s"
  shows "db_inv (pg_tabs (snd (SetUserBalanceFromLedger i s d)))"
proof -
  let ?d = "d\<lparr>pg_fates := tl (pg_fates d)\<rparr>"
  have "db_inv (pg_tabs (snd (update_balance i s ?d)))"
  proof (cases "balance_of i (pg_tabs d)")
    case None
    then have "\<forall>u \<in> set (t_users (pg_tabs d)). u_ID u \<noteq> i"
      using user_by_id_None [of i "pg_tabs d"] by (auto simp: balance_of_def)
    then have "map (set_balance_row i s n) (t_users (pg_tabs d)) = t_users (pg_tabs d)" for n
      by (intro map_id_on) (auto simp: set_balance_row_def)
    then show ?thesis using inv by (simp add: update_balance_def Let_def)
  next
    case (Some b)
    then have "b = s" using balance_of_ledger_sum [OF inv] s by simp
    moreover have "0 \<le> b" "b \<le> max_i64"
      using balance_of_range [OF db_inv_users [OF inv] Some] by auto
    moreover have "fresh_rows i (t_ledger (pg_tabs d)) []" by (simp add: fresh_rows_def)
    ultimately have "db_inv (posting i s (pg_now d) [] (pg_tabs d))"
      by (intro db_inv_posting [OF inv Some]) (simp_all add: amounts_def)
    then show ?thesis using inv by (simp add: update_balance_def Let_def posting_def)
  qed
  then show ?thesis using inv
    unfolding SetUserBalanceFromLedger_def
    by (cases rule: pg_call_cases [of d "update_balance i s"]) simp_all
qed

end
