(* ===== verification/Credits.thy ===== *)
theory Credits
  imports Ledger
begin

text \<open>
  What the credit ledger promises to its clients (the gateway's solvency check, the ledger worker,
  the sweeper and the admin commands), as the interface \<open>credit_ledger\<close>: three ways to move
  credits, each with its exact effect on the balances, and an invariant they keep.  The clients'
  facts about whole histories are proved once in the interface; the interpretation \<open>pgl\<close>
  discharges its laws for the transactions of \<open>Store\<close>, committed or not acknowledged alike.
\<close>

section \<open>Outcome of a transaction\<close>

definition committed :: "'a stmt \<Rightarrow> tables \<Rightarrow> tables \<Rightarrow> bool" where
  "committed body T T' \<longleftrightarrow> (\<exists>d x d'. pg_tabs d = T \<and> body d = (Inr x, d') \<and> pg_tabs d' = T')"

lemma committedI: "body d = (Inr x, d') \<Longrightarrow> committed body (pg_tabs d) (pg_tabs d')"
  by (auto simp: committed_def)

text \<open>
  All or nothing: a transaction either leaves the tables alone or takes its whole effect, and only
  an unanswered one can take effect without being acknowledged.
\<close>

lemma in_tx_outcome:
  assumes "in_tx body d = (r, d')"
  shows "(\<exists>e. r = Inl e \<and> pg_tabs d' = pg_tabs d) \<or>
      (committed body (pg_tabs d) (pg_tabs d') \<and> (r = Inl ErrConn \<or> (\<exists>x. r = Inr x)))"
proof -
  let ?d1 = "d\<lparr>pg_fates := tl (pg_fates d)\<rparr>"
  obtain q d2 where b: "body ?d1 = (q, d2)" by (cases "body ?d1")
  have com: "q = Inr x \<Longrightarrow> committed body (pg_tabs d) (pg_tabs d2)" for x
    using committedI [of body ?d1] b by simp
  show ?thesis
  proof (cases "fst (next_fate (pg_fates d)) = Answered")
    case True
    show ?thesis
    proof (cases q)
      case (Inl e)
      with assms b True show ?thesis by (auto simp: in_tx_def pg_call_def)
    next
      case (Inr x)
      with assms b True have "pg_commit (pg_tabs d) x d2 = (r, d')"
        by (simp add: in_tx_def pg_call_def)
      with com [OF Inr] show ?thesis
        by (cases "fst (next_fate (pg_fates d2))") (auto simp: pg_commit_def)
    qed
  next
    case False
    with assms show ?thesis
      by (cases "fst (next_fate (pg_fates d))") (auto simp: in_tx_def pg_call_def)
  qed
qed

section \<open>The interface\<close>

datatype credit_event =
    Deposited uuid int
  | Held uuid int
  | Settled uuid int int

fun delta :: "uuid \<Rightarrow> credit_event \<Rightarrow> int" where
  "delta u (Deposited i a) = (if i = u then a else 0)"
| "delta u (Held i h) = (if i = u then - h else 0)"
| "delta u (Settled i c r) = (if i = u then max r 0 - max c 0 else 0)"

locale credit_ledger =
  fixes inv :: "'s \<Rightarrow> bool"
    and bal :: "uuid \<Rightarrow> 's \<Rightarrow> int option"
    and deposits :: "uuid \<Rightarrow> int \<Rightarrow> 's \<Rightarrow> 's \<Rightarrow> bool"
    and holds :: "uuid \<Rightarrow> int \<Rightarrow> 's \<Rightarrow> 's \<Rightarrow> bool"
    and settles :: "uuid \<Rightarrow> int \<Rightarrow> int \<Rightarrow> 's \<Rightarrow> 's \<Rightarrow> bool"
  assumes bal_nonneg: "inv s \<Longrightarrow> bal u s = Some b \<Longrightarrow> 0 \<le> b"
    and deposit_inv: "inv s \<Longrightarrow> deposits i a s s' \<Longrightarrow> inv s'"
    and deposit_bal: "inv s \<Longrightarrow> deposits i a s s' \<Longrightarrow>
      bal u s' = map_option (\<lambda>b. b + delta u (Deposited i a)) (bal u s)"
    and hold_inv: "inv s \<Longrightarrow> holds i h s s' \<Longrightarrow> inv s'"
    and hold_bal: "inv s \<Longrightarrow> holds i h s s' \<Longrightarrow>
      bal u s' = map_option (\<lambda>b. b + delta u (Held i h)) (bal u s)"
    and hold_guard: "inv s \<Longrightarrow> holds i h s s' \<Longrightarrow> \<exists>b. bal i s = Some b \<and> h \<le> b"
    and settle_inv: "inv s \<Longrightarrow> settles i c r s s' \<Longrightarrow> inv s'"
    and settle_bal: "inv s \<Longrightarrow> settles i c r s s' \<Longrightarrow>
      bal u s' = map_option (\<lambda>b. b + delta u (Settled i c r)) (bal u s)"
begin

fun ev_step :: "credit_event \<Rightarrow> 's \<Rightarrow> 's \<Rightarrow> bool" where
  "ev_step (Deposited i a) s s' = deposits i a s s'"
| "ev_step (Held i h) s s' = holds i h s s'"
| "ev_step (Settled i c r) s s' = settles i c r s s'"

fun ev_run :: "'s \<Rightarrow> credit_event list \<Rightarrow> 's \<Rightarrow> bool" where
  "ev_run s [] s' = (s' = s)"
| "ev_run s (e # es) s' = (\<exists>t. ev_step e s t \<and> ev_run t es s')"

lemma ev_step_inv: "inv s \<Longrightarrow> ev_step e s s' \<Longrightarrow> inv s'"
  by (cases e) (auto intro: deposit_inv hold_inv settle_inv)

lemma ev_step_bal:
  "inv s \<Longrightarrow> ev_step e s s' \<Longrightarrow> bal u s' = map_option (\<lambda>b. b + delta u e) (bal u s)"
proof (cases e)
  case (Deposited i a)
  then show "inv s \<Longrightarrow> ev_step e s s' \<Longrightarrow> ?thesis" using deposit_bal [of s i a s' u] by simp
next
  case (Held i h)
  then show "inv s \<Longrightarrow> ev_step e s s' \<Longrightarrow> ?thesis" using hold_bal [of s i h s' u] by simp
next
  case (Settled i c r)
  then show "inv s \<Longrightarrow> ev_step e s s' \<Longrightarrow> ?thesis" using settle_bal [of s i c r s' u] by simp
qed

lemma ev_run_inv: "inv s \<Longrightarrow> ev_run s es s' \<Longrightarrow> inv s'"
proof (induction es arbitrary: s)
  case Nil
  then show ?case by simp
next
  case (Cons e es)
  from Cons.prems(2) obtain t where t: "ev_step e s t" "ev_run t es s'" by auto
  from ev_step_inv [OF Cons.prems(1) t(1)] t(2) show ?case by (rule Cons.IH)
qed

lemma ev_run_bal:
  "inv s \<Longrightarrow> ev_run s es s' \<Longrightarrow>
     bal u s' = map_option (\<lambda>b. b + sum_list (map (delta u) es)) (bal u s)"
proof (induction es arbitrary: s)
  case Nil
  then show ?case by (cases "bal u s") simp_all
next
  case (Cons e es)
  from Cons.prems(2) obtain t where t: "ev_step e s t" "ev_run t es s'" by auto
  have "bal u s' = map_option (\<lambda>b. b + sum_list (map (delta u) es)) (bal u t)"
    using Cons.IH [OF ev_step_inv [OF Cons.prems(1) t(1)] t(2)] .
  then show ?case
    using ev_step_bal [OF Cons.prems(1) t(1), of u] by (cases "bal u s") simp_all
qed

text \<open>No history overdraws an account: what left it never exceeds what it had and received.\<close>

lemma ev_run_solvent:
  assumes "inv s" "ev_run s es s'" "bal u s = Some b"
  shows "0 \<le> b + sum_list (map (delta u) es)"
  using ev_run_bal [OF assms(1,2), of u] ev_run_inv [OF assms(1,2)] assms(3)
  by (auto intro: bal_nonneg)

end

section \<open>The Store's transactions implement it\<close>

definition deposit_committed :: "uuid \<Rightarrow> int \<Rightarrow> tables \<Rightarrow> tables \<Rightarrow> bool" where
  "deposit_committed i a T T' \<longleftrightarrow> (\<exists>idem. committed (deposit_tx i a idem) T T')"

definition hold_committed :: "uuid \<Rightarrow> int \<Rightarrow> tables \<Rightarrow> tables \<Rightarrow> bool" where
  "hold_committed i h T T' \<longleftrightarrow> in_i64 h \<and> (\<exists>rid idem. committed (hold_tx i h rid idem) T T')"

definition settle_committed :: "uuid \<Rightarrow> int \<Rightarrow> int \<Rightarrow> tables \<Rightarrow> tables \<Rightarrow> bool" where
  "settle_committed i c r T T' \<longleftrightarrow> in_i64 c \<and> in_i64 r \<and>
     (\<exists>ustr rid usage idem. committed (settle_tx ustr i rid c r usage idem) T T')"

lemma deposit_tx_effect:
  assumes inv: "db_inv (pg_tabs d)" and eq: "deposit_tx i a idem d = (Inr v, d')"
  shows "db_inv (pg_tabs d')"
    and "balance_of u (pg_tabs d') =
      map_option (\<lambda>b. b + delta u (Deposited i a)) (balance_of u (pg_tabs d))"
proof -
  from eq obtain b x where b: "balance_of i (pg_tabs d) = Some b" "v = b + a" "0 \<le> v" "v \<le> max_i64"
    and t: "pg_tabs d' = posting i v (pg_now d)
       [ledger_entry x i ''deposit'' a v ''admin'' None idem (pg_now d)] (pg_tabs d)"
    and f: "fresh_rows i (t_ledger (pg_tabs d))
       [ledger_entry x i ''deposit'' a v ''admin'' None idem (pg_now d)]"
    by (rule deposit_tx_Inr)
  show "db_inv (pg_tabs d')" using deposit_tx_inv inv eq by (rule on_successD)
  show "balance_of u (pg_tabs d') =
      map_option (\<lambda>b. b + delta u (Deposited i a)) (balance_of u (pg_tabs d))"
    by (cases "balance_of u (pg_tabs d)") (auto simp: t balance_of_posting b)
qed

lemma hold_tx_effect:
  assumes inv: "db_inv (pg_tabs d)" and h: "in_i64 h"
    and eq: "hold_tx i h rid idem d = (Inr v, d')"
  shows "db_inv (pg_tabs d')"
    and "balance_of u (pg_tabs d') =
      map_option (\<lambda>b. b + delta u (Held i h)) (balance_of u (pg_tabs d))"
    and "\<exists>b. balance_of i (pg_tabs d) = Some b \<and> h \<le> b \<and> v = b - h"
    and "\<exists>x. t_ledger (pg_tabs d') = t_ledger (pg_tabs d) @
       [ledger_entry x i ''hold'' (- h) v ''usage_log'' (Some rid) idem (pg_now d)] \<and>
       idem \<notin> lt_IdempotencyKey ` set (t_ledger (pg_tabs d))"
proof -
  from eq obtain b x where b: "balance_of i (pg_tabs d) = Some b" "h \<le> b" "v = i64 (b - h)" "0 \<le> v"
    and t: "pg_tabs d' = posting i v (pg_now d)
       [ledger_entry x i ''hold'' (i64 (- h)) v ''usage_log'' (Some rid) idem (pg_now d)] (pg_tabs d)"
    and f: "fresh_rows i (t_ledger (pg_tabs d))
       [ledger_entry x i ''hold'' (i64 (- h)) v ''usage_log'' (Some rid) idem (pg_now d)]"
    by (rule hold_tx_Inr)
  have "0 \<le> b" "b \<le> max_i64" using balance_of_range [OF db_inv_users [OF inv] b(1)] by auto
  note ex = hold_exact [OF this h b(2)]
  have v: "v = b - h" and neg: "i64 (- h) = - h" using ex b(3,4) by simp_all
  show "db_inv (pg_tabs d')" using hold_tx_inv [OF h] inv eq by (rule on_successD)
  show "balance_of u (pg_tabs d') =
      map_option (\<lambda>b. b + delta u (Held i h)) (balance_of u (pg_tabs d))"
    by (cases "balance_of u (pg_tabs d)") (auto simp: t balance_of_posting b(1) v)
  show "\<exists>b. balance_of i (pg_tabs d) = Some b \<and> h \<le> b \<and> v = b - h"
    using b v by simp
  show "\<exists>x. t_ledger (pg_tabs d') = t_ledger (pg_tabs d) @
       [ledger_entry x i ''hold'' (- h) v ''usage_log'' (Some rid) idem (pg_now d)] \<and>
       idem \<notin> lt_IdempotencyKey ` set (t_ledger (pg_tabs d))"
    using f neg by (auto simp: t posting_def fresh_rows_def)
qed

lemma settle_tx_effect:
  assumes inv: "db_inv (pg_tabs d)" and cr: "in_i64 c" "in_i64 r"
    and eq: "settle_tx ustr i rid c r usage idem d = (Inr ids, d')"
  shows "db_inv (pg_tabs d')"
    and "balance_of u (pg_tabs d') =
      map_option (\<lambda>b. b + delta u (Settled i c r)) (balance_of u (pg_tabs d))"
    and "\<exists>x y b. balance_of i (pg_tabs d) = Some b \<and>
       t_ledger (pg_tabs d') = t_ledger (pg_tabs d) @
         rows_if c x i ''capture'' (- c) (b - c) rid (settle_idem ustr ''capture-'' rid idem) (pg_now d) @
         rows_if r y i ''release'' r (settled c r b) rid (settle_idem ustr ''release-'' rid idem) (pg_now d) \<and>
       ids = \<lparr>CaptureTxnID = (if c > 0 then Some x else None),
              ReleaseTxnID = (if r > 0 then Some y else None)\<rparr>"
    and "c > 0 \<Longrightarrow> settle_idem ustr ''capture-'' rid idem \<notin> lt_IdempotencyKey ` set (t_ledger (pg_tabs d))"
    and "r > 0 \<Longrightarrow> settle_idem ustr ''release-'' rid idem \<notin> lt_IdempotencyKey ` set (t_ledger (pg_tabs d))"
    and "t_usage (pg_tabs d') = map (usage_upd rid usage c ids (pg_now d)) (t_usage (pg_tabs d))"
    and "t_sessions (pg_tabs d') = t_sessions (pg_tabs d)"
proof -
  let ?b1 = "\<lambda>b. if c > 0 then i64 (b - c) else b"
  let ?v = "\<lambda>b. if r > 0 then i64 (?b1 b + r) else ?b1 b"
  let ?rows = "\<lambda>b x y. rows_if c x i ''capture'' (i64 (- c)) (?b1 b) rid (settle_idem ustr ''capture-'' rid idem) (pg_now d)
      @ rows_if r y i ''release'' r (?v b) rid (settle_idem ustr ''release-'' rid idem) (pg_now d)"
  from eq obtain b x y where b: "balance_of i (pg_tabs d) = Some b" and v: "0 \<le> ?v b"
    and ids: "ids = \<lparr>CaptureTxnID = (if c > 0 then Some x else None),
            ReleaseTxnID = (if r > 0 then Some y else None)\<rparr>"
    and f: "fresh_rows i (t_ledger (pg_tabs d)) (?rows b x y)"
    and t: "pg_tabs d' = (posting i (?v b) (pg_now d) (?rows b x y) (pg_tabs d))\<lparr>t_usage :=
       map (usage_upd rid usage c ids (pg_now d)) (t_usage (pg_tabs d))\<rparr>"
    by (rule settle_tx_Inr)
  have rng: "0 \<le> b" "b \<le> max_i64" using balance_of_range [OF db_inv_users [OF inv] b] by auto
  note ex = settle_exact [OF rng cr v]
  have bt: "balance_of j (T\<lparr>t_usage := us\<rparr>) = balance_of j T" for j T us
    by (simp add: balance_of_def user_by_id_def)
  show "db_inv (pg_tabs d')" using settle_tx_inv [OF cr] inv eq by (rule on_successD)
  show "balance_of u (pg_tabs d') =
      map_option (\<lambda>b. b + delta u (Settled i c r)) (balance_of u (pg_tabs d))"
    using ex(1) by (cases "balance_of u (pg_tabs d)") (auto simp: t bt balance_of_posting b settled_def)
  show "t_usage (pg_tabs d') = map (usage_upd rid usage c ids (pg_now d)) (t_usage (pg_tabs d))"
    and "t_sessions (pg_tabs d') = t_sessions (pg_tabs d)"
    by (simp_all add: t posting_def)
  show "c > 0 \<Longrightarrow> settle_idem ustr ''capture-'' rid idem \<notin> lt_IdempotencyKey ` set (t_ledger (pg_tabs d))"
    and "r > 0 \<Longrightarrow> settle_idem ustr ''release-'' rid idem \<notin> lt_IdempotencyKey ` set (t_ledger (pg_tabs d))"
    using f by (auto simp: fresh_rows_def rows_if_def)
  have "rows_if c x i ''capture'' (i64 (- c)) (?b1 b) rid idm n = rows_if c x i ''capture'' (- c) (b - c) rid idm n"
    for idm n using ex(2,3) by (auto simp: rows_if_def)
  moreover have "rows_if r y i ''release'' r (?v b) rid idm n = rows_if r y i ''release'' r (settled c r b) rid idm n"
    for idm n by (simp only: ex(1))
  ultimately have "?rows b x y =
      rows_if c x i ''capture'' (- c) (b - c) rid (settle_idem ustr ''capture-'' rid idem) (pg_now d) @
      rows_if r y i ''release'' r (settled c r b) rid (settle_idem ustr ''release-'' rid idem) (pg_now d)"
    by (simp only:)
  then show "\<exists>x y b. balance_of i (pg_tabs d) = Some b \<and>
       t_ledger (pg_tabs d') = t_ledger (pg_tabs d) @
         rows_if c x i ''capture'' (- c) (b - c) rid (settle_idem ustr ''capture-'' rid idem) (pg_now d) @
         rows_if r y i ''release'' r (settled c r b) rid (settle_idem ustr ''release-'' rid idem) (pg_now d) \<and>
       ids = \<lparr>CaptureTxnID = (if c > 0 then Some x else None),
              ReleaseTxnID = (if r > 0 then Some y else None)\<rparr>"
    using b ids by (intro exI [of _ x] exI [of _ y] exI [of _ b]) (simp add: t posting_def)
qed

interpretation pgl: credit_ledger db_inv balance_of deposit_committed hold_committed settle_committed
proof (unfold_locales, goal_cases)
  case (1 s u b)
  then show ?case using balance_of_range [OF db_inv_users] by blast
next
  case (2 s i a s')
  then show ?case by (auto simp: deposit_committed_def committed_def intro: deposit_tx_effect(1))
next
  case (3 s i a s' u)
  then show ?case
    by (auto simp: deposit_committed_def committed_def simp del: delta.simps intro: deposit_tx_effect(2))
next
  case (4 s i h s')
  then show ?case by (auto simp: hold_committed_def committed_def intro: hold_tx_effect(1))
next
  case (5 s i h s' u)
  then show ?case
    by (auto simp: hold_committed_def committed_def simp del: delta.simps intro: hold_tx_effect(2))
next
  case (6 s i h s')
  then show ?case by (auto simp: hold_committed_def committed_def dest: hold_tx_effect(3))
next
  case (7 s i c r s')
  then show ?case by (auto simp: settle_committed_def committed_def intro: settle_tx_effect(1))
next
  case (8 s i c r s' u)
  then show ?case
    by (auto simp: settle_committed_def committed_def simp del: delta.simps intro: settle_tx_effect(2))
qed

section \<open>A small database for concrete runs\<close>

definition demo_user :: User where
  "demo_user = \<lparr>u_ID = 1, u_Email = ''dev@quarkgate.dev'', u_Status = ''active'',
     u_CreditBalanceMicro = 50000000, u_CreatedAt = 0, u_UpdatedAt = 0\<rparr>"

definition demo_key :: QuarkGateKey where
  "demo_key = \<lparr>k_ID = 2, k_UserID = 1, k_KeyPrefix = ''qg_live_abcd'', k_KeyHash = ''h'', k_Name = ''dev-key'',
     k_Scopes = ''[]'', k_RateLimitRPM = 120, k_Status = ''active'', k_LastUsedAt = None,
     k_CreatedAt = 0, k_RevokedAt = None\<rparr>"

definition demo_tabs :: tables where
  "demo_tabs = \<lparr>t_users = [demo_user], t_keys = [demo_key], t_providers = [], t_vault = [],
     t_ledger = [ledger_entry 3 1 ''deposit'' 50000000 50000000 ''admin'' None ''deposit-1'' 0],
     t_usage = [], t_sessions = [], t_migrations = []\<rparr>"

definition demo_pg :: pg where
  "demo_pg = \<lparr>pg_tabs = demo_tabs, pg_now = 0, pg_uuids = [10, 11, 12, 13], pg_fates = []\<rparr>"

lemmas demo_defs = demo_user_def demo_key_def demo_tabs_def demo_pg_def

lemma demo_inv: "db_inv demo_tabs"
  by (simp add: db_inv_defs demo_defs ledger_sum_def max_i64_def)

section \<open>Properties\<close>

text \<open>
  C4. Placing a hold is atomic and exact under every fate of every call.  When it is acknowledged,
  the user had at least the hold, the new balance is the old one less the hold (no 64-bit wrap-around
  survives), one ledger row with that amount and the given idempotency key was appended, and nobody
  else's balance moved.  When an error comes back the tables are unchanged, or the connection was lost
  and exactly this hold was committed.
\<close>

theorem ApplyHold_atomic:
  assumes "db_inv (pg_tabs d)" and "in_i64 h" and "ApplyHold i h rid idem d = (r, d')"
  shows "case r of
      Inr v \<Rightarrow>
        (\<exists>b x. balance_of i (pg_tabs d) = Some b \<and> h \<le> b \<and> v = b - h \<and>
           balance_of i (pg_tabs d') = Some (b - h) \<and>
           t_ledger (pg_tabs d') = t_ledger (pg_tabs d) @
             [ledger_entry x i ''hold'' (- h) (b - h) ''usage_log'' (Some rid) idem (pg_now d)] \<and>
           (\<forall>u. u \<noteq> i \<longrightarrow> balance_of u (pg_tabs d') = balance_of u (pg_tabs d)))
    | Inl e \<Rightarrow>
        pg_tabs d' = pg_tabs d \<or> (e = ErrConn \<and> hold_committed i h (pg_tabs d) (pg_tabs d'))"
proof (cases r)
  case (Inl e)
  then show ?thesis
    using in_tx_outcome [OF assms(3) [unfolded ApplyHold_def]] assms(2)
    by (auto simp: hold_committed_def)
next
  case (Inr v)
  with assms(3) have "in_tx (hold_tx i h rid idem) d = (Inr v, d')" by (simp add: ApplyHold_def)
  then obtain d1 d2 where d1: "d1 = d\<lparr>pg_fates := tl (pg_fates d)\<rparr>"
    and tx: "hold_tx i h rid idem d1 = (Inr v, d2)" and d': "pg_tabs d' = pg_tabs d2"
    by (rule in_tx_Inr)
  from assms(1) have inv: "db_inv (pg_tabs d1)" by (simp add: d1)
  obtain b x where b: "balance_of i (pg_tabs d) = Some b" "h \<le> b" "v = b - h"
    and l: "t_ledger (pg_tabs d2) = t_ledger (pg_tabs d) @
      [ledger_entry x i ''hold'' (- h) v ''usage_log'' (Some rid) idem (pg_now d)]"
    using hold_tx_effect(3,4) [OF inv assms(2) tx] by (auto simp: d1)
  have "balance_of u (pg_tabs d2) = map_option (\<lambda>b. b + delta u (Held i h)) (balance_of u (pg_tabs d))"
    for u using hold_tx_effect(2) [OF inv assms(2) tx, of u] by (simp add: d1)
  then have own: "balance_of i (pg_tabs d') = Some (b - h)"
    and other: "u \<noteq> i \<Longrightarrow> balance_of u (pg_tabs d') = balance_of u (pg_tabs d)" for u
    using b by (simp_all add: d' option.map_ident)
  show ?thesis
    unfolding Inr sum.case
    using b own other l by (intro exI [of _ b] exI [of _ x] conjI allI impI) (simp_all add: d')
qed

theorem ApplyHold_atomic_witness:
  "\<exists>d'. ApplyHold 1 10000000 7 ''hold-7'' demo_pg = (Inr 40000000, d') \<and>
     balance_of 1 (pg_tabs d') = Some 40000000"
proof -
  obtain r d' where eq: "ApplyHold 1 10000000 7 ''hold-7'' demo_pg = (r, d')" by fastforce
  have "fst (ApplyHold 1 10000000 7 ''hold-7'' demo_pg) = Inr 40000000" by code_simp
  with eq have r: "r = Inr 40000000" by simp
  have "db_inv (pg_tabs demo_pg)" using demo_inv by (simp add: demo_pg_def)
  from ApplyHold_atomic [OF this _ eq] r eq show ?thesis by (auto simp: in_i64_iff)
qed

text \<open>
  C5. Settling a request is atomic and exact under every fate of every call.  When it is
  acknowledged, the balance drops by the captured and rises by the released amount (those that are
  positive), the ledger gains exactly the corresponding rows, and the usage log of the request is
  completed with the captured amount and the identifiers of these rows.  When an error comes back the
  tables are unchanged, or the connection was lost and exactly this settlement was committed.
\<close>

theorem CaptureAndRelease_atomic:
  assumes "db_inv (pg_tabs d)" and "in_i64 c" and "in_i64 r"
    and "CaptureAndRelease ustr i rid c r usage idem d = (res, d')"
  shows "case res of
      Inr ids \<Rightarrow>
        (\<exists>b x y. balance_of i (pg_tabs d) = Some b \<and> 0 \<le> b - max c 0 + max r 0 \<and>
           balance_of i (pg_tabs d') = Some (b - max c 0 + max r 0) \<and>
           t_ledger (pg_tabs d') = t_ledger (pg_tabs d) @
             rows_if c x i ''capture'' (- c) (b - c) rid (settle_idem ustr ''capture-'' rid idem) (pg_now d) @
             rows_if r y i ''release'' r (b - max c 0 + r) rid (settle_idem ustr ''release-'' rid idem) (pg_now d) \<and>
           ids = \<lparr>CaptureTxnID = (if c > 0 then Some x else None),
                  ReleaseTxnID = (if r > 0 then Some y else None)\<rparr> \<and>
           t_usage (pg_tabs d') = map (usage_upd rid usage c ids (pg_now d)) (t_usage (pg_tabs d)))
    | Inl e \<Rightarrow>
        pg_tabs d' = pg_tabs d \<or> (e = ErrConn \<and> settle_committed i c r (pg_tabs d) (pg_tabs d'))"
proof (cases res)
  case (Inl e)
  then show ?thesis
    using in_tx_outcome [OF assms(4) [unfolded CaptureAndRelease_def]] assms(2,3)
    by (auto simp: settle_committed_def)
next
  case (Inr ids)
  with assms(4) have "in_tx (settle_tx ustr i rid c r usage idem) d = (Inr ids, d')"
    by (simp add: CaptureAndRelease_def)
  then obtain d1 d2 where d1: "d1 = d\<lparr>pg_fates := tl (pg_fates d)\<rparr>"
    and tx: "settle_tx ustr i rid c r usage idem d1 = (Inr ids, d2)" and d': "pg_tabs d' = pg_tabs d2"
    by (rule in_tx_Inr)
  from assms(1) have inv: "db_inv (pg_tabs d1)" by (simp add: d1)
  note eff = settle_tx_effect [OF inv assms(2,3) tx]
  obtain x y b where b: "balance_of i (pg_tabs d) = Some b"
    and l: "t_ledger (pg_tabs d2) = t_ledger (pg_tabs d) @
       rows_if c x i ''capture'' (- c) (b - c) rid (settle_idem ustr ''capture-'' rid idem) (pg_now d) @
       rows_if r y i ''release'' r (settled c r b) rid (settle_idem ustr ''release-'' rid idem) (pg_now d)"
    and ids: "ids = \<lparr>CaptureTxnID = (if c > 0 then Some x else None),
            ReleaseTxnID = (if r > 0 then Some y else None)\<rparr>"
    using eff(3) by (auto simp: d1)
  have bal: "balance_of i (pg_tabs d2) = Some (b - max c 0 + max r 0)"
    using eff(2) [of i] b by (simp add: d1)
  have "rows_if r y i ''release'' r (settled c r b) rid idm n =
      rows_if r y i ''release'' r (b - max c 0 + r) rid idm n" for idm n
    by (simp add: rows_if_def settled_def)
  moreover have "0 \<le> b - max c 0 + max r 0" using pgl.bal_nonneg [OF eff(1) bal] .
  moreover have "t_usage (pg_tabs d2) = map (usage_upd rid usage c ids (pg_now d)) (t_usage (pg_tabs d))"
    using eff(6) by (simp add: d1)
  ultimately show ?thesis
    unfolding Inr sum.case d'
    using b bal l ids by (intro exI [of _ b] exI [of _ x] exI [of _ y] conjI) simp_all
qed

text \<open>A request to settle in the small database, and the usage it reports.\<close>

definition demo_usage :: UsageLog where
  "demo_usage = \<lparr>ul_ID = 0, ul_UserID = 0, ul_QuarkGateKeyID = 0, ul_ProviderSlug = [], ul_Operation = [],
     ul_RequestID = 0, ul_Status = ''completed'', ul_RawUsage = ''{}'', ul_NormalizedUsage = ''{}'',
     ul_CreditsReservedMicro = 0, ul_CreditsCapturedMicro = 0, ul_LatencyMs = Some 100, ul_TraceID = [],
     ul_StartedAt = 0, ul_CompletedAt = None, ul_CaptureTxnID = None, ul_ReleaseTxnID = None\<rparr>"

theorem CaptureAndRelease_atomic_witness:
  "\<exists>ids d'. CaptureAndRelease (\<lambda>_. ''7'') 1 7 3000000 7000000 demo_usage [] demo_pg = (Inr ids, d') \<and>
     balance_of 1 (pg_tabs d') = Some 54000000"
proof -
  obtain r d' where eq: "CaptureAndRelease (\<lambda>_. ''7'') 1 7 3000000 7000000 demo_usage [] demo_pg = (r, d')"
    by fastforce
  have "fst (CaptureAndRelease (\<lambda>_. ''7'') 1 7 3000000 7000000 demo_usage [] demo_pg) =
      Inr \<lparr>CaptureTxnID = Some 10, ReleaseTxnID = Some 11\<rparr>" by code_simp
  with eq have r: "r = Inr \<lparr>CaptureTxnID = Some 10, ReleaseTxnID = Some 11\<rparr>" by simp
  have "db_inv (pg_tabs demo_pg)" using demo_inv by (simp add: demo_pg_def)
  from CaptureAndRelease_atomic [OF this _ _ eq] r
  obtain b where "balance_of 1 (pg_tabs demo_pg) = Some b" "balance_of 1 (pg_tabs d') = Some (b + 4000000)"
    by (auto simp: in_i64_iff)
  moreover have "balance_of 1 (pg_tabs demo_pg) = Some 50000000"
    by (simp add: balance_of_def user_by_id_def demo_defs)
  ultimately show ?thesis using eq r by auto
qed

text \<open>
  C32. A hold that must not happen changes nothing, whatever the fates of the calls: for an unknown
  user, for a balance below the hold, and for an idempotency key the ledger already has, the operation
  reports an error and leaves every table as it was.
\<close>

theorem ApplyHold_refused:
  assumes "balance_of i (pg_tabs d) = None \<or>
      (\<exists>b. balance_of i (pg_tabs d) = Some b \<and> b < h) \<or>
      idem \<in> lt_IdempotencyKey ` set (t_ledger (pg_tabs d))"
  shows "\<exists>e d'. ApplyHold i h rid idem d = (Inl e, d') \<and> pg_tabs d' = pg_tabs d"
proof -
  have "\<not> committed (hold_tx i h rid idem) (pg_tabs d) T" for T
  proof
    assume "committed (hold_tx i h rid idem) (pg_tabs d) T"
    then obtain d0 v d' where T: "pg_tabs d0 = pg_tabs d" and tx: "hold_tx i h rid idem d0 = (Inr v, d')"
      by (auto simp: committed_def)
    from tx show False
      by (rule hold_tx_Inr) (use assms in \<open>auto simp: T fresh_rows_def\<close>)
  qed
  moreover obtain r d' where "in_tx (hold_tx i h rid idem) d = (r, d')"
    by (cases "in_tx (hold_tx i h rid idem) d")
  ultimately show ?thesis using in_tx_outcome unfolding ApplyHold_def by blast
qed

theorem ApplyHold_refused_witness:
  "\<exists>e d'. ApplyHold 1 50000001 7 ''hold-7'' demo_pg = (Inl e, d') \<and> pg_tabs d' = demo_tabs"
  using ApplyHold_refused [of 1 demo_pg 50000001 "''hold-7''" 7]
  by (simp add: balance_of_def user_by_id_def demo_defs)

text \<open>
  C33. A solvent hold goes through when the database answers: with the user known, the hold between
  zero and the balance, an unused idempotency key and a fresh row identifier, the operation returns
  the balance less the hold.
\<close>

theorem ApplyHold_succeeds:
  assumes "balance_of i (pg_tabs d) = Some b" and "0 \<le> h" and "h \<le> b" and "b \<le> max_i64"
    and "idem \<notin> lt_IdempotencyKey ` set (t_ledger (pg_tabs d))"
    and "fst (next_uuid (pg_uuids d)) \<notin> lt_ID ` set (t_ledger (pg_tabs d))"
    and "pg_fates d = []"
  shows "fst (ApplyHold i h rid idem d) = Inr (b - h)"
proof -
  have e: "i64 (b - h) = b - h" using assms by (intro i64_id) (simp add: in_i64_iff max_i64_def)
  have u: "user_by_id i (pg_tabs d) \<noteq> None" using assms(1) by (auto simp: balance_of_def)
  then have i: "i \<in> u_ID ` set (t_users (pg_tabs d))" by (simp add: user_by_id_None)
  have users: "u_ID ` set_balance_row i v n ` S = u_ID ` S" for v n S
    by (simp add: image_image)
  obtain x us where n: "next_uuid (pg_uuids d) = (x, us)" by (cases "next_uuid (pg_uuids d)")
  show ?thesis
    using assms e u i n
    by (simp add: ApplyHold_def hold_tx_def in_tx_def pg_call_def and_then_def select_row_def
        update_balance_def insert_ledger_def stmt_return_def pg_commit_def Let_def users del: image_iff)
qed

theorem ApplyHold_succeeds_witness: "fst (ApplyHold 1 50000000 7 ''hold-7'' demo_pg) = Inr 0"
  using ApplyHold_succeeds [of 1 demo_pg 50000000 50000000 "''hold-7''" 7]
  by (simp add: balance_of_def user_by_id_def demo_defs max_i64_def)

lemma settle_refused:
  assumes "(c > 0 \<and> settle_idem ustr ''capture-'' rid idem \<in> lt_IdempotencyKey ` set (t_ledger (pg_tabs d))) \<or>
      (r > 0 \<and> settle_idem ustr ''release-'' rid idem \<in> lt_IdempotencyKey ` set (t_ledger (pg_tabs d)))"
  shows "\<exists>e d'. CaptureAndRelease ustr i rid c r usage idem d = (Inl e, d') \<and> pg_tabs d' = pg_tabs d"
proof -
  have "\<not> committed (settle_tx ustr i rid c r usage idem) (pg_tabs d) T" for T
  proof
    assume "committed (settle_tx ustr i rid c r usage idem) (pg_tabs d) T"
    then obtain d0 v d' where T: "pg_tabs d0 = pg_tabs d"
      and tx: "settle_tx ustr i rid c r usage idem d0 = (Inr v, d')"
      by (auto simp: committed_def)
    from tx show False
      by (rule settle_tx_Inr) (use assms in \<open>auto simp: T fresh_rows_def rows_if_def\<close>)
  qed
  moreover obtain q d' where "in_tx (settle_tx ustr i rid c r usage idem) d = (q, d')"
    by (cases "in_tx (settle_tx ustr i rid c r usage idem) d")
  ultimately show ?thesis using in_tx_outcome unfolding CaptureAndRelease_def by blast
qed



fun ledger_event :: "credit_event \<Rightarrow> tables \<Rightarrow> tables \<Rightarrow> bool" where
  "ledger_event (Deposited i a) T T' = deposit_committed i a T T'"
| "ledger_event (Held i h) T T' = hold_committed i h T T'"
| "ledger_event (Settled i c r) T T' = settle_committed i c r T T'"

fun ledger_history :: "tables \<Rightarrow> credit_event list \<Rightarrow> tables \<Rightarrow> bool" where
  "ledger_history T [] T' = (T' = T)"
| "ledger_history T (e # es) T' = (\<exists>T1. ledger_event e T T1 \<and> ledger_history T1 es T')"

lemma ledger_history_run: "ledger_history T es T' = pgl.ev_run T es T'"
proof (induction es arbitrary: T)
  case Nil
  then show ?case by simp
next
  case (Cons e es)
  then show ?case by (cases e) simp_all
qed

text \<open>
  C7. Conservation over histories.  Run any sequence of committed deposits, holds and settlements, of
  any users in any order, from a database that satisfies the invariant: the invariant still holds and
  every user's balance has changed by exactly the sum of that user's movements.
\<close>

theorem ledger_conservation:
  assumes "db_inv T" and "ledger_history T es T'"
  shows "db_inv T' \<and>
    (\<forall>u. balance_of u T' = map_option (\<lambda>b. b + sum_list (map (delta u) es)) (balance_of u T))"
  using assms pgl.ev_run_inv pgl.ev_run_bal unfolding ledger_history_run by blast

lemma hold_committedI:
  "in_i64 h \<Longrightarrow> hold_tx i h rid idem d = (Inr v, d') \<Longrightarrow> hold_committed i h (pg_tabs d) (pg_tabs d')"
  by (auto simp: hold_committed_def intro: committedI)

theorem ledger_conservation_witness:
  "\<exists>T'. ledger_history demo_tabs [Held 1 10000000] T' \<and> balance_of 1 T' = Some 40000000"
proof -
  obtain r d' where eq: "hold_tx 1 10000000 7 ''hold-7'' demo_pg = (r, d')" by fastforce
  have "fst (hold_tx 1 10000000 7 ''hold-7'' demo_pg) = Inr 40000000" by code_simp
  with eq have "hold_committed 1 10000000 (pg_tabs demo_pg) (pg_tabs d')"
    by (intro hold_committedI [where v = 40000000 and rid = 7 and idem = "''hold-7''"]) (simp_all add: in_i64_iff)
  then have h: "ledger_history demo_tabs [Held 1 10000000] (pg_tabs d')" by (simp add: demo_pg_def)
  have "balance_of 1 demo_tabs = Some 50000000"
    by (simp add: balance_of_def user_by_id_def demo_defs)
  with ledger_conservation [OF demo_inv h] h show ?thesis by auto
qed

text \<open>
  C34. What a request costs.  Two committed transactions belong to a metered request: the hold of
  \<open>h\<close>, then the settlement that captures \<open>c\<close> and releases the rest \<open>h - c\<close>.  Together they lower the
  balance by twice the captured amount: the hold has already taken \<open>c\<close> out of the balance, and the
  settlement takes it out a second time.
\<close>

theorem request_charged_twice:
  assumes "db_inv T" and "0 \<le> c" and "c \<le> h" and "ledger_history T [Held i h, Settled i c (h - c)] T'"
    and "balance_of i T = Some b"
  shows "balance_of i T' = Some (b - 2 * c)"
proof -
  from assms(4) have "pgl.ev_run T [Held i h, Settled i c (h - c)] T'"
    by (simp only: ledger_history_run)
  from pgl.ev_run_bal [OF assms(1) this, of i] assms(2,3,5) show ?thesis by simp
qed

lemma settle_committedI:
  "in_i64 c \<Longrightarrow> in_i64 r \<Longrightarrow> settle_tx ustr i rid c r usage idem d = (Inr v, d') \<Longrightarrow>
     settle_committed i c r (pg_tabs d) (pg_tabs d')"
  unfolding settle_committed_def by (blast intro: committedI)

theorem request_charged_twice_witness:
  "\<exists>T'. ledger_history demo_tabs [Held 1 10000000, Settled 1 3000000 (10000000 - 3000000)] T' \<and>
     balance_of 1 T' = Some 44000000"
proof -
  let ?hold = "hold_tx 1 10000000 7 ''hold-7'' demo_pg"
  let ?settle = "settle_tx (\<lambda>_. ''7'') 1 7 3000000 7000000 demo_usage [] (snd ?hold)"
  obtain r1 d1 where e1: "?hold = (r1, d1)" by fastforce
  obtain r2 d2 where e2: "?settle = (r2, d2)" by fastforce
  have "fst ?hold = Inr 40000000" by code_simp
  with e1 have h: "hold_committed 1 10000000 demo_tabs (pg_tabs d1)"
    using hold_committedI [of 10000000 1 7 "''hold-7''" demo_pg 40000000 d1]
    by (simp add: in_i64_iff demo_pg_def)
  have "fst ?settle = Inr \<lparr>CaptureTxnID = Some 11, ReleaseTxnID = Some 12\<rparr>" by code_simp
  with e1 e2 have s: "settle_committed 1 3000000 7000000 (pg_tabs d1) (pg_tabs d2)"
    by (intro settle_committedI [where usage = demo_usage and idem = "[]" and rid = 7 and ustr = "\<lambda>_. ''7''"])
      (simp_all add: in_i64_iff)
  from h s have run: "ledger_history demo_tabs [Held 1 10000000, Settled 1 3000000 (10000000 - 3000000)] (pg_tabs d2)"
    by auto
  moreover have "balance_of 1 demo_tabs = Some 50000000"
    by (simp add: balance_of_def user_by_id_def demo_defs)
  ultimately have "balance_of 1 (pg_tabs d2) = Some (50000000 - 2 * 3000000)"
    by (intro request_charged_twice [OF demo_inv _ _ run]) simp_all
  with run show ?thesis by auto
qed

end
