(* ===== verification/Sample.thy ===== *)
theory Sample
  imports Proxy Credits Admin
begin

text \<open>
  A small deployment for concrete runs: one provider whose driver prepares every request alike, one user
  with a key and credits, a provider that answers every request with an empty JSON object.
\<close>

text \<open>Hashing leaves a key as it is; the message authentication code is its last two characters.\<close>

definition sample_crypto :: crypto where
  "sample_crypto = \<lparr>GenerateFromPassword = Inr, CompareHashAndPassword = (\<lambda>h k. h = k),
     hmac_sha256 = (\<lambda>p k. take 2 (rev k))\<rparr>"

lemma sample_bcrypt: "bcrypt_ok sample_crypto"
  by (simp add: bcrypt_ok_def sample_crypto_def)

text \<open>A text for the two identifiers that matter.\<close>

definition sample_str :: "uuid \<Rightarrow> string" where
  "sample_str u = (if u = 1 then ''u1'' else ''r7'')"

definition sample_token :: string where
  "sample_token = ''qg_live_abcdefghijklmnop''"

definition sample_key :: QuarkGateKey where
  "sample_key = \<lparr>k_ID = 2, k_UserID = 1, k_KeyPrefix = take 12 sample_token, k_KeyHash = sample_token, k_Name = ''dev-key'',
     k_Scopes = json_encode (JArr [JStr ''apify'']), k_RateLimitRPM = 120, k_Status = ''active'', k_LastUsedAt = None,
     k_CreatedAt = 0, k_RevokedAt = None\<rparr>"

definition sample_provider :: provider_row where
  "sample_provider = \<lparr>pr_ID = 3, pr_provider_slug = ''apify'', pr_display_name = ''Apify'', pr_category = ''scraping'',
     pr_base_url = ''https://api.apify.com'', pr_auth_injection = ''{}'', pr_pricing_model = ''{}'',
     pr_health_check_path = Some ''/'', pr_enabled = True, pr_driver_module = ''apify''\<rparr>"

text \<open>The vault holds the secret \<open>s3\<close> under the default label, sealed with the nonce \<open>xy\<close>.\<close>

definition sample_tabs :: tables where
  "sample_tabs = demo_tabs\<lparr>t_users := [demo_user\<lparr>u_CreditBalanceMicro := 9\<rparr>],
     t_ledger := [ledger_entry 3 1 ''deposit'' 9 9 ''admin'' None ''deposit-1'' 0], t_keys := [sample_key], t_providers := [sample_provider],
     t_vault := [\<lparr>cv_ID = 4, cv_provider_config_id = 3, cv_label = ''master_apify'', cv_encrypted_blob = ''xys3xy'',
       cv_rotated_at = None\<rparr>]\<rparr>"

definition sample_pg :: pg where
  "sample_pg = demo_pg\<lparr>pg_tabs := sample_tabs\<rparr>"

definition sample_prepared :: string where
  "sample_prepared = json_encode (JObj [(''estimate_micro'', JInt 5)])"

definition sample_genv :: genv where
  "sample_genv = \<lparr>ge_host = demo_host sample_prepared, ge_reg = demo_registry, ge_str = sample_str, ge_parse = (\<lambda>_. None),
     ge_crypto = sample_crypto, ge_vault = \<lparr>v_gcm = demo_aead\<rparr>, ge_pepper = ''pepper'',
     ge_holdTTL = hold_ttl 15, ge_defaultHold = 1\<rparr>"

definition sample_request :: Request where
  "sample_request = \<lparr>rq_Method = ''POST'', rq_Path = ''/v1/providers/apify/runs'',
     rq_Header = [(''Authorization'', [''Bearer '' @ sample_token]), (''Idempotency-Key'', [''once''])],
     rq_Body = Inr ''{}'', rq_ctx = Background\<rparr>"

definition sample_gw :: gw where
  "sample_gw = \<lparr>gw_pg = sample_pg, gw_rd = empty_redis,
     gw_metrics = \<lparr>requestsTotal = 0, creditsCapturedMicro = 0, holdFailuresTotal = 0, meterEventsProcessed = 0,
       meterDLQTotal = 0, balanceDriftTotal = 0\<rparr>,
     gw_w = new_writer, gw_active = 0, gw_bulkhead = NewBulkhead 2, gw_breaker = None, gw_uuids = [21, 22, 23],
     gw_clock = []\<rparr>"

definition sample_handler :: Handler where
  "sample_handler = \<lparr>h_redis = True, h_reg = None, h_host = demo_host [], h_str = sample_str, h_idleSec = 30,
     h_maxStreamSec = 1800\<rparr>"

definition sample_answer :: body where
  "sample_answer i = \<lparr>rd_line = ''{}'', rd_err = Some io_EOF\<rparr>"

definition sample_transport :: transport where
  "sample_transport = \<lparr>tr_NewRequest = (\<lambda>_ _. None),
     tr_Do = (\<lambda>_ _. Inr \<lparr>rs_StatusCode = 200, rs_Header = [], rs_Body = sample_answer\<rparr>),
     tr_ticks = demo_ticks, tr_RFC3339 = (\<lambda>_. ''now'')\<rparr>"

definition sample_downstream :: DownstreamRequest where
  "sample_downstream = \<lparr>dr_URL = ''https://api.apify.com/runs'', dr_Method = ''POST'', dr_Headers = [], dr_Body = ''{}'',
     dr_Streaming = False, dr_Provider = ''apify'', dr_Operation = [], dr_EstimateMicro = 5\<rparr>"

text \<open>The request as it comes to the proxy.\<close>

definition sample_routed :: Request where
  "sample_routed = WithContext sample_request
     (WithHoldMicro 5 (WithDownstream sample_downstream
       (WithRoute \<lparr>rm_Provider = ''apify'', rm_Operation = ''run'', rm_Compat = False\<rparr>
         (WithUserID 1 (WithRequestID 21 Background)))))"

text \<open>The text form of identifiers for the tool: one text per identifier.\<close>

definition sample_ustr :: "uuid \<Rightarrow> string" where
  "sample_ustr i = (if i = 1 then ''u1'' else if i = 10 then ''k10'' else demo_ustr i)"

definition sample_uparse :: "string \<Rightarrow> uuid option" where
  "sample_uparse t = (if t = ''u1'' then Some 1 else if t = ''k10'' then Some 10 else demo_uparse t)"

lemma sample_uuid_text: "\<forall>i. sample_uparse (sample_ustr i) = Some i"
proof
  fix i
  have "list_all is_digit (demo_ustr i)" by (simp add: demo_ustr_def)
  then have "demo_ustr i \<noteq> ''u1'' \<and> demo_ustr i \<noteq> ''k10''" by (auto simp: is_digit_def)
  then show "sample_uparse (sample_ustr i) = Some i"
    using demo_uuid_text by (simp add: sample_uparse_def sample_ustr_def)
qed

definition sample_aenv :: aenv where
  "sample_aenv = \<lparr>ae_host = demo_host [], ae_parse = sample_uparse, ae_str = sample_ustr, ae_crypto = sample_crypto,
     ae_vault = \<lparr>v_gcm = demo_aead\<rparr>, ae_KEK = ''pepper'', ae_DriversPath = ''drivers'', ae_NodePath = ''node'',
     ae_rand = Inr (replicate 32 (CHR ''x'')), ae_now = 5, ae_Sscan = (\<lambda>_. Inr 50), ae_usage_json = (\<lambda>_. ''{}'')\<rparr>"

end
