(* ===== verification/Admission.thy ===== *)
theory Admission
  imports Sample Ledger
begin

text \<open>
  What the chain of middlewares guarantees to the proxy.  A middleware is a guard: given a fact about the
  request it is called with, it calls the next handler only with a further fact.  Since handlers are
  functions, "is called only in states with \<open>Q\<close>" is stated without looking inside: two next handlers
  that agree on all states with \<open>Q\<close> give the same wrapped handler.  The interface \<open>middleware\<close> states
  it, \<open>middleware_pair\<close> composes two of them, and the interpretations discharge it for every middleware
  of the gateway.
\<close>

section \<open>The interface\<close>

locale middleware =
  fixes wrap :: "handler \<Rightarrow> handler"
    and pre :: "Request \<Rightarrow> gw \<Rightarrow> bool"
    and post :: "Request \<Rightarrow> gw \<Rightarrow> bool"
  assumes guard: "(\<And>r st. post r st \<Longrightarrow> n1 r st = n2 r st) \<Longrightarrow> pre r st \<Longrightarrow> wrap n1 r st = wrap n2 r st"
begin

text \<open>A handler that is never reached does not matter.\<close>

lemma unreachable: "(\<And>r st. \<not> post r st) \<Longrightarrow> pre r st \<Longrightarrow> wrap n1 r st = wrap n2 r st"
  by (rule guard) simp_all

end

locale middleware_pair =
  outer: middleware wrap1 pre mid + inner: middleware wrap2 mid post
  for wrap1 wrap2 :: "handler \<Rightarrow> handler" and pre mid post :: "Request \<Rightarrow> gw \<Rightarrow> bool"
begin

lemma pair_guard:
  "(\<And>r st. post r st \<Longrightarrow> n1 r st = n2 r st) \<Longrightarrow> pre r st \<Longrightarrow> wrap1 (wrap2 n1) r st = wrap1 (wrap2 n2) r st"
  by (rule outer.guard) (auto intro: inner.guard)

end

sublocale middleware_pair \<subseteq> stack: middleware "\<lambda>n. wrap1 (wrap2 n)" pre post
  by unfold_locales (rule pair_guard)

section \<open>Facts about a request\<close>

text \<open>The context carries an active key whose hash matches the bearer token.\<close>

definition authenticated :: "genv \<Rightarrow> Request \<Rightarrow> gw \<Rightarrow> bool" where
  "authenticated g r st \<longleftrightarrow>
     (\<exists>k. Key (rq_ctx r) = Some k \<and> UserID (rq_ctx r) = k_UserID k \<and> KeyID (rq_ctx r) = k_ID k \<and>
        k_Status k = ''active'' \<and> ValidateFormat (extractBearer r) = Inr () \<and>
        key_Compare (ge_crypto g) (k_KeyHash k) (extractBearer r))"

definition routed :: "genv \<Rightarrow> Request \<Rightarrow> gw \<Rightarrow> bool" where
  "routed g r st \<longleftrightarrow> authenticated g r st \<and> Route (rq_ctx r) \<noteq> None \<and> Downstream (rq_ctx r) \<noteq> None"

text \<open>The key's scopes, if they can be read, name the route.\<close>

definition scoped :: "genv \<Rightarrow> Request \<Rightarrow> gw \<Rightarrow> bool" where
  "scoped g r st \<longleftrightarrow> routed g r st \<and>
     (\<forall>k rm scopes. Key (rq_ctx r) = Some k \<longrightarrow> Route (rq_ctx r) = Some rm \<longrightarrow>
        unmarshal_strings (k_Scopes k) = Some scopes \<longrightarrow> list_ex (scope_allows rm) scopes)"

text \<open>The hold is in the ledger, the usage log is open and the session knows the hold.\<close>

definition hold_row :: "genv \<Rightarrow> ctx \<Rightarrow> LedgerTransaction \<Rightarrow> bool" where
  "hold_row g c t \<longleftrightarrow> lt_UserID t = UserID c \<and> lt_Type t = ''hold'' \<and> lt_AmountMicro t = i64 (- HoldMicro c) \<and>
     lt_ReferenceID t = Some (RequestID c) \<and> lt_IdempotencyKey t = hold_idem g c"

definition log_row :: "ctx \<Rightarrow> UsageLog \<Rightarrow> bool" where
  "log_row c l \<longleftrightarrow> ul_RequestID l = RequestID c \<and> ul_UserID l = UserID c \<and> ul_Status l = ''pending'' \<and>
     ul_CreditsReservedMicro l = HoldMicro c"

definition sess_row :: "ctx \<Rightarrow> session_row \<Rightarrow> bool" where
  "sess_row c s \<longleftrightarrow> ms_request_id s = RequestID c \<and> ms_user_id s = UserID c \<and> ms_hold_micro s = HoldMicro c"

definition admitted :: "genv \<Rightarrow> Request \<Rightarrow> gw \<Rightarrow> bool" where
  "admitted g r st \<longleftrightarrow> scoped g r st \<and>
     (let T = pg_tabs (gw_pg st); c = rq_ctx r
      in (\<exists>t \<in> set (t_ledger T). hold_row g c t) \<and> (\<exists>l \<in> set (t_usage T). log_row c l) \<and>
         (\<exists>s \<in> set (t_sessions T). sess_row c s))"

section \<open>The rows behind a hold\<close>

lemma ApplyHold_row:
  assumes "ApplyHold i h rid idem d = (Inr v, d')"
  shows "\<exists>t \<in> set (t_ledger (pg_tabs d')). lt_UserID t = i \<and> lt_Type t = ''hold'' \<and> lt_AmountMicro t = i64 (- h) \<and>
    lt_ReferenceID t = Some rid \<and> lt_IdempotencyKey t = idem"
proof -
  from assms obtain d1 d2 where "hold_tx i h rid idem d1 = (Inr v, d2)" "pg_tabs d' = pg_tabs d2"
    unfolding ApplyHold_def by (rule in_tx_Inr)
  then show ?thesis by (elim hold_tx_Inr) (simp add: posting_def ledger_entry_def)
qed

lemma CreateUsageLog_row:
  assumes "CreateUsageLog u d = (Inr (), d')"
  shows "t_ledger (pg_tabs d') = t_ledger (pg_tabs d)"
    and "\<exists>l \<in> set (t_usage (pg_tabs d')). ul_RequestID l = ul_RequestID u \<and> ul_UserID l = ul_UserID u \<and>
      ul_Status l = ul_Status u \<and> ul_CreditsReservedMicro l = ul_CreditsReservedMicro u"
  using assms by (auto simp: CreateUsageLog_def Let_def dest!: pg_call_InrD split: if_splits)

lemma CreateMeteringSession_row:
  assumes "CreateMeteringSession rid i h e d = (Inr (), d')"
  shows "t_ledger (pg_tabs d') = t_ledger (pg_tabs d)" "t_usage (pg_tabs d') = t_usage (pg_tabs d)"
    and "\<exists>s \<in> set (t_sessions (pg_tabs d')). ms_request_id s = rid \<and> ms_user_id s = i \<and> ms_hold_micro s = h"
  using assms by (auto simp: CreateMeteringSession_def Let_def dest!: pg_call_InrD split: if_splits)

text \<open>A successful call of a handler on the database.\<close>

lemma on_pg_Inr: "on_pg q st = (Inr x, st') \<Longrightarrow> q (gw_pg st) = (Inr x, gw_pg st')"
  by (auto simp: on_pg_def split: prod.splits)

lemma time_pg: "time_Now st = (t, st') \<Longrightarrow> gw_pg st' = gw_pg st"
  by (auto simp: time_Now_def split: list.splits)

lemma uuid_pg: "uuid_New st = (i, st') \<Longrightarrow> gw_pg st' = gw_pg st"
  by (auto simp: uuid_New_def split: prod.splits)

section \<open>The middlewares of the gateway\<close>

lemma findKeyByToken_sound:
  assumes "findKeyByToken g token st = (Inr k, st')"
  shows "k_Status k = ''active'' \<and> key_Compare (ge_crypto g) (k_KeyHash k) token"
proof -
  have cached: "k_Status x = ''active'' \<and> key_Compare (ge_crypto g) (k_KeyHash x) token"
    if "cached_key g token meta = Some x" for x meta
    using that by (auto simp: cached_key_def KeyFromCache_def split: sum.splits option.splits if_splits)
  have pg: "k_Status x = ''active'' \<and> key_Compare (ge_crypto g) (k_KeyHash x) token"
    if "findKeyByTokenPG (ge_crypto g) token d = (Inr x, d')" for x d d'
    using that by (auto simp: findKeyByTokenPG_def Let_def dest!: pg_call_InrD find_SomeD split: option.splits)
  from assms show ?thesis
    by (auto simp: findKeyByToken_def Let_def dest!: cached pg on_pg_Inr split: prod.splits option.splits sum.splits)
qed

interpretation auth: middleware "Auth_Wrap g" "\<lambda>r st. True" "authenticated g" for g
proof (unfold_locales, goal_cases)
  case (1 n1 n2 r st)
  show ?case
  proof (cases "ValidateFormat (extractBearer r)")
    case (Inr u)
    show ?thesis
    proof (cases "findKeyByToken g (extractBearer r) st")
      case (Pair res st1)
      show ?thesis
      proof (cases res)
        case (Inr k)
        from findKeyByToken_sound [of g "extractBearer r" st k st1] Pair Inr \<open>ValidateFormat (extractBearer r) = Inr u\<close>
        have "authenticated g (WithContext r (WithKey k (WithKeyID (k_ID k) (WithUserID (k_UserID k) (rq_ctx r))))) st1"
          by (simp add: authenticated_def context_defs WithContext_def extractBearer_def)
        from 1(1) [OF this] show ?thesis
          using Pair Inr by (simp add: Auth_Wrap_def Let_def \<open>ValidateFormat (extractBearer r) = Inr u\<close>)
      qed (simp add: Auth_Wrap_def Let_def Pair \<open>ValidateFormat (extractBearer r) = Inr u\<close>)
    qed
  qed (simp add: Auth_Wrap_def Let_def)
qed

interpretation rate: middleware "RateLimit_Wrap g" "authenticated g" "authenticated g" for g
proof (unfold_locales, goal_cases)
  case (1 n1 n2 r st)
  have "n1 r st' = n2 r st'" for st' by (rule 1(1)) (use 1(2) in \<open>simp add: authenticated_def\<close>)
  then show ?case by (simp add: RateLimit_Wrap_def split: option.split prod.split)
qed

interpretation reqid: middleware "RequestID_Wrap g" "\<lambda>r st. True" "\<lambda>r st. True" for g
  by unfold_locales (simp add: RequestID_Wrap_def split: prod.split)

lemma route_context_keeps:
  "authenticated g r st \<Longrightarrow> routed g (WithContext r (route_context rm e ds h cr b (rq_ctx r))) st'"
  by (simp add: routed_def authenticated_def route_context_def context_defs WithContext_def extractBearer_def)

interpretation route: middleware "Route_Wrap g" "authenticated g" "routed g" for g
  by unfold_locales
    (simp add: Route_Wrap_def route_context_keeps Let_def split: sum.split prod.split)

lemma idem_context_keeps:
  "routed g r st \<Longrightarrow> routed g (WithContext r (WithIdempotencyKey k (rq_ctx r))) st'"
  by (simp add: routed_def authenticated_def context_defs WithContext_def extractBearer_def)

interpretation idem: middleware "Idempotency_Wrap g" "routed g" "routed g" for g
  by unfold_locales
    (simp add: Idempotency_Wrap_def record_response_def idem_context_keeps Let_def split: sum.split option.split prod.split)

interpretation scope: middleware Scope_Wrap "routed g" "scoped g" for g
proof (unfold_locales, goal_cases)
  case (1 n1 n2 r st)
  then obtain k rm where k: "Key (rq_ctx r) = Some k" "Route (rq_ctx r) = Some rm"
    by (auto simp: routed_def authenticated_def)
  have "scoped g r st" if "\<forall>scopes. unmarshal_strings (k_Scopes k) = Some scopes \<longrightarrow> list_ex (scope_allows rm) scopes"
    using that 1(2) k by (simp add: scoped_def)
  with 1(1) k show ?case by (simp add: Scope_Wrap_def split: option.split)
qed

lemma scoped_held:
  assumes "scoped g r st"
    and "\<exists>t \<in> set (t_ledger (pg_tabs (gw_pg st'))). lt_UserID t = UserID c \<and> lt_Type t = ''hold'' \<and>
      lt_AmountMicro t = i64 (- hold) \<and> lt_ReferenceID t = Some (RequestID c) \<and> lt_IdempotencyKey t = hold_idem g c"
    and "\<exists>l \<in> set (t_usage (pg_tabs (gw_pg st'))). ul_RequestID l = RequestID c \<and> ul_UserID l = UserID c \<and>
      ul_Status l = ''pending'' \<and> ul_CreditsReservedMicro l = hold"
    and "\<exists>s \<in> set (t_sessions (pg_tabs (gw_pg st'))). ms_request_id s = RequestID c \<and> ms_user_id s = UserID c \<and> ms_hold_micro s = hold"
    and "c = rq_ctx r"
  shows "admitted g (WithContext r (WithHoldMicro hold c)) st'"
proof -
  have "scoped g (WithContext r (WithHoldMicro hold c)) st'"
    using assms(1,5) by (simp add: scoped_def routed_def authenticated_def context_defs WithContext_def extractBearer_def)
  moreover have "UserID (WithHoldMicro hold c) = UserID c" "RequestID (WithHoldMicro hold c) = RequestID c"
    "HoldMicro (WithHoldMicro hold c) = hold" "hold_idem g (WithHoldMicro hold c) = hold_idem g c"
    by (simp_all add: context_defs hold_idem_def)
  ultimately show ?thesis
    using assms(2-4) by (simp add: admitted_def hold_row_def log_row_def sess_row_def WithContext_def)
qed

text \<open>Behind a committed hold, the usage log and the session are opened before the next handler runs.\<close>

lemma open_session_guard:
  assumes n: "\<And>r st. admitted g r st \<Longrightarrow> n1 r st = n2 r st" and sc: "scoped g r st0"
    and row: "\<exists>t \<in> set (t_ledger (pg_tabs (gw_pg st))). lt_UserID t = UserID (rq_ctx r) \<and> lt_Type t = ''hold'' \<and>
      lt_AmountMicro t = i64 (- hold) \<and> lt_ReferenceID t = Some (RequestID (rq_ctx r)) \<and> lt_IdempotencyKey t = hold_idem g (rq_ctx r)"
  shows "open_session g n1 hold rm r st = open_session g n2 hold rm r st"
proof -
  let ?c = "rq_ctx r"
  obtain i st1 now st2 where 1: "uuid_New st = (i, st1)" "time_Now st1 = (now, st2)" by (metis surj_pair)
  obtain res st3 where 2: "on_pg (CreateUsageLog (pending_usage i ?c rm hold now)) st2 = (res, st3)" by (metis surj_pair)
  obtain now2 st4 where 3: "time_Now st3 = (now2, st4)" by (metis surj_pair)
  obtain res2 st5 where 4: "on_pg (CreateMeteringSession (RequestID ?c) (UserID ?c) hold (pg_time (now2 + ge_holdTTL g))) st4 = (res2, st5)"
    by (metis surj_pair)
  have "n1 (WithContext r (WithHoldMicro hold ?c)) st5 = n2 (WithContext r (WithHoldMicro hold ?c)) st5"
    if ok: "res = Inr ()" "res2 = Inr ()"
  proof -
    note u = CreateUsageLog_row [OF on_pg_Inr [OF 2 [unfolded ok]]]
    note s = CreateMeteringSession_row [OF on_pg_Inr [OF 4 [unfolded ok]]]
    have "\<exists>l \<in> set (t_usage (pg_tabs (gw_pg st5))). ul_RequestID l = RequestID ?c \<and> ul_UserID l = UserID ?c \<and>
        ul_Status l = ''pending'' \<and> ul_CreditsReservedMicro l = hold"
      using u(2) s(2) time_pg [OF 3] by (simp add: pending_usage_def)
    moreover have "t_ledger (pg_tabs (gw_pg st5)) = t_ledger (pg_tabs (gw_pg st))"
      using u(1) s(1) time_pg [OF 3] time_pg [OF 1(2)] uuid_pg [OF 1(1)] by simp
    ultimately have "admitted g (WithContext r (WithHoldMicro hold ?c)) st5"
      using row s(3) by (intro scoped_held [OF sc]) simp_all
    then show ?thesis by (rule n)
  qed
  then show ?thesis
    using 1 2 3 4 by (cases res; cases res2) (simp_all add: open_session_def Let_def)
qed

interpretation solv: middleware "Solvency_Wrap g" "scoped g" "admitted g" for g
proof (unfold_locales, goal_cases)
  case (1 n1 n2 r st)
  let ?c = "rq_ctx r"
  define hold where "hold = solvency_hold g ?c"
  obtain b st1 where b: "check_balance g (UserID ?c) st = (b, st1)" by (metis surj_pair)
  obtain res st2 where h: "on_pg (ApplyHold (UserID ?c) hold (RequestID ?c) (hold_idem g ?c)) st1 = (res, st2)"
    by (metis surj_pair)
  define st4 where "st4 newBal = snd (on_rd (SetHold (ge_str g (RequestID ?c)) hold (rd_ttl (ge_holdTTL g)))
      (snd (on_rd (SetBalance (ge_str g (UserID ?c)) newBal) st2)))" for newBal
  have "open_session g n1 hold rm r (st4 v) = open_session g n2 hold rm r (st4 v)" if "res = Inr v" for v rm
  proof (rule open_session_guard [OF 1(1) 1(2)])
    from ApplyHold_row [OF on_pg_Inr [OF h [unfolded that]]]
    show "\<exists>t \<in> set (t_ledger (pg_tabs (gw_pg (st4 v)))). lt_UserID t = UserID ?c \<and> lt_Type t = ''hold'' \<and>
        lt_AmountMicro t = i64 (- hold) \<and> lt_ReferenceID t = Some (RequestID ?c) \<and> lt_IdempotencyKey t = hold_idem g ?c"
      by (simp add: st4_def)
  qed
  then show ?case
    using b h by (cases b; cases res)
      (simp_all add: Solvency_Wrap_def Let_def hold_def [symmetric] st4_def split: option.split)
qed

text \<open>The chain, from the inside out.\<close>

interpretation g1: middleware_pair Scope_Wrap "Solvency_Wrap g" "routed g" "scoped g" "admitted g" for g
  by unfold_locales

interpretation g2: middleware_pair "Idempotency_Wrap g" "\<lambda>n. Scope_Wrap (Solvency_Wrap g n)"
    "routed g" "routed g" "admitted g" for g
  by unfold_locales

interpretation g3: middleware_pair "Route_Wrap g" "\<lambda>n. Idempotency_Wrap g (Scope_Wrap (Solvency_Wrap g n))"
    "authenticated g" "routed g" "admitted g" for g
  by unfold_locales

interpretation g4: middleware_pair "RateLimit_Wrap g" "\<lambda>n. Route_Wrap g (Idempotency_Wrap g (Scope_Wrap (Solvency_Wrap g n)))"
    "authenticated g" "authenticated g" "admitted g" for g
  by unfold_locales

interpretation g5: middleware_pair "Auth_Wrap g"
    "\<lambda>n. RateLimit_Wrap g (Route_Wrap g (Idempotency_Wrap g (Scope_Wrap (Solvency_Wrap g n))))"
    "\<lambda>r st. True" "authenticated g" "admitted g" for g
  by unfold_locales

interpretation g6: middleware_pair "RequestID_Wrap g"
    "\<lambda>n. Auth_Wrap g (RateLimit_Wrap g (Route_Wrap g (Idempotency_Wrap g (Scope_Wrap (Solvency_Wrap g n)))))"
    "\<lambda>r st. True" "\<lambda>r st. True" "admitted g" for g
  by unfold_locales

text \<open>
  C3. No request reaches a provider unpaid or unauthorised.  What the gateway does with a request depends
  on the proxy only in admitted states: the context carries an active key whose hash matches the bearer
  token, the scopes of the key name the route if they can be read, the hold of the request is a row of
  the ledger under the user and the request, a pending usage log reserves it, and the metering session
  that bounds its life is open.
\<close>

theorem proxy_admitted:
  assumes "\<And>r st. admitted g r st \<Longrightarrow> proxy1 r st = proxy2 r st"
  shows "gateway_mux g proxy1 r st = gateway_mux g proxy2 r st"
  unfolding gateway_mux_def gateway_chain_def by (simp add: g6.pair_guard [of g proxy1 proxy2, OF assms])

text \<open>The sample request passes the whole chain; the proxy that answers without a key is not told apart.\<close>

lemma sample_reaches:
  "fst (gateway_mux sample_genv (\<lambda>r st. (Panicked ''reached'', st)) sample_request sample_gw) = Panicked ''reached''"
  by code_simp
theorem proxy_admitted_witness:
  "gateway_mux sample_genv (\<lambda>r st. if Key (rq_ctx r) = None then (Hung, st) else (Panicked ''reached'', st)) sample_request sample_gw =
     gateway_mux sample_genv (\<lambda>r st. (Panicked ''reached'', st)) sample_request sample_gw \<and>
   fst (gateway_mux sample_genv (\<lambda>r st. (Panicked ''reached'', st)) sample_request sample_gw) = Panicked ''reached''"
proof
  show "gateway_mux sample_genv (\<lambda>r st. if Key (rq_ctx r) = None then (Hung, st) else (Panicked ''reached'', st)) sample_request sample_gw =
     gateway_mux sample_genv (\<lambda>r st. (Panicked ''reached'', st)) sample_request sample_gw"
    by (rule proxy_admitted) (auto simp: admitted_def scoped_def routed_def authenticated_def)
qed (rule sample_reaches)

end
