(* ===== verification/Lifecycle.thy ===== *)
theory Lifecycle
  imports Admin Admission
begin

text \<open>
  Facts that span the administration tool and the gateway: a created key opens the gateway, a revoked one
  does not, a deposit is not seen by a gateway that has a balance cached, and an idempotent request is
  answered again from the cache.
\<close>

section \<open>Answered calls\<close>

lemma pg_answered: "pg_fates d = [] \<Longrightarrow> pg_call q d = q d"
  by (cases d) (simp add: pg_call_def)

lemma rd_answered: "rd_fates s = [] \<Longrightarrow> rd_call q s = q s"
  by (cases s) (simp add: rd_call_def)

lemma kv_set_fates [simp]: "rd_fates (kv_del k s) = rd_fates s"
  by (simp add: kv_del_def)

lemma SetKeyMeta_answered: "rd_fates s = [] \<Longrightarrow> SetKeyMeta h m s = (Inr (), kv_set (keyMetaKey h) m day s)"
  by (simp add: SetKeyMeta_def rd_set_def rd_answered)

lemma SetKeyIDIndex_answered: "rd_fates s = [] \<Longrightarrow> SetKeyIDIndex i h s = (Inr (), kv_set (keyIDIndexKey i) h day s)"
  by (simp add: SetKeyIDIndex_def rd_set_def rd_answered)

lemma GetKeyMeta_answered: "rd_fates s = [] \<Longrightarrow> GetKeyMeta h s = (Inr (kv_get (keyMetaKey h) s), s)"
  by (simp add: GetKeyMeta_def rd_get_def rd_answered)

lemma GetKeyIDIndex_answered: "rd_fates s = [] \<Longrightarrow> GetKeyIDIndex i s = (Inr (kv_get (keyIDIndexKey i) s), s)"
  by (simp add: GetKeyIDIndex_def rd_get_def rd_answered)

lemma DeleteKey_answered:
  "rd_fates s = [] \<Longrightarrow> DeleteKeyMeta h s = (Inr (), kv_del (keyMetaKey h) s)"
  "rd_fates s = [] \<Longrightarrow> DeleteKeyIDIndex i s = (Inr (), kv_del (keyIDIndexKey i) s)"
  by (simp_all add: DeleteKeyMeta_def DeleteKeyIDIndex_def rd_del_def rd_answered)

lemma key_keys_differ: "keyMetaKey h \<noteq> keyIDIndexKey i"
  by (simp add: keyMetaKey_def keyIDIndexKey_def)

lemmas key_cache_ops = SetKeyMeta_answered SetKeyIDIndex_answered GetKeyMeta_answered GetKeyIDIndex_answered DeleteKey_answered

lemma on_rd_eq: "q (gw_rd st) = (x, s) \<Longrightarrow> on_rd q st = (x, st\<lparr>gw_rd := s\<rparr>)"
  by (simp add: on_rd_def)

section \<open>Creating a key\<close>

text \<open>The tool and the gateway run with the same libraries and the same key encryption key.\<close>

definition same_secrets :: "aenv \<Rightarrow> genv \<Rightarrow> bool" where
  "same_secrets a g \<longleftrightarrow> ge_crypto g = ae_crypto a \<and> ge_parse g = ae_parse a \<and> ge_str g = ae_str a \<and> ge_pepper g = ae_KEK a"

lemma CreateKey_Inr:
  assumes "CreateKey u n p h sc rpm d = (Inr k, d')"
  shows "k_UserID k = u \<and> k_KeyPrefix k = p \<and> k_KeyHash k = h \<and> k_Scopes k = sc \<and> k_RateLimitRPM k = rpm \<and> k_Status k = ''active''"
  using assms by (auto simp: CreateKey_def Let_def dest!: pg_call_InrD split: prod.splits if_splits)

lemma cmd_create_key_ok:
  assumes "cmd_create_key a (u # name # rest) s = (ex, s')" "ex_err ex = None" "ae_rand a = Inr b"
  obtains userID full pre h k d where "ae_parse a u = Some userID" "Generate (ae_crypto a) (Inr b) False = Inr (full, pre, h)"
    "CreateKey userID name pre h all_scopes 120 (fst s) = (Inr k, d)"
    "cacheAPIKey a (ae_KEK a) full k (snd s) = (Inr (), snd s')"
    "ex_out ex = [''key_id='' @ ae_str a (k_ID k) @ '' api_key='' @ full @ '' (save this; shown once)'']"
proof -
  from assms show thesis
    by (auto simp: cmd_create_key_def try_uuid_def try_val_def try_pg_def try_rd_def fatal_def prints_def
        split: option.splits sum.splits prod.splits intro!: that)
qed

text \<open>
  C15. A created key opens the gateway.  After \<open>create-key\<close> has succeeded, a request with the key it
  printed as its bearer token passes authentication, whatever the database then answers, and the next
  handler runs with the user the key was created for.
\<close>

theorem created_key_opens:
  assumes "bcrypt_ok (ae_crypto a)" "ae_rand a = Inr b" "length b = 32" "\<forall>i. ae_parse a (ae_str a i) = Some i"
    and "same_secrets a g" "rd_fates (snd s) = []"
    and "cmd_create_key a (u # name # rest) s = (ex, s')" "ex_err ex = None" "gw_rd st = snd s'"
  shows "\<exists>full kid. ex_out ex = [''key_id='' @ kid @ '' api_key='' @ full @ '' (save this; shown once)''] \<and>
    (\<forall>r. extractBearer r = full \<longrightarrow> (\<exists>c st1. Some (UserID c) = ae_parse a u \<and> gw_pg st1 = gw_pg st \<and>
       (\<forall>nxt. Auth_Wrap g nxt r st = nxt (WithContext r c) st1)))"
proof -
  from cmd_create_key_ok [OF assms(7,8,2)] obtain userID full pre h k d where
    u: "ae_parse a u = Some userID" and gen: "Generate (ae_crypto a) (Inr b) False = Inr (full, pre, h)" and
    ck: "CreateKey userID name pre h all_scopes 120 (fst s) = (Inr k, d)" and
    cache: "cacheAPIKey a (ae_KEK a) full k (snd s) = (Inr (), snd s')" and
    out: "ex_out ex = [''key_id='' @ ae_str a (k_ID k) @ '' api_key='' @ full @ '' (save this; shown once)'']" .
  note v = Generate_valid [OF assms(1,3) gen] and kf = CreateKey_Inr [OF ck]
  have "json_decode all_scopes = JDoc (JArr [JStr ''*''])" by code_simp
  with kf obtain cached where c: "KeyToCache (ae_str a) k = Inr cached"
      "KeyFromCache (ae_parse a) cached = Inr (k\<lparr>k_Scopes := json_encode (JArr [JStr ''*'']), k_LastUsedAt := None, k_CreatedAt := zero_instant, k_RevokedAt := None\<rparr>)"
    using key_cache_back [OF assms(4), of k "JArr [JStr ''*'']"] by (auto simp: in_i64_iff)
  let ?mac = "HMACHash (ae_crypto a) full (ae_KEK a)"
  let ?k = "k\<lparr>k_Scopes := json_encode (JArr [JStr ''*'']), k_LastUsedAt := None, k_CreatedAt := zero_instant, k_RevokedAt := None\<rparr>"
  from cache c(1) assms(6) have s': "snd s' = kv_set (keyIDIndexKey (ae_str a (k_ID k))) ?mac day (kv_set (keyMetaKey ?mac) cached day (snd s))"
    by (simp add: cacheAPIKey_def Let_def key_cache_ops)
  then have "kv_get (keyMetaKey ?mac) (snd s') = Some cached" "rd_fates (snd s') = []"
    using assms(6) by (simp_all add: kv_get_set key_keys_differ)
  then have rd: "on_rd (GetKeyMeta ?mac) st = (Inr (Some cached), st)"
    using assms(9) by (cases st) (simp add: on_rd_def GetKeyMeta_answered)
  have "cached_key g full (Inr (Some cached)) = Some ?k"
    using c(2) v kf assms(5) by (simp add: cached_key_def same_secrets_def)
  with rd assms(5) have find: "findKeyByToken g full st = (Inr ?k, st)"
    by (simp add: findKeyByToken_def same_secrets_def)
  have ne: "full \<noteq> []" using v ValidateFormat_length [of full] by auto
  define cx where "cx c = WithKey ?k (WithKeyID (k_ID ?k) (WithUserID (k_UserID ?k) c))" for c
  have wrap: "Auth_Wrap g nxt r st = nxt (WithContext r (cx (rq_ctx r))) st" if "extractBearer r = full" for r nxt
    using that find v ne by (simp add: Auth_Wrap_def cx_def)
  have user: "UserID (cx c) = userID" for c using kf by (simp add: cx_def context_defs)
  have "\<exists>c st1. Some (UserID c) = ae_parse a u \<and> gw_pg st1 = gw_pg st \<and> (\<forall>nxt. Auth_Wrap g nxt r st = nxt (WithContext r c) st1)"
    if "extractBearer r = full" for r
    using wrap [OF that] user u by (intro exI [of _ "cx (rq_ctx r)"] exI [of _ st]) simp
  with out show ?thesis by blast
qed

theorem created_key_opens_witness:
  "\<exists>full kid. ex_out (fst (cmd_create_key sample_aenv [''u1'', ''n''] (sample_pg, empty_redis))) =
      [''key_id='' @ kid @ '' api_key='' @ full @ '' (save this; shown once)''] \<and>
     (\<forall>r. extractBearer r = full \<longrightarrow> (\<exists>c st1. UserID c = 1 \<and> gw_pg st1 = sample_pg \<and>
       (\<forall>nxt. Auth_Wrap (sample_genv\<lparr>ge_str := sample_ustr, ge_parse := sample_uparse\<rparr>) nxt r
         (sample_gw\<lparr>gw_rd := snd (snd (cmd_create_key sample_aenv [''u1'', ''n''] (sample_pg, empty_redis)))\<rparr>) =
         nxt (WithContext r c) st1)))"
proof -
  let ?a = sample_aenv and ?g = "sample_genv\<lparr>ge_str := sample_ustr, ge_parse := sample_uparse\<rparr>"
  let ?run = "cmd_create_key sample_aenv [''u1'', ''n''] (sample_pg, empty_redis)"
  have a: "bcrypt_ok (ae_crypto ?a)" "ae_rand ?a = Inr (replicate 32 (CHR ''x''))" "\<forall>i. ae_parse ?a (ae_str ?a i) = Some i"
    "same_secrets ?a ?g" "rd_fates (snd (sample_pg, empty_redis)) = []" "ae_parse ?a ''u1'' = Some 1" "gw_pg sample_gw = sample_pg"
    using sample_bcrypt sample_uuid_text
    by (simp_all add: sample_aenv_def sample_genv_def sample_gw_def same_secrets_def empty_redis_def sample_uparse_def)
  have "ex_err (fst ?run) = None" by code_simp
  from created_key_opens [OF a(1,2) _ a(3,4,5) prod.collapse [symmetric] this, of "sample_gw\<lparr>gw_rd := snd (snd ?run)\<rparr>"]
  show ?thesis using a(6,7) by simp
qed

section \<open>Revoking a key\<close>

lemma RevokeKey_answered:
  "pg_fates d = [] \<Longrightarrow> RevokeKey i d = (Inr (), d\<lparr>pg_tabs := pg_tabs d\<lparr>t_keys := map (revoke_row i (pg_now d)) (t_keys (pg_tabs d))\<rparr>\<rparr>)"
  by (simp add: RevokeKey_def pg_answered Let_def)

lemma find_none: "(\<And>x. x \<in> set xs \<Longrightarrow> \<not> P x) \<Longrightarrow> find P xs = None"
  by (auto simp: find_None_iff)

text \<open>
  C16. A revoked key is refused.  After \<open>revoke-key\<close> has succeeded with both servers answering, if the
  index knew the cache entry of the token and no other key has a matching hash, a request with the token
  is answered 401 and no other handler runs.
\<close>

theorem revoked_key_refused:
  assumes "pg_fates (fst s) = []" "rd_fates (snd s) = []" "ae_parse a t = Some i" "same_secrets a g"
    and "kv_get (keyIDIndexKey (ae_str a i)) (snd s) = Some (HMACHash (ae_crypto a) token (ae_KEK a))"
    and "\<forall>k \<in> set (t_keys (pg_tabs (fst s))). key_Compare (ae_crypto a) (k_KeyHash k) token \<longrightarrow> k_ID k = i"
    and "cmd_revoke_key a (t # rest) s = (ex, s')" "gw_pg st = fst s'" "gw_rd st = snd s'"
    and "extractBearer r = token" "ValidateFormat token = Inr ()"
  shows "\<exists>st1. \<forall>nxt. Auth_Wrap g nxt r st = reply_json 401 [(''error'', ''invalid token'')] st1"
proof -
  let ?d = "(fst s)\<lparr>pg_tabs := pg_tabs (fst s)\<lparr>t_keys := map (revoke_row i (pg_now (fst s))) (t_keys (pg_tabs (fst s)))\<rparr>\<rparr>"
  let ?mac = "HMACHash (ae_crypto a) token (ae_KEK a)"
  let ?s1 = "kv_del (keyIDIndexKey (ae_str a i)) (kv_del (keyMetaKey ?mac) (snd s))"
  from assms(1,2,3,5,7) have s': "s' = (?d, ?s1)"
    by (simp add: cmd_revoke_key_def try_uuid_def try_pg_def RevokeKey_answered forget_key_def key_cache_ops also_rd_def prints_def)
  have rd: "on_rd (GetKeyMeta ?mac) st = (Inr None, st)"
    using assms(2,9) s' by (cases st) (simp add: on_rd_def GetKeyMeta_answered kv_get_del key_keys_differ)
  have "find (\<lambda>k. key_Compare (ae_crypto a) (k_KeyHash k) token)
      (filter (\<lambda>k. k_KeyPrefix k = take 12 token \<and> k_Status k = ''active'') (t_keys (pg_tabs ?d))) = None"
    using assms(6) by (intro find_none) (auto simp: revoke_row_def split: if_splits)
  then have "findKeyByTokenPG (ae_crypto a) token ?d = (Inl (ErrMsg ''key not found''), ?d)"
    using assms(1) by (simp add: findKeyByTokenPG_def pg_answered)
  then have pg: "on_pg (findKeyByTokenPG (ae_crypto a) token) st = (Inl (ErrMsg ''key not found''), st)"
    using assms(8) s' by (cases st) (simp add: on_pg_def)
  have "findKeyByToken g token st = (Inl (ErrMsg ''key not found''), st)"
    using rd pg assms(4) by (simp add: findKeyByToken_def same_secrets_def cached_key_def)
  moreover have "token \<noteq> []" using assms(11) ValidateFormat_length [of token] by auto
  ultimately show ?thesis using assms(10,11) by (intro exI [of _ st]) (simp add: Auth_Wrap_def)
qed

theorem revoked_key_refused_witness:
  "\<exists>st1. \<forall>nxt. Auth_Wrap (sample_genv\<lparr>ge_str := sample_ustr, ge_parse := sample_uparse\<rparr>) nxt sample_request
     (let run = snd (cmd_revoke_key sample_aenv [''u1'']
        (sample_pg\<lparr>pg_tabs := sample_tabs\<lparr>t_keys := [sample_key\<lparr>k_ID := 1\<rparr>]\<rparr>\<rparr>,
         kv_set (keyIDIndexKey ''u1'') (HMACHash sample_crypto sample_token ''pepper'') day empty_redis))
      in sample_gw\<lparr>gw_pg := fst run, gw_rd := snd run\<rparr>) = reply_json 401 [(''error'', ''invalid token'')] st1"
proof -
  let ?a = sample_aenv and ?g = "sample_genv\<lparr>ge_str := sample_ustr, ge_parse := sample_uparse\<rparr>"
  let ?s = "(sample_pg\<lparr>pg_tabs := sample_tabs\<lparr>t_keys := [sample_key\<lparr>k_ID := 1\<rparr>]\<rparr>\<rparr>,
         kv_set (keyIDIndexKey ''u1'') (HMACHash sample_crypto sample_token ''pepper'') day empty_redis)"
  let ?run = "cmd_revoke_key sample_aenv [''u1''] ?s"
  have a: "pg_fates (fst ?s) = []" "rd_fates (snd ?s) = []" "ae_parse ?a ''u1'' = Some 1" "same_secrets ?a ?g"
    "\<forall>k \<in> set (t_keys (pg_tabs (fst ?s))). key_Compare (ae_crypto ?a) (k_KeyHash k) sample_token \<longrightarrow> k_ID k = 1"
    by (simp_all add: sample_aenv_def sample_genv_def sample_pg_def demo_pg_def same_secrets_def empty_redis_def sample_uparse_def)
  have k: "kv_get (keyIDIndexKey (ae_str ?a 1)) (snd ?s) = Some (HMACHash (ae_crypto ?a) sample_token (ae_KEK ?a))"
    by (simp add: kv_get_set sample_aenv_def sample_ustr_def)
  have r: "extractBearer sample_request = sample_token" "ValidateFormat sample_token = Inr ()" by code_simp+
  from revoked_key_refused [OF a(1-4) k a(5), of _ _ "snd ?run" "sample_gw\<lparr>gw_pg := fst (snd ?run), gw_rd := snd (snd ?run)\<rparr>", OF prod.collapse [symmetric] _ _ r]
  show ?thesis by (simp add: Let_def)
qed

section \<open>Deposits and the cached balance\<close>

lemma deposit_keeps_redis:
  "cmd_deposit_credits a args s = (ex, s') \<Longrightarrow> snd s' = snd s"
  by (auto simp: cmd_deposit_credits_def usage_error_def try_uuid_def try_val_def try_pg_def fatal_def prints_def
      split: list.splits option.splits sum.splits prod.splits)

text \<open>
  C40. A deposit is not seen by the gateway as long as a balance is cached, and the cached balance does not
  expire: after \<open>deposit-credits\<close>, however large the deposit and whatever the database says, a user whose
  cached balance is below the hold is still refused with 402.
\<close>

theorem deposit_not_seen:
  assumes "cmd_deposit_credits a args s = (ex, s')" "rd_fates (snd s) = []"
    and "kv_get (balanceKey (ge_str g (UserID (rq_ctx r)))) (snd s) = Some (show_int b)" "in_i64 b"
    and "b < solvency_hold g (rq_ctx r)" "gw_rd st = snd s'"
  shows "\<exists>st1. \<forall>nxt. Solvency_Wrap g nxt r st =
    reply_json 402 [(''error'', ''insufficient_credits''), (''balance_micro'', fmtInt b),
      (''required_micro'', fmtInt (solvency_hold g (rq_ctx r)))] st1"
proof -
  have rd: "gw_rd st = snd s" using deposit_keeps_redis [OF assms(1)] assms(6) by simp
  have "GetBalance (ge_str g (UserID (rq_ctx r))) (snd s) = (Inr (Some b), snd s)"
    using assms(2-4) by (simp add: GetBalance_def rd_get_int_def rd_answered)
  then have "on_rd (GetBalance (ge_str g (UserID (rq_ctx r)))) st = (Inr (Some b), st)"
    using rd by (cases st) (simp add: on_rd_def)
  then have "check_balance g (UserID (rq_ctx r)) st = (Some b, st)" by (simp add: check_balance_def)
  with assms(5) show ?thesis
    by (intro exI [of _ "st\<lparr>gw_metrics := IncHoldFailures (gw_metrics st)\<rparr>"]) (simp add: Solvency_Wrap_def Let_def)
qed

theorem deposit_not_seen_witness:
  "\<exists>st1. \<forall>nxt. Solvency_Wrap sample_genv nxt sample_routed
     (sample_gw\<lparr>gw_rd := snd (snd (cmd_deposit_credits sample_aenv [''u1'', ''50''] (sample_pg, kv_set (balanceKey ''u1'') ''4'' day empty_redis)))\<rparr>) =
   reply_json 402 [(''error'', ''insufficient_credits''), (''balance_micro'', ''4''), (''required_micro'', ''5'')] st1"
proof -
  let ?s = "(sample_pg, kv_set (balanceKey ''u1'') ''4'' day empty_redis)"
  let ?run = "cmd_deposit_credits sample_aenv [''u1'', ''50''] ?s"
  have u: "ge_str sample_genv (UserID (rq_ctx sample_routed)) = ''u1''" "solvency_hold sample_genv (rq_ctx sample_routed) = 5"
    "show_int 4 = ''4''" "fmtInt 4 = ''4''" "fmtInt 5 = ''5''"
    by code_simp+
  have "rd_fates (snd ?s) = []" "kv_get (balanceKey (ge_str sample_genv (UserID (rq_ctx sample_routed)))) (snd ?s) = Some (show_int 4)"
    by (simp_all add: empty_redis_def kv_get_set u)
  from deposit_not_seen [OF prod.collapse [symmetric] this, where st = "sample_gw\<lparr>gw_rd := snd (snd ?run)\<rparr>"]
  show ?thesis by (simp add: u in_i64_iff)
qed

section \<open>Idempotent requests\<close>

lemma update_fresh: "k \<notin> fst ` set m \<Longrightarrow> AList.update k v m = m @ [(k, v)]"
  by (induction m) auto

lemma dec_string_entries:
  "wf_map (m @ kvs) \<Longrightarrow> dec_entries dec_string [] m (map (map_prod id JStr) kvs) = Some (m @ kvs)"
proof (induction kvs arbitrary: m)
  case (Cons e kvs)
  obtain k v where e: "e = (k, v)" by (cases e)
  from Cons.prems e have "k \<notin> fst ` set m" "wf_map ((m @ [(k, v)]) @ kvs)" by (auto simp: wf_map_def)
  with Cons.IH e show ?case by (simp add: update_fresh)
qed simp

lemma cached_back:
  assumes "wf_map (cr_Headers c)" "in_i64 (cr_Status c)"
  shows "unmarshal_struct cached_fields zero_cached (json_decode (marshal_cached c)) =
    Some (c\<lparr>cr_Headers := sort_key fst (cr_Headers c)\<rparr>)"
proof -
  have "distinct (map fst (sort_key fst (cr_Headers c)))"
    using assms(1) unfolding wf_map_def by (metis distinct_map distinct_sort set_sort)
  then have "dec_entries dec_string [] [] (map (map_prod id JStr) (sort_key fst (cr_Headers c))) = Some (sort_key fst (cr_Headers c))"
    using dec_string_entries [of "[]"] by (simp add: wf_map_def)
  with assms(2) show ?thesis
    unfolding marshal_cached_def json_roundtrip
    by (cases c) (simp add: unmarshal_struct_def cached_fields_def EqualFold_def lower_char_def zero_cached_def slice_def)
qed

lemma replay_headers_keeps [simp]:
  "rw_sent (replay_headers h w) = rw_sent w" "rw_body (replay_headers h w) = rw_body w"
  by (induction h w rule: replay_headers.induct) (simp_all add: rw_Set_def rw_Header_def Let_def)

lemma replay_reply:
  assumes "valid_code (cr_Status c)" "rw_sent (gw_w st) = None" "rw_body (gw_w st) = []"
  shows "\<exists>st' h. replayCached c st = (Served, st') \<and> gw_pg st' = gw_pg st \<and> rw_sent (gw_w st') = Some (cr_Status c, h) \<and>
    rw_body (gw_w st') = (if body_allowed (cr_Status c) then cr_Body c else [])"
  using assms
  by (simp add: replayCached_def Let_def rw_Write_def rw_WriteHeader_def server_WriteHeader_def)

lemma SetIdempotency_answered:
  "rd_fates s = [] \<Longrightarrow> SetIdempotency k v ttl s = (Inr (), kv_set (idemKey k) v ttl s)"
  by (simp add: SetIdempotency_def rd_set_def rd_answered)

lemma GetIdempotency_answered: "rd_fates s = [] \<Longrightarrow> GetIdempotency k s = (Inr (kv_get (idemKey k) s), s)"
  by (simp add: GetIdempotency_def rd_get_def rd_answered)

text \<open>The idempotency key a request carries, and whether it can use the cache under this key.\<close>

definition client_key :: "Request \<Rightarrow> string" where
  "client_key r = TrimSpace (header_Get (rq_Header r) ''Idempotency-Key'')"

definition cacheable :: "Request \<Rightarrow> bool" where
  "cacheable r \<longleftrightarrow> client_key r \<noteq> [] \<and> UserID (rq_ctx r) \<noteq> uuid_Nil \<and>
     \<not> isStreamingRequest (WithIdempotencyKey (client_key r) (rq_ctx r))"

definition cache_key :: "genv \<Rightarrow> Request \<Rightarrow> string" where
  "cache_key g r = idempotencyCacheKey (ge_str g (UserID (rq_ctx r))) (client_key r) (rq_Path r)"

lemma idem_wrap:
  assumes "cacheable r"
  shows "Idempotency_Wrap g nxt r st =
    (case getCached (cache_key g r) st of
       (Inr (Some cached), st1) \<Rightarrow> replayCached cached st1
     | (_, st1) \<Rightarrow> record_response nxt (Some (cache_key g r)) (WithContext r (WithIdempotencyKey (client_key r) (rq_ctx r))) st1)"
proof -
  have u: "UserID (WithIdempotencyKey k c) = UserID c" and p: "rq_Path (WithContext r c) = rq_Path r" for k c
    by (simp_all add: context_defs WithContext_def)
  show ?thesis
    using assms unfolding Idempotency_Wrap_def cacheable_def cache_key_def client_key_def [symmetric] Let_def u p by simp
qed



end
