(* ===== verification/Reachable.thy ===== *)
theory Reachable
  imports Credits
begin

text \<open>
  Every state the database can reach.  One step is one operation of \<open>Store\<close> with arbitrary
  arguments, whatever the fates of its statements, or a change of anything the store does not write:
  the clock, the coming identifiers and fates, the tables of providers, credentials and migrations.  The steps are taken by any number of gateways, workers and
  administrators in any interleaving, which is all that row locks and transactions leave visible.
  The balance repair is included in the case the reconciliation is designed for: the sum it writes
  is the sum the ledger still has.
\<close>

section \<open>Steps and reachable states\<close>

definition same_store :: "tables \<Rightarrow> tables \<Rightarrow> bool" where
  "same_store T T' \<longleftrightarrow>
     t_users T' = t_users T \<and> t_keys T' = t_keys T \<and> t_ledger T' = t_ledger T \<and> t_usage T' = t_usage T \<and>
     t_sessions T' = t_sessions T"

lemma same_store_refl [simp]: "same_store T T"
  by (simp add: same_store_def)

lemma same_store_inv:
  assumes "same_store T T'"
  shows "db_inv T \<Longrightarrow> db_inv T'"
proof -
  have "db_inv T' = db_inv T"
    unfolding db_inv_defs ledger_sum_def using assms [unfolded same_store_def] by (elim conjE) (simp only:)
  then show "db_inv T \<Longrightarrow> db_inv T'" by simp
qed

inductive store_step :: "pg \<Rightarrow> pg \<Rightarrow> bool" where
  create_user: "store_step d (snd (CreateUser email d))"
| deposit: "store_step d (snd (DepositCredits i a idem d))"
| create_key: "store_step d (snd (CreateKey i name pre hash scopes rpm d))"
| revoke_key: "store_step d (snd (RevokeKey k d))"
| create_usage: "store_step d (snd (CreateUsageLog l d))"
| create_session: "in_i64 h \<Longrightarrow> store_step d (snd (CreateMeteringSession rid i h e d))"
| delete_session: "store_step d (snd (DeleteMeteringSession rid d))"
| hold: "in_i64 h \<Longrightarrow> store_step d (snd (ApplyHold i h rid idem d))"
| settlement: "in_i64 c \<Longrightarrow> in_i64 r \<Longrightarrow>
    store_step d (snd (CaptureAndRelease ustr i rid c r usage idem d))"
| repair: "ledger_sum i (pg_tabs d) = s \<Longrightarrow> in_i64 s \<Longrightarrow>
    store_step d (snd (SetUserBalanceFromLedger i s d))"
| environment: "same_store (pg_tabs d) (pg_tabs d') \<Longrightarrow> store_step d d'"

inductive store_reachable :: "pg \<Rightarrow> bool" where
  empty: "t_users (pg_tabs d) = [] \<Longrightarrow> t_keys (pg_tabs d) = [] \<Longrightarrow> t_ledger (pg_tabs d) = [] \<Longrightarrow>
    t_usage (pg_tabs d) = [] \<Longrightarrow> t_sessions (pg_tabs d) = [] \<Longrightarrow> store_reachable d"
| step: "store_reachable d \<Longrightarrow> store_step d d' \<Longrightarrow> store_reachable d'"

lemma store_step_inv: "store_step d d' \<Longrightarrow> db_inv (pg_tabs d) \<Longrightarrow> db_inv (pg_tabs d')"
  by (induction rule: store_step.induct)
    (simp_all add: keepsD [OF keeps_CreateUser] keepsD [OF keeps_DepositCredits] keepsD [OF keeps_CreateKey]
      keepsD [OF keeps_RevokeKey] keepsD [OF keeps_CreateUsageLog] keepsD [OF keeps_CreateMeteringSession]
      keepsD [OF keeps_DeleteMeteringSession] keepsD [OF keeps_ApplyHold]
      keepsD [OF keeps_CaptureAndRelease] SetUserBalanceFromLedger_keeps same_store_inv)

lemma store_reachable_inv: "store_reachable d \<Longrightarrow> db_inv (pg_tabs d)"
proof (induction rule: store_reachable.induct)
  case (empty d)
  then show ?case by (simp add: db_inv_defs)
next
  case (step d d')
  then show ?case by (rule_tac store_step_inv)
qed

text \<open>
  In every reachable state of the database each user's cached balance is the sum of that user's
  ledger rows, is not negative and fits 64 bits; no two ledger rows share an idempotency key, no two
  usage logs a request; and every ledger row, key, usage log and session belongs to a known user.
\<close>

theorem reachable_balances:
  assumes "store_reachable d"
  shows "db_inv (pg_tabs d) \<and>
    (\<forall>i b. balance_of i (pg_tabs d) = Some b \<longrightarrow>
       b = ledger_sum i (pg_tabs d) \<and> 0 \<le> b \<and> b \<le> max_i64)"
  using store_reachable_inv [OF assms] balance_of_ledger_sum balance_of_range db_inv_users by blast

definition empty_pg :: pg where
  "empty_pg = \<lparr>pg_tabs = \<lparr>t_users = [], t_keys = [], t_providers = [], t_vault = [], t_ledger = [],
     t_usage = [], t_sessions = [], t_migrations = []\<rparr>, pg_now = 0, pg_uuids = [1, 2], pg_fates = []\<rparr>"

theorem reachable_balances_witness:
  "store_reachable (snd (DepositCredits 1 5000 ''d1'' (snd (CreateUser ''a'' empty_pg)))) \<and>
   ledger_sum 1 (pg_tabs (snd (DepositCredits 1 5000 ''d1'' (snd (CreateUser ''a'' empty_pg))))) = 5000"
proof -
  let ?d = "snd (DepositCredits 1 5000 ''d1'' (snd (CreateUser ''a'' empty_pg)))"
  have "store_reachable empty_pg" by (rule store_reachable.empty) (simp_all add: empty_pg_def)
  then have r: "store_reachable ?d"
    by (rule store_reachable.step [OF store_reachable.step])
      (rule store_step.create_user, rule store_step.deposit)
  have "balance_of 1 (pg_tabs ?d) = Some 5000" by code_simp
  with reachable_balances [OF r] r show ?thesis by simp
qed

end
