(* ===== verification/Worker.thy ===== *)
theory Worker
  imports Reachable Pricing Meter_Queue Registry Runtime
begin

text \<open>
  \<open>internal/metering/worker.go\<close> and \<open>cmd/ledger-worker/main.go\<close>: settling one metering event, the loop
  over the stream with its retries and the dead letter queue, the sweeper for abandoned holds and the
  reconciliation of balances.  The world is the database, Redis and the counters; each tick of a
  background loop is one function.  Logging is left out.  \<open>uuid.Parse\<close> and \<open>uuid.String\<close> are the
  parameters \<open>w_parse\<close> and \<open>w_str\<close>.
\<close>

section \<open>worker.go\<close>

record world =
  wo_pg :: pg
  wo_rd :: redis
  wo_metrics :: metrics

record Worker =
  w_parse :: "string \<Rightarrow> uuid option"
  w_str :: "uuid \<Rightarrow> string"
  w_oob :: "float64 \<Rightarrow> int"
  w_host :: host
  w_Registry :: "Registry option"
  w_Config :: Config

fun toInt64 :: "(float64 \<Rightarrow> int) \<Rightarrow> gval option \<Rightarrow> int" where
  "toInt64 oob (Some (GInt64 t)) = t"
| "toInt64 oob (Some (GInt t)) = t"
| "toInt64 oob (Some (GFloat t)) = int64_of oob t"
| "toInt64 oob (Some (GStr t)) = unmarshal_int64 (json_decode t)"
| "toInt64 oob _ = 0"

definition mustJSON :: "gmap \<Rightarrow> RawMessage" where
  "mustJSON v = marshal (GMap v)"

definition event_partial :: "gmap \<Rightarrow> bool" where
  "event_partial flds \<longleftrightarrow> mget flds ''partial'' = Some (GBool True) \<or> mget flds ''partial'' = Some (GStr ''true'')"

definition event_raw :: "gmap \<Rightarrow> gmap" where
  "event_raw flds =
     (let rawStr = str_or_empty (mget flds ''raw_usage'')
      in if rawStr = [] then []
         else (case fst (unmarshal_map (json_decode rawStr)) of None \<Rightarrow> [] | Some m \<Rightarrow> m))"

definition event_envelope :: "gmap \<Rightarrow> RawMessage" where
  "event_envelope flds =
     (let envelopeStr = str_or_empty (mget flds ''envelope'')
      in if envelopeStr \<noteq> [] then envelopeStr
         else marshal (GMap [(''provider'', GStr (str_or_empty (mget flds ''provider''))),
                             (''operation'', GStr (str_or_empty (mget flds ''operation'')))]))"

text \<open>The model named by the envelope's payload fills in for a missing one.\<close>

definition inject_model :: "gmap \<Rightarrow> gmap \<Rightarrow> gmap" where
  "inject_model flds raw =
     (let envelopeStr = str_or_empty (mget flds ''envelope'')
      in if envelopeStr = [] then raw
         else
           (case unmarshal_map (json_decode envelopeStr) of
              (Some envelope, False) \<Rightarrow>
                (case as_map (mget envelope ''payload'') of
                   None \<Rightarrow> raw
                 | Some payload \<Rightarrow>
                     (let model = str_or_empty (mget payload ''model'')
                      in if model \<noteq> [] \<and> mget raw ''model'' = None then mset_at ''model'' (GStr model) raw else raw))
            | _ \<Rightarrow> raw))"

definition normalized_raw :: "Worker \<Rightarrow> gmap \<Rightarrow> gmap" where
  "normalized_raw w flds =
     (let raw = inject_model flds (event_raw flds); provider = str_or_empty (mget flds ''provider'')
      in case w_Registry w of
           None \<Rightarrow> raw
         | Some r \<Rightarrow>
             if HasCapability r provider ''normalize_usage''
             then (case InvokeNormalize (w_host w) r provider raw (event_envelope flds) of
                     Inl _ \<Rightarrow> raw
                   | Inr normalized \<Rightarrow> normalized)
             else raw)"

definition usage_status :: "string \<Rightarrow> bool \<Rightarrow> string" where
  "usage_status status partial =
     (if status = ''failed'' then ''failed''
      else if status = ''partial'' \<or> partial then ''partial''
      else ''completed'')"

definition zero_usage :: UsageLog where
  "zero_usage = \<lparr>ul_ID = 0, ul_UserID = 0, ul_QuarkGateKeyID = 0, ul_ProviderSlug = [], ul_Operation = [],
     ul_RequestID = 0, ul_Status = [], ul_RawUsage = [], ul_NormalizedUsage = [], ul_CreditsReservedMicro = 0,
     ul_CreditsCapturedMicro = 0, ul_LatencyMs = None, ul_TraceID = [], ul_StartedAt = 0, ul_CompletedAt = None,
     ul_CaptureTxnID = None, ul_ReleaseTxnID = None\<rparr>"

text \<open>From the event and the provider's row to the amounts to capture and to release.\<close>

definition event_settlement ::
    "Worker \<Rightarrow> gmap \<Rightarrow> ProviderConfig \<Rightarrow> (int \<times> int \<times> UsageLog) result go" where
  "event_settlement w flds cfg =
     (let raw = normalized_raw w flds; status = str_or_empty (mget flds ''status'');
          holdMicro = toInt64 (w_oob w) (mget flds ''hold_micro'');
          durationMs = toInt64 (w_oob w) (mget flds ''duration_ms'');
          opts = \<lparr>no_PlatformMargin = cfg_PlatformMargin (w_Config w),
                  no_Partial = event_partial flds \<or> status = ''partial''\<rparr>
      in case NormalizeWithOptions (w_oob w) (p_PricingModel cfg) raw (CreditUSDMicro (w_Config w)) opts of
           Panics s \<Rightarrow> Panics s
         | Returns (Inl e) \<Rightarrow> Returns (Inl e)
         | Returns (Inr (charge, normJSON)) \<Rightarrow>
             (let (captureMicro, releaseMicro) = CaptureRelease holdMicro charge
              in Returns (Inr (captureMicro, releaseMicro,
                   zero_usage\<lparr>ul_Status := usage_status status (event_partial flds), ul_RawUsage := mustJSON raw,
                     ul_NormalizedUsage := normJSON, ul_LatencyMs := Some durationMs\<rparr>))))"

text \<open>After the settlement: drop the session and the cached hold, refresh the cached balance.\<close>

definition after_settlement :: "Worker \<Rightarrow> uuid \<Rightarrow> uuid \<Rightarrow> int \<Rightarrow> world \<Rightarrow> world" where
  "after_settlement w userID requestID captureMicro wo =
     (let d1 = snd (DeleteMeteringSession requestID (wo_pg wo));
          s1 = snd (DeleteHold (w_str w requestID) (wo_rd wo));
          (ru, d2) = GetUser userID d1;
          s2 = (case ru of Inl _ \<Rightarrow> s1 | Inr u \<Rightarrow> snd (SetBalance (w_str w userID) (u_CreditBalanceMicro u) s1))
      in \<lparr>wo_pg = d2, wo_rd = s2, wo_metrics = IncCreditsCaptured captureMicro (IncMeterProcessed (wo_metrics wo))\<rparr>)"

definition ProcessEvent :: "Worker \<Rightarrow> gmap \<Rightarrow> world \<Rightarrow> unit result go \<times> world" where
  "ProcessEvent w flds wo =
     (case w_parse w (str_or_empty (mget flds ''request_id'')) of
        None \<Rightarrow> (Returns (Inl (ErrMsg ''invalid UUID'')), wo)
      | Some requestID \<Rightarrow>
     (case w_parse w (str_or_empty (mget flds ''user_id'')) of
        None \<Rightarrow> (Returns (Inl (ErrMsg ''invalid UUID'')), wo)
      | Some userID \<Rightarrow>
     (case GetProviderBySlug (str_or_empty (mget flds ''provider'')) (wo_pg wo) of
        (Inl e, d1) \<Rightarrow> (Returns (Inl e), wo\<lparr>wo_pg := d1\<rparr>)
      | (Inr cfg, d1) \<Rightarrow>
     (case event_settlement w flds cfg of
        Panics s \<Rightarrow> (Panics s, wo\<lparr>wo_pg := d1\<rparr>)
      | Returns (Inl e) \<Rightarrow> (Returns (Inl e), wo\<lparr>wo_pg := d1\<rparr>)
      | Returns (Inr (captureMicro, releaseMicro, usage)) \<Rightarrow>
     (case CaptureAndRelease (w_str w) userID requestID captureMicro releaseMicro usage
             (str_or_empty (mget flds ''idempotency_key'')) d1 of
        (Inl e, d2) \<Rightarrow> (Returns (Inl e), wo\<lparr>wo_pg := d2\<rparr>)
      | (Inr _, d2) \<Rightarrow>
          (Returns (Inr ()), after_settlement w userID requestID captureMicro (wo\<lparr>wo_pg := d2\<rparr>)))))))"

section \<open>cmd/ledger-worker\<close>

definition consumerGroup :: string where
  "consumerGroup = ''ledger-workers''"

text \<open>A panic ends the process: the batch and everything after it is not done.\<close>

definition handleMessage :: "Worker \<Rightarrow> XMessage \<Rightarrow> world \<Rightarrow> unit go \<times> world" where
  "handleMessage w msg wo =
     (case ProcessEvent w (xm_Values msg) wo of
        (Panics s, wo1) \<Rightarrow> (Panics s, wo1)
      | (Returns (Inr _), wo1) \<Rightarrow>
          (Returns (), wo1\<lparr>wo_rd := snd (AckMeterEvent consumerGroup (xm_ID msg) (wo_rd wo1))\<rparr>)
      | (Returns (Inl e), wo1) \<Rightarrow>
          (let (deliveries, s1) = MessageDeliveries consumerGroup (xm_ID msg) (wo_rd wo1)
           in if deliveries \<ge> WorkerMaxRetries (w_Config w)
              then
                (let s2 = snd (PushDLQ (xm_Values msg) s1);
                     s3 = snd (AckMeterEvent consumerGroup (xm_ID msg) s2)
                 in (Returns (), wo1\<lparr>wo_rd := s3, wo_metrics := IncMeterDLQ (wo_metrics wo1)\<rparr>))
              else (Returns (), wo1\<lparr>wo_rd := s1\<rparr>)))"

fun handleMessages :: "Worker \<Rightarrow> XMessage list \<Rightarrow> world \<Rightarrow> unit go \<times> world" where
  "handleMessages w [] wo = (Returns (), wo)"
| "handleMessages w (m # ms) wo =
     (case handleMessage w m wo of
        (Panics s, wo1) \<Rightarrow> (Panics s, wo1)
      | (Returns _, wo1) \<Rightarrow> handleMessages w ms wo1)"

definition processBatch :: "Worker \<Rightarrow> world \<Rightarrow> unit go \<times> world" where
  "processBatch w wo =
     (let (claimed, s1) = AutoClaimMeterEvents consumerGroup ''worker-1'' (30 * second) 10 (wo_rd wo);
          pendingMsgs = (case claimed of Inl _ \<Rightarrow> [] | Inr ms \<Rightarrow> ms)
      in case handleMessages w pendingMsgs (wo\<lparr>wo_rd := s1\<rparr>) of
           (Panics s, wo1) \<Rightarrow> (Panics s, wo1)
         | (Returns _, wo1) \<Rightarrow>
             (case ReadMeterEvents consumerGroup ''worker-1'' 10 (wo_rd wo1) of
                (Inl _, s2) \<Rightarrow> (Returns (), wo1\<lparr>wo_rd := s2\<rparr>)
              | (Inr messages, s2) \<Rightarrow> handleMessages w messages (wo1\<lparr>wo_rd := s2\<rparr>)))"

text \<open>\<open>--replay-dlq\<close>: entries whose replay fails are reported and skipped; none is removed.\<close>

fun replay_all :: "XMessage list \<Rightarrow> redis \<Rightarrow> redis" where
  "replay_all [] s = s"
| "replay_all (m # ms) s = replay_all ms (snd (ReplayDLQEntry (xm_Values m) s))"

definition replayDLQ :: "redis \<Rightarrow> unit result \<times> redis" where
  "replayDLQ s =
     (case ReadDLQ 100 s of
        (Inl e, s1) \<Rightarrow> (Inl e, s1)
      | (Inr messages, s1) \<Rightarrow> (Inr (), replay_all messages s1))"

text \<open>One abandoned session.  An error of \<open>GetMeteringSession\<close> is ignored: the hold is then 0.\<close>

definition abandoned_usage :: UsageLog where
  "abandoned_usage = zero_usage\<lparr>ul_Status := ''failed'', ul_RawUsage := mustJSON [(''abandoned'', GBool True)],
     ul_NormalizedUsage := mustJSON [(''micro_credits'', GInt 0)], ul_LatencyMs := None\<rparr>"

definition sweep_one :: "(uuid \<Rightarrow> string) \<Rightarrow> uuid \<Rightarrow> pg \<times> redis \<Rightarrow> pg \<times> redis" where
  "sweep_one ustr i ds =
     (let (d, s) = ds;
          (rh, d1) = GetMeteringSession i d;
          hold = (case rh of Inl _ \<Rightarrow> 0 | Inr h \<Rightarrow> h)
      in case GetUsageLogByRequestID i d1 of
           (Inl _, d2) \<Rightarrow> (d2, s)
         | (Inr u, d2) \<Rightarrow>
             (case CaptureAndRelease ustr (ul_UserID u) i 0 hold abandoned_usage [] d2 of
                (Inl _, d3) \<Rightarrow> (d3, s)
              | (Inr _, d3) \<Rightarrow> (snd (DeleteMeteringSession i d3), snd (DeleteHold (ustr i) s))))"

definition sweep :: "(uuid \<Rightarrow> string) \<Rightarrow> pg \<times> redis \<Rightarrow> pg \<times> redis" where
  "sweep ustr ds =
     (case GetExpiredSessions 100 (fst ds) of
        (Inl _, d1) \<Rightarrow> (d1, snd ds)
      | (Inr ids, d1) \<Rightarrow> fold (sweep_one ustr) ids (d1, snd ds))"

definition list_balances :: "(uuid \<times> int) list stmt" where
  "list_balances = pg_call (\<lambda>d. (Inr (map (\<lambda>u. (u_ID u, u_CreditBalanceMicro u)) (t_users (pg_tabs d))), d))"

definition reconcile_one :: "(uuid \<Rightarrow> string) \<Rightarrow> bool \<Rightarrow> uuid \<times> int \<Rightarrow> world \<Rightarrow> world" where
  "reconcile_one ustr autoFix row wo =
     (let (i, cached) = row
      in case LedgerBalance i (wo_pg wo) of
           (Inl _, d1) \<Rightarrow> wo\<lparr>wo_pg := d1\<rparr>
         | (Inr ledger, d1) \<Rightarrow>
             if ledger = cached then wo\<lparr>wo_pg := d1\<rparr>
             else
               (let wo1 = wo\<lparr>wo_pg := d1, wo_metrics := IncBalanceDrift (wo_metrics wo)\<rparr>
                in if autoFix
                   then
                     (case SetUserBalanceFromLedger i ledger d1 of
                        (Inl _, d2) \<Rightarrow> wo1\<lparr>wo_pg := d2\<rparr>
                      | (Inr _, d2) \<Rightarrow>
                          wo1\<lparr>wo_pg := d2, wo_rd := snd (SetBalance (ustr i) ledger (wo_rd wo1))\<rparr>)
                   else wo1\<lparr>wo_rd := snd (SetBalance (ustr i) cached (wo_rd wo1))\<rparr>))"

definition reconcile :: "(uuid \<Rightarrow> string) \<Rightarrow> bool \<Rightarrow> world \<Rightarrow> world" where
  "reconcile ustr autoFix wo =
     (case list_balances (wo_pg wo) of
        (Inl _, d1) \<Rightarrow> wo\<lparr>wo_pg := d1\<rparr>
      | (Inr rows, d1) \<Rightarrow> fold (reconcile_one ustr autoFix) rows (wo\<lparr>wo_pg := d1\<rparr>))"

section \<open>The event in the database\<close>

text \<open>Fields that come out of a stream are strings.\<close>

definition stream_fields :: "gmap \<Rightarrow> bool" where
  "stream_fields flds \<longleftrightarrow> (\<forall>v \<in> snd ` set flds. \<exists>s. v = GStr s)"

lemma message_stream_fields: "stream_fields (xm_Values (message_of e))"
  by (auto simp: stream_fields_def message_of_def)

lemma toInt64_range:
  assumes "stream_fields flds"
  shows "in_i64 (toInt64 oob (mget flds k))"
proof (cases "mget flds k")
  case None
  then show ?thesis by (simp add: in_i64_iff)
next
  case (Some v)
  then have "v \<in> snd ` set flds" by (force dest: map_of_SomeD)
  with assms obtain s where "v = GStr s" by (auto simp: stream_fields_def)
  with Some show ?thesis by simp
qed

lemma event_settlement_range:
  assumes "stream_fields flds" "event_settlement w flds cfg = Returns (Inr (c, r, usage))"
  shows "in_i64 c" "in_i64 r"
    and "\<exists>charge. in_i64 charge \<and> CaptureRelease (toInt64 (w_oob w) (mget flds ''hold_micro'')) charge = (c, r)"
proof -
  let ?h = "toInt64 (w_oob w) (mget flds ''hold_micro'')"
  from assms(2) obtain pricing raw usd opts charge js
    where n: "NormalizeWithOptions (w_oob w) pricing raw usd opts = Returns (Inr (charge, js))"
      and cr: "CaptureRelease ?h charge = (c, r)"
    by (auto simp: event_settlement_def Let_def split: go.splits sum.splits prod.splits)
  have "in_i64 charge" using Normalize_range [OF n] .
  with CaptureRelease_range [OF cr] toInt64_range [OF assms(1)] cr
  show "in_i64 c" "in_i64 r" "\<exists>charge. in_i64 charge \<and> CaptureRelease ?h charge = (c, r)" by auto
qed

text \<open>Case analysis of an event's processing.\<close>

lemma ProcessEvent_cases:
  assumes "ProcessEvent w flds wo = (res, wo')"
  obtains (early) x where "res = x" "x \<noteq> Returns (Inr ())" "pg_tabs (wo_pg wo') = pg_tabs (wo_pg wo)"
      "wo_rd wo' = wo_rd wo" "wo_metrics wo' = wo_metrics wo"
  | (settled) rid uid cfg d1 c r usage q d2 where
      "w_parse w (str_or_empty (mget flds ''request_id'')) = Some rid"
      "w_parse w (str_or_empty (mget flds ''user_id'')) = Some uid"
      "GetProviderBySlug (str_or_empty (mget flds ''provider'')) (wo_pg wo) = (Inr cfg, d1)"
      "event_settlement w flds cfg = Returns (Inr (c, r, usage))"
      "CaptureAndRelease (w_str w) uid rid c r usage (str_or_empty (mget flds ''idempotency_key'')) d1 = (q, d2)"
      "(res, wo') = (case q of Inl e \<Rightarrow> (Returns (Inl e), wo\<lparr>wo_pg := d2\<rparr>)
         | Inr _ \<Rightarrow> (Returns (Inr ()), after_settlement w uid rid c (wo\<lparr>wo_pg := d2\<rparr>)))"
proof -
  have tabs: "pg_tabs (snd (GetProviderBySlug s d)) = pg_tabs d" for s d
    using keepsD [OF keeps_queries(4) [of "\<lambda>T. T = pg_tabs d" s], of d] by simp
  show thesis
  proof (cases "w_parse w (str_or_empty (mget flds ''request_id''))")
    case None
    with assms show thesis by (intro early) (auto simp: ProcessEvent_def)
  next
    case (Some rid)
    note r = this
    show thesis
    proof (cases "w_parse w (str_or_empty (mget flds ''user_id''))")
      case None
      with r assms show thesis by (intro early) (auto simp: ProcessEvent_def)
    next
      case (Some uid)
      obtain g d1 where g: "GetProviderBySlug (str_or_empty (mget flds ''provider'')) (wo_pg wo) = (g, d1)"
        by (cases "GetProviderBySlug (str_or_empty (mget flds ''provider'')) (wo_pg wo)")
      have t: "pg_tabs d1 = pg_tabs (wo_pg wo)"
        using tabs [of "str_or_empty (mget flds ''provider'')" "wo_pg wo"] by (simp add: g)
      show thesis
      proof (cases g)
        case (Inl e)
        with assms r Some g t show thesis by (intro early) (auto simp: ProcessEvent_def)
      next
        case (Inr cfg)
        note p = assms [unfolded ProcessEvent_def r Some option.case g Inr prod.case sum.case]
        show thesis
        proof (cases "event_settlement w flds cfg")
          case (Panics s)
          with p t show thesis by (intro early) auto
        next
          case (Returns v)
          show thesis
          proof (cases v)
            case (Inl e)
            with p Returns t show thesis by (intro early) auto
          next
            case v: (Inr x)
            obtain c l usage where x: "x = (c, l, usage)" by (cases x) auto
            obtain q d2 where q: "CaptureAndRelease (w_str w) uid rid c l usage
                (str_or_empty (mget flds ''idempotency_key'')) d1 = (q, d2)" by fastforce
            have "(res, wo') = (case q of Inl e \<Rightarrow> (Returns (Inl e), wo\<lparr>wo_pg := d2\<rparr>)
                | Inr _ \<Rightarrow> (Returns (Inr ()), after_settlement w uid rid c (wo\<lparr>wo_pg := d2\<rparr>)))"
              using p Returns v x q by (cases q) auto
            with g Inr Returns v x q show thesis by (intro settled [OF r Some]) simp_all
          qed
        qed
      qed
    qed
  qed
qed

lemma settle_outcome:
  assumes "CaptureAndRelease ustr i rid c r usage idem d = (q, d')" "in_i64 c" "in_i64 r"
  shows "(\<exists>e. q = Inl e \<and> pg_tabs d' = pg_tabs d) \<or>
     (settle_committed i c r (pg_tabs d) (pg_tabs d') \<and> (q = Inl ErrConn \<or> (\<exists>ids. q = Inr ids)))"
  using in_tx_outcome [OF assms(1) [unfolded CaptureAndRelease_def]] assms(2,3)
  unfolding settle_committed_def by blast

lemma GetProviderBySlug_tabs: "GetProviderBySlug s d = (g, d') \<Longrightarrow> pg_tabs d' = pg_tabs d"
  using keeps_pairD [OF keeps_queries(4) [of "\<lambda>T. T = pg_tabs d" s], of d] by simp

lemma GetUser_tabs: "GetUser i d = (g, d') \<Longrightarrow> pg_tabs d' = pg_tabs d"
  using keeps_pairD [OF keeps_queries(1) [of "\<lambda>T. T = pg_tabs d" i], of d] by simp

lemma after_settlement_tabs:
  "pg_tabs (wo_pg (after_settlement w u rid c wo)) = pg_tabs (snd (DeleteMeteringSession rid (wo_pg wo)))"
proof -
  obtain ru d2 where g: "GetUser u (snd (DeleteMeteringSession rid (wo_pg wo))) = (ru, d2)" by fastforce
  from GetUser_tabs [OF g] show ?thesis by (simp add: after_settlement_def g Let_def)
qed

text \<open>Deleting a session changes nothing but the sessions.\<close>

lemma DeleteMeteringSession_tabs:
  "\<exists>ss. pg_tabs (snd (DeleteMeteringSession rid d)) = (pg_tabs d)\<lparr>t_sessions := ss\<rparr>"
proof -
  let ?q = "\<lambda>d. let T = pg_tabs d
       in (Inr (), d\<lparr>pg_tabs := T\<lparr>t_sessions := filter (\<lambda>s. ms_request_id s \<noteq> rid) (t_sessions T)\<rparr>\<rparr>)"
  have "\<exists>ss. pg_tabs d = (pg_tabs d)\<lparr>t_sessions := ss\<rparr>"
    by (rule exI [of _ "t_sessions (pg_tabs d)"]) simp
  then show ?thesis
    unfolding DeleteMeteringSession_def by (cases rule: pg_call_cases [of d ?q]) (auto simp: Let_def)
qed

lemma session_upd_simps [simp]:
  "balance_of u (T\<lparr>t_sessions := ss\<rparr>) = balance_of u T"
  by (simp add: balance_of_def user_by_id_def)

text \<open>A small world: one provider, one user with fifty credits, one request with a small hold.\<close>

definition demo_provider :: provider_row where
  "demo_provider = \<lparr>pr_ID = 3, pr_provider_slug = ''apify'', pr_display_name = ''Apify'', pr_category = ''scraping'',
     pr_base_url = ''https://api.apify.com'', pr_auth_injection = ''{}'', pr_pricing_model = demo_pricing,
     pr_health_check_path = Some ''/'', pr_enabled = True, pr_driver_module = ''apify''\<rparr>"

definition demo_config :: Config where
  "demo_config = \<lparr>ListenAddr = [], DatabaseURL = [], RedisURL = [], VaultKEK = [], CreditUSDMicro = 10000,
     DriversPath = [], NodePath = [], ConnectTimeout = 0, StreamIdleSec = 30, StreamMaxSec = 1800, HoldTTLMinutes = 15,
     cfg_PlatformMargin = Fin 0, ReconcileAutoFix = True, WorkerMaxRetries = 5, BulkheadPerProvider = 0,
     WorkerMetricsAddr = []\<rparr>"

definition demo_worker :: Worker where
  "demo_worker = \<lparr>w_parse = (\<lambda>s. if s = ''u1'' then Some 1 else if s = ''r7'' then Some 7 else None),
     w_str = (\<lambda>u. if u = 1 then ''u1'' else ''r7''), w_oob = (\<lambda>_. 0), w_host = demo_host [], w_Registry = None,
     w_Config = demo_config\<rparr>"

definition demo_world :: world where
  "demo_world = \<lparr>wo_pg = demo_pg\<lparr>pg_tabs := demo_tabs\<lparr>t_providers := [demo_provider]\<rparr>\<rparr>, wo_rd = demo_queue,
     wo_metrics = \<lparr>requestsTotal = 0, creditsCapturedMicro = 0, holdFailuresTotal = 0, meterEventsProcessed = 0,
       meterDLQTotal = 0, balanceDriftTotal = 0\<rparr>\<rparr>"

definition demo_fields :: gmap where
  "demo_fields = map (map_prod id GStr)
     [(''request_id'', ''r7''), (''user_id'', ''u1''), (''provider'', ''apify''), (''status'', ''completed''),
      (''hold_micro'', ''90''), (''duration_ms'', ''12''), (''raw_usage'', ''{}'')]"

lemma demo_fields_stream: "stream_fields demo_fields"
  by (simp add: stream_fields_def demo_fields_def)

lemma db_inv_providers [simp]: "db_inv (T\<lparr>t_providers := ps\<rparr>) = db_inv T"
  by (simp add: db_inv_defs ledger_sum_def)

lemma demo_world_inv: "db_inv (pg_tabs (wo_pg demo_world))"
  using demo_inv by (simp add: demo_world_def)

definition demo_cfg :: ProviderConfig where
  "demo_cfg = \<lparr>p_ID = 3, p_ProviderSlug = ''apify'', p_DisplayName = ''Apify'', p_Category = ''scraping'',
     p_BaseURL = ''https://api.apify.com'', p_AuthInjection = ''{}'', p_PricingModel = demo_pricing,
     p_HealthCheckPath = ''/'', p_Enabled = True, p_DriverModule = ''apify''\<rparr>"

definition demo_settled_usage :: UsageLog where
  "demo_settled_usage = (case event_settlement demo_worker demo_fields demo_cfg of Returns (Inr (c, r, u)) \<Rightarrow> u | _ \<Rightarrow> zero_usage)"

lemma demo_settlement:
  "GetProviderBySlug ''apify'' (wo_pg demo_world) = (Inr demo_cfg, wo_pg demo_world)"
  "event_settlement demo_worker demo_fields demo_cfg = Returns (Inr (0, 90, demo_settled_usage))"
  "fst (CaptureAndRelease (w_str demo_worker) 1 7 0 90 demo_settled_usage [] (wo_pg demo_world)) =
     Inr \<lparr>CaptureTxnID = None, ReleaseTxnID = Some 10\<rparr>"
  by (code_simp, code_simp, code_simp)

lemma demo_event_processed: "fst (ProcessEvent demo_worker demo_fields demo_world) = Returns (Inr ())"
proof -
  have f: "str_or_empty (mget demo_fields ''provider'') = ''apify''"
      "str_or_empty (mget demo_fields ''idempotency_key'') = []"
      "w_parse demo_worker (str_or_empty (mget demo_fields ''request_id'')) = Some 7"
      "w_parse demo_worker (str_or_empty (mget demo_fields ''user_id'')) = Some 1"
    by (simp_all add: demo_fields_def str_or_empty_def demo_worker_def)
  show ?thesis
    using demo_settlement(3)
    by (cases "CaptureAndRelease (w_str demo_worker) 1 7 0 90 demo_settled_usage [] (wo_pg demo_world)")
      (simp add: ProcessEvent_def f demo_settlement(1,2))
qed

text \<open>
  Whatever becomes of a metering event (settled, refused, lost on the way or ended by a panic), the
  database still satisfies its invariant: balances are the sums of the ledger and never negative.
\<close>

theorem ProcessEvent_keeps_inv:
  assumes "stream_fields flds" and "db_inv (pg_tabs (wo_pg wo))"
  shows "db_inv (pg_tabs (wo_pg (snd (ProcessEvent w flds wo))))"
proof -
  obtain res wo' where eq: "ProcessEvent w flds wo = (res, wo')" by fastforce
  from eq show ?thesis
  proof (cases rule: ProcessEvent_cases)
    case (early x)
    with eq assms show ?thesis by simp
  next
    case (settled rid uid cfg d1 c r usage q d2)
    have "db_inv (pg_tabs d1)" using GetProviderBySlug_tabs [OF settled(3)] assms(2) by simp
    then have d2: "db_inv (pg_tabs d2)"
      using keeps_pairD [OF keeps_CaptureAndRelease _ settled(5)] event_settlement_range [OF assms(1) settled(4)]
      by blast
    show ?thesis
    proof (cases q)
      case (Inl e)
      with settled(6) eq d2 show ?thesis by simp
    next
      case (Inr ids)
      with settled(6) eq keepsD [OF keeps_DeleteMeteringSession d2] show ?thesis
        by (simp add: after_settlement_tabs)
    qed
  qed
qed

theorem ProcessEvent_keeps_inv_witness:
  "db_inv (pg_tabs (wo_pg (snd (ProcessEvent demo_worker demo_fields demo_world))))"
  by (rule ProcessEvent_keeps_inv [OF demo_fields_stream demo_world_inv])



section \<open>Redelivery\<close>

lemma settle_leaves_keys:
  assumes "committed (settle_tx ustr i rid c r usage idem) T T'"
  shows "t_providers T' = t_providers T"
    and "c > 0 \<Longrightarrow> settle_idem ustr ''capture-'' rid idem \<in> lt_IdempotencyKey ` set (t_ledger T')"
    and "r > 0 \<Longrightarrow> settle_idem ustr ''release-'' rid idem \<in> lt_IdempotencyKey ` set (t_ledger T')"
proof -
  from assms obtain d v d' where T: "T = pg_tabs d" "T' = pg_tabs d'"
    and tx: "settle_tx ustr i rid c r usage idem d = (Inr v, d')" by (auto simp: committed_def)
  show "t_providers T' = t_providers T"
    using tx by (rule settle_tx_Inr) (simp add: T posting_def)
  show "c > 0 \<Longrightarrow> settle_idem ustr ''capture-'' rid idem \<in> lt_IdempotencyKey ` set (t_ledger T')"
    using tx by (rule settle_tx_Inr) (simp add: T posting_def rows_if_def)
  show "r > 0 \<Longrightarrow> settle_idem ustr ''release-'' rid idem \<in> lt_IdempotencyKey ` set (t_ledger T')"
    using tx by (rule settle_tx_Inr) (simp add: T posting_def rows_if_def)
qed

lemma CaptureRelease_some:
  assumes "CaptureRelease h charge = (c, r)" "0 < h" "in_i64 h" "in_i64 charge"
  shows "c > 0 \<or> r > 0"
proof (cases "i64 (h - charge) = 0")
  case True
  have "i64 0 = 0" by (simp add: i64_def)
  with True have "i64 h = i64 charge"
    unfolding i64_eq_iff_mod using i64_eq_iff_mod [of "h - charge" 0] by (simp add: mod_eq_dvd_iff dvd_eq_mod_eq_0)
  then have "charge = h" using assms by simp
  with assms show ?thesis by (auto simp: CaptureRelease_def Let_def split: if_splits)
next
  case False
  with assms show ?thesis by (auto simp: CaptureRelease_def Let_def split: if_splits)
qed

lemma GetProviderBySlug_row:
  assumes "GetProviderBySlug s d = (Inr cfg, d')"
  obtains r where "find (\<lambda>r. pr_provider_slug r = s \<and> pr_enabled r) (t_providers (pg_tabs d)) = Some r"
    "scan_provider r = Inr cfg"
  using pg_call_InrD [OF assms [unfolded GetProviderBySlug_def]]
  by (auto split: option.splits)



section \<open>Messages\<close>

text \<open>Commands on other keys leave the metering stream alone.\<close>

lemma cmd_ok_same:
  assumes "\<And>s. stream_of MeterStreamKey (snd (q s)) = stream_of MeterStreamKey s"
  shows "cmd_ok grp (=) q"
  using assms by (simp add: cmd_ok_def queue_inv_def open_events_def)

lemma stream_of_kv [simp]:
  "stream_of k (kv_set a v t s) = stream_of k s" "stream_of k (kv_del a s) = stream_of k s"
  by (simp_all add: stream_of_def kv_set_def kv_del_def)

lemma queue_DeleteHold: "cmd_ok grp (=) (DeleteHold r)"
  unfolding DeleteHold_def rd_del_def by (rule cmd_ok_call [OF cmd_ok_same]) simp_all

lemma queue_SetBalance: "cmd_ok grp (=) (SetBalance u n)"
  unfolding SetBalance_def rd_set_def by (rule cmd_ok_call [OF cmd_ok_same]) simp_all

lemma queue_PushDLQ: "cmd_ok grp (=) (PushDLQ flds)"
  unfolding PushDLQ_def
proof (rule cmd_ok_call [OF cmd_ok_same])
  fix s
  show "stream_of MeterStreamKey (snd (xadd MeterDLQKey flds s)) = stream_of MeterStreamKey s"
    by (cases "xadd_fields flds")
      (simp_all add: xadd_def Let_def stream_of_def set_stream_def update_conv' MeterDLQKey_def MeterStreamKey_def)
qed simp

definition same_queue :: "redis \<Rightarrow> redis \<Rightarrow> bool" where
  "same_queue s s' \<longleftrightarrow>
     (queue_inv consumerGroup s \<longrightarrow>
        queue_inv consumerGroup s' \<and> open_events consumerGroup s' = open_events consumerGroup s)"

lemma same_queue_refl [simp]: "same_queue s s"
  by (simp add: same_queue_def)

lemma same_queue_trans: "same_queue a b \<Longrightarrow> same_queue b c \<Longrightarrow> same_queue a c"
  by (auto simp: same_queue_def)

lemma cmd_ok_same_queue: "cmd_ok consumerGroup (=) q \<Longrightarrow> same_queue s (snd (q s))"
  by (simp add: cmd_ok_def same_queue_def)

lemma MessageDeliveries_queue: "MessageDeliveries g i s = (n, s') \<Longrightarrow> same_queue s s'"
proof -
  let ?q = "\<lambda>s. let x = stream_of MeterStreamKey s
        in case group_of g x of
             None \<Rightarrow> (Inl (ErrMsg ''NOGROUP''), s)
           | Some g \<Rightarrow> (Inr (find (\<lambda>p. pe_id p = i) (rg_pel g)), s)"
  have "cmd_ok consumerGroup (=) (rd_call ?q)"
    by (rule cmd_ok_call [OF cmd_ok_same]) (simp_all add: Let_def split: option.split)
  then have "same_queue s (snd (rd_call ?q s))" by (rule cmd_ok_same_queue)
  moreover assume "MessageDeliveries g i s = (n, s')"
  then have "s' = snd (rd_call ?q s)"
    by (cases "rd_call ?q s") (auto simp: MessageDeliveries_def split: sum.splits option.splits)
  ultimately show ?thesis by simp
qed

lemma after_settlement_queue: "same_queue (wo_rd wo) (wo_rd (after_settlement w u rid c wo))"
proof -
  let ?s1 = "snd (DeleteHold (w_str w rid) (wo_rd wo))"
  obtain ru d2 where g: "GetUser u (snd (DeleteMeteringSession rid (wo_pg wo))) = (ru, d2)" by fastforce
  have 1: "same_queue (wo_rd wo) ?s1" by (rule cmd_ok_same_queue [OF queue_DeleteHold])
  have 2: "same_queue (wo_rd wo) (snd (SetBalance v n ?s1))" for v n
    using same_queue_trans [OF 1 cmd_ok_same_queue [OF queue_SetBalance]] .
  show ?thesis using 1 2 by (cases ru) (simp_all add: after_settlement_def g Let_def)
qed

lemma ProcessEvent_queue:
  assumes "ProcessEvent w flds wo = (res, wo')"
  shows "same_queue (wo_rd wo) (wo_rd wo')"
  using assms
proof (cases rule: ProcessEvent_cases)
  case (early x)
  then show ?thesis by simp
next
  case (settled rid uid cfg d1 c r usage q d2)
  then show ?thesis
    using after_settlement_queue [of "wo\<lparr>wo_pg := d2\<rparr>" w uid rid c] by (cases q) simp_all
qed

text \<open>
  C12. A message is given up only when it was dealt with.  If a message is no longer open after the worker
  handled it, then its event was settled, or its processing failed and it had been delivered at least as
  often as the configured number of retries (it was then handed to the dead letter queue).  Every other
  message stays open.
\<close>

theorem handleMessage_gives_up:
  assumes "queue_inv consumerGroup (wo_rd wo)" and "handleMessage w msg wo = (res, wo')"
    and "i \<in> open_events consumerGroup (wo_rd wo)" and "i \<notin> open_events consumerGroup (wo_rd wo')"
  shows "i = xm_ID msg \<and>
    (fst (ProcessEvent w (xm_Values msg) wo) = Returns (Inr ()) \<or>
     (\<exists>e wo1. ProcessEvent w (xm_Values msg) wo = (Returns (Inl e), wo1) \<and>
        WorkerMaxRetries (w_Config w) \<le> fst (MessageDeliveries consumerGroup (xm_ID msg) (wo_rd wo1))))"
proof -
  obtain r wo1 where p: "ProcessEvent w (xm_Values msg) wo = (r, wo1)" by fastforce
  note q1 = ProcessEvent_queue [OF p]
  have ack: "i = xm_ID msg" if "same_queue (wo_rd wo) s"
    "i \<notin> open_events consumerGroup (snd (AckMeterEvent consumerGroup (xm_ID msg) s))" for s
    using that assms(1,3) ack_ok [of consumerGroup "xm_ID msg"] unfolding same_queue_def cmd_ok_def by blast
  show ?thesis
  proof (cases r)
    case (Panics s)
    with assms p q1 show ?thesis by (auto simp: handleMessage_def same_queue_def)
  next
    case (Returns v)
    show ?thesis
    proof (cases v)
      case (Inr u)
      with assms(2,4) p Returns ack [OF q1] show ?thesis by (auto simp: handleMessage_def)
    next
      case (Inl e)
      obtain n s1 where m: "MessageDeliveries consumerGroup (xm_ID msg) (wo_rd wo1) = (n, s1)" by fastforce
      have q2: "same_queue (wo_rd wo) s1" using same_queue_trans [OF q1 MessageDeliveries_queue [OF m]] .
      have q3: "same_queue (wo_rd wo) (snd (PushDLQ (xm_Values msg) s1))"
        using same_queue_trans [OF q2 cmd_ok_same_queue [OF queue_PushDLQ]] .
      from assms p Returns Inl m q2 ack [OF q3] show ?thesis
        by (auto simp: handleMessage_def same_queue_def split: if_splits)
    qed
  qed
qed

lemma rd_fates_demo_queue: "rd_fates demo_queue = []"
  by code_simp

definition bad_fields :: gmap where
  "bad_fields = [(''request_id'', GStr ''zzz'')]"

definition bad_worker :: Worker where
  "bad_worker = demo_worker\<lparr>w_Config := demo_config\<lparr>WorkerMaxRetries := 1\<rparr>\<rparr>"

definition bad_world :: world where
  "bad_world = demo_world\<lparr>wo_rd := snd (ReadMeterEvents consumerGroup ''worker-1'' 10
     (snd (EmitMeterEvent bad_fields (snd (CreateConsumerGroup consumerGroup empty_redis)))))\<rparr>"

theorem handleMessage_gives_up_witness:
  "\<exists>e wo1. ProcessEvent bad_worker bad_fields bad_world = (Returns (Inl e), wo1) \<and>
     WorkerMaxRetries (w_Config bad_worker) \<le> fst (MessageDeliveries consumerGroup 1 (wo_rd wo1))"
proof -
  let ?msg = "\<lparr>xm_ID = 1, xm_Values = bad_fields\<rparr>"
  obtain res wo' where eq: "handleMessage bad_worker ?msg bad_world = (res, wo')" by fastforce
  have st: "stream_of MeterStreamKey (wo_rd bad_world) = \<lparr>st_entries = [(1, [(''request_id'', ''zzz'')])], st_last = 1,
      st_groups = [(consumerGroup, \<lparr>rg_last = 1, rg_pel = [\<lparr>pe_id = 1, pe_consumer = ''worker-1'', pe_time = 0, pe_count = 1\<rparr>]\<rparr>)]\<rparr>"
    and st': "stream_of MeterStreamKey (wo_rd (snd (handleMessage bad_worker ?msg bad_world))) =
      \<lparr>st_entries = [(1, [(''request_id'', ''zzz'')])], st_last = 1, st_groups = [(consumerGroup, \<lparr>rg_last = 1, rg_pel = []\<rparr>)]\<rparr>"
    and bad: "fst (ProcessEvent bad_worker bad_fields bad_world) \<noteq> Returns (Inr ())"
    by (code_simp, code_simp, code_simp)
  have "queue_inv consumerGroup (wo_rd bad_world)" "1 \<in> open_events consumerGroup (wo_rd bad_world)"
    by (simp_all add: queue_inv_def open_events_def st group_of_def entry_ids_def group_ok_def group_open_def)
  moreover have "1 \<notin> open_events consumerGroup (wo_rd wo')"
    using st' eq by (simp add: open_events_def group_of_def group_open_def)
  ultimately show ?thesis using handleMessage_gives_up [OF _ eq, of 1] bad by simp
qed

section \<open>The sweeper\<close>

lemma GetMeteringSession_range:
  assumes "db_inv (pg_tabs d)" "GetMeteringSession i d = (rh, d1)"
  shows "pg_tabs d1 = pg_tabs d" and "in_i64 (case rh of Inl _ \<Rightarrow> 0 | Inr h \<Rightarrow> h)"
proof -
  show "pg_tabs d1 = pg_tabs d"
    using keeps_pairD [OF keeps_queries(8) [of "\<lambda>T. T = pg_tabs d"] _ assms(2)] by simp
  show "in_i64 (case rh of Inl _ \<Rightarrow> 0 | Inr h \<Rightarrow> h)"
  proof (cases rh)
    case (Inr v)
    with pg_call_InrD [OF assms(2) [unfolded GetMeteringSession_def Inr]]
    have "map_option ms_hold_micro (find (\<lambda>s. ms_request_id s = i) (t_sessions (pg_tabs d))) = Some v"
      by (auto simp: select_row_def split: option.splits)
    with assms(1) Inr show ?thesis by (auto simp: db_inv_def sessions_ok_def dest: find_SomeD)
  qed (simp add: in_i64_iff)
qed

lemma sweep_one_keeps:
  assumes "db_inv (pg_tabs (fst ds))"
  shows "db_inv (pg_tabs (fst (sweep_one ustr i ds)))"
proof -
  obtain d s where ds: "ds = (d, s)" by (cases ds)
  obtain rh d1 where g: "GetMeteringSession i d = (rh, d1)" by fastforce
  obtain ru d2 where u: "GetUsageLogByRequestID i d1 = (ru, d2)" by fastforce
  have d: "db_inv (pg_tabs d)" using assms ds by simp
  note h = GetMeteringSession_range [OF d g]
  have d2: "db_inv (pg_tabs d2)" using keeps_pairD [OF keeps_queries(7) _ u] h(1) d by simp
  show ?thesis
  proof (cases ru)
    case (Inl e)
    with ds g u d2 show ?thesis by (simp add: sweep_one_def)
  next
    case (Inr l)
    obtain q d3 where q: "CaptureAndRelease ustr (ul_UserID l) i 0 (case rh of Inl _ \<Rightarrow> 0 | Inr h \<Rightarrow> h)
        abandoned_usage [] d2 = (q, d3)" by fastforce
    have d3: "db_inv (pg_tabs d3)"
      using keeps_pairD [OF keeps_CaptureAndRelease [OF _ h(2)] d2 q] by (simp add: in_i64_iff)
    with keepsD [OF keeps_DeleteMeteringSession d3] ds g u Inr q show ?thesis
      by (cases q) (simp_all add: sweep_one_def)
  qed
qed

text \<open>
  A sweep over the expired sessions keeps the database invariant, whichever sessions have
  expired, whichever of them meet an error and whichever calls are lost.
\<close>

theorem sweep_keeps_inv:
  assumes "db_inv (pg_tabs (fst ds))"
  shows "db_inv (pg_tabs (fst (sweep ustr ds)))"
proof -
  have fold: "db_inv (pg_tabs (fst e)) \<Longrightarrow> db_inv (pg_tabs (fst (fold (sweep_one ustr) ids e)))" for ids e
    by (induction ids arbitrary: e) (simp_all add: sweep_one_keeps)
  obtain r d1 where g: "GetExpiredSessions 100 (fst ds) = (r, d1)" by fastforce
  have "db_inv (pg_tabs d1)" using keeps_pairD [OF keeps_queries(5) [of db_inv 100] assms g] .
  then show ?thesis using fold g by (cases r) (simp_all add: sweep_def)
qed

theorem sweep_keeps_inv_witness: "db_inv (pg_tabs (fst (sweep (\<lambda>_. ''7'') (demo_pg, empty_redis))))"
  by (rule sweep_keeps_inv) (use demo_inv in \<open>simp add: demo_pg_def\<close>)

text \<open>A request whose hold was placed and whose worker never came: its session and its pending log.\<close>

definition abandoned_pg :: pg where
  "abandoned_pg = demo_pg\<lparr>pg_now := 1000, pg_tabs := demo_tabs\<lparr>
     t_usage := [demo_usage\<lparr>ul_UserID := 1, ul_QuarkGateKeyID := 2, ul_RequestID := 7, ul_Status := ''pending''\<rparr>],
     t_sessions := [\<lparr>ms_request_id = 7, ms_user_id = 1, ms_hold_micro = 90, ms_expires_at = 10\<rparr>]\<rparr>\<rparr>"


section \<open>The reconciliation\<close>

lemma LedgerBalance_answered:
  "pg_fates d = [] \<Longrightarrow> LedgerBalance i d = (scan_int8 (ledger_sum i (pg_tabs d)), d)"
  by (simp add: LedgerBalance_def pg_call_def)

lemma reconcile_one_fresh:
  assumes "pg_fates (wo_pg wo) = []" "ledger_sum i (pg_tabs (wo_pg wo)) = cached" "in_i64 cached"
  shows "reconcile_one ustr autoFix (i, cached) wo = wo"
  using assms by (simp add: reconcile_one_def LedgerBalance_answered scan_int8_def)

text \<open>
  On a database that satisfies the invariant the reconciliation finds no drift: with every call
  answered and no interference it changes nothing, neither a balance nor the cache nor a counter.
\<close>

theorem reconcile_idle:
  assumes "db_inv (pg_tabs (wo_pg wo))" and "pg_fates (wo_pg wo) = []"
  shows "reconcile ustr autoFix wo = wo"
proof -
  let ?rows = "map (\<lambda>u. (u_ID u, u_CreditBalanceMicro u)) (t_users (pg_tabs (wo_pg wo)))"
  have "ledger_sum i (pg_tabs (wo_pg wo)) = c \<and> in_i64 c" if "(i, c) \<in> set ?rows" for i c
    using that assms(1) by (auto simp: db_inv_def consistent_def users_ok_def in_i64_iff max_i64_def)
  then have one: "reconcile_one ustr autoFix e wo = wo" if "e \<in> set ?rows" for e
    using that reconcile_one_fresh [OF assms(2)] by (cases e) blast
  have "fold (reconcile_one ustr autoFix) rs wo = wo" if "set rs \<subseteq> set ?rows" for rs
    using that by (induction rs) (simp_all add: one del: set_map)
  moreover have "list_balances (wo_pg wo) = (Inr ?rows, wo_pg wo)"
    using assms(2) by (simp add: list_balances_def pg_call_def)
  ultimately show ?thesis by (simp add: reconcile_def)
qed

theorem reconcile_idle_witness: "reconcile (\<lambda>_. ''u1'') True demo_world = demo_world"
  by (rule reconcile_idle [OF demo_world_inv]) (simp add: demo_world_def demo_pg_def)

text \<open>
  C36. A drifted balance is repaired: when the cached balance of a user differs from the ledger, the ledger
  sums to an amount between zero and the largest integer, and the calls are answered, the automatic
  fix sets the balance in the database and in Redis to the ledger's sum and counts one drift.
\<close>

theorem reconcile_repairs:
  assumes "pg_fates (wo_pg wo) = []" and "rd_fates (wo_rd wo) = []"
    and "balance_of i (pg_tabs (wo_pg wo)) = Some cached"
    and "ledger_sum i (pg_tabs (wo_pg wo)) = ledger" and "0 \<le> ledger" and "ledger \<le> max_i64" and "ledger \<noteq> cached"
  shows "let wo' = reconcile_one ustr True (i, cached) wo
    in balance_of i (pg_tabs (wo_pg wo')) = Some ledger \<and>
       fst (GetBalance (ustr i) (wo_rd wo')) = Inr (Some ledger) \<and>
       balanceDriftTotal (wo_metrics wo') = i64 (balanceDriftTotal (wo_metrics wo) + 1)"
proof -
  have r: "in_i64 ledger" using assms by (simp add: in_i64_iff max_i64_def)
  have upd: "map_option u_CreditBalanceMicro (find (\<lambda>u. u_ID u = i) (map (set_balance_row i ledger n) us)) =
      map_option (\<lambda>_. ledger) (find (\<lambda>u. u_ID u = i) us)" for n us
    by (induction us) (simp_all add: set_balance_row_def)
  have "SetUserBalanceFromLedger i ledger (wo_pg wo) = (Inr (), (wo_pg wo)\<lparr>pg_tabs := (pg_tabs (wo_pg wo))
      \<lparr>t_users := map (set_balance_row i ledger (pg_now (wo_pg wo))) (t_users (pg_tabs (wo_pg wo)))\<rparr>\<rparr>)"
    using assms by (simp add: SetUserBalanceFromLedger_def pg_call_def update_balance_def Let_def)
  moreover have "balance_of i (T\<lparr>t_users := map (set_balance_row i ledger n) (t_users T)\<rparr>) = Some ledger"
    if "balance_of i T = Some cached" for T n
    using that by (auto simp: balance_of_def user_by_id_def upd simp del: map_option_eq_Some)
  ultimately show ?thesis
    using assms r
    by (simp add: reconcile_one_def LedgerBalance_answered scan_int8_def Let_def
        IncBalanceDrift_def GetBalance_def SetBalance_def rd_get_int_answered rd_set_answered rkv.family_put)
qed

theorem reconcile_repairs_witness:
  "let wo' = reconcile_one (\<lambda>_. ''u1'') True (1, 49999999)
       (demo_world\<lparr>wo_pg := demo_pg\<lparr>pg_tabs := demo_tabs\<lparr>t_users := [demo_user\<lparr>u_CreditBalanceMicro := 49999999\<rparr>]\<rparr>\<rparr>\<rparr>)
   in balance_of 1 (pg_tabs (wo_pg wo')) = Some 50000000"
  using reconcile_repairs [of "demo_world\<lparr>wo_pg := demo_pg\<lparr>pg_tabs := demo_tabs\<lparr>t_users := [demo_user\<lparr>u_CreditBalanceMicro := 49999999\<rparr>]\<rparr>\<rparr>\<rparr>"
      1 49999999 50000000 "\<lambda>_. ''u1''"]
  by (simp add: demo_world_def demo_defs balance_of_def user_by_id_def ledger_sum_def max_i64_def Let_def rd_fates_demo_queue)

end
