(* ===== verification/Serving.thy ===== *)
theory Serving
  imports Admission Worker
begin

text \<open>
  What the proxy does with an admitted request: it gives back the slot and the count it took, and it
  leaves exactly one metering event for the ledger worker, from which the worker reads the request, the
  user and the hold back.
\<close>

section \<open>Slots and counts\<close>

text \<open>The part of the state that only the two deferred calls change.\<close>

definition guards_of :: "gw \<Rightarrow> int \<times> Bulkhead option" where
  "guards_of st = (gw_active st, gw_bulkhead st)"

lemma guards_steps [simp]:
  "guards_of (snd (time_Now st)) = guards_of st" "guards_of (snd (on_rd q st)) = guards_of st"
  "guards_of (on_w f st) = guards_of st" "guards_of (record_breaker b st) = guards_of st"
  "guards_of (st\<lparr>gw_breaker := cb\<rparr>) = guards_of st"
  by (simp_all add: guards_of_def time_Now_def on_rd_def on_w_def record_breaker_def split: list.split prod.split)

lemma guards_time: "time_Now st = (t, st') \<Longrightarrow> guards_of st' = guards_of st"
  using guards_steps(1) [of st] by simp

lemma guards_emit: "guards_of (snd (emitMeter h tr r start status p raw st)) = guards_of st"
  by (simp add: emitMeter_def gateway_EmitMeterEvent_def guards_time split: option.split prod.split)

lemma guards_emit_eq: "emitMeter h tr r start status p raw st = (x, st') \<Longrightarrow> guards_of st' = guards_of st"
  using guards_emit [of h tr r start status p raw st] by simp

lemma guards_fail: "guards_of (snd (proxy_fail h tr r start st)) = guards_of st"
  by (auto simp: proxy_fail_def guards_emit_eq split: prod.split outcome.split)

lemma guards_stream:
  "stream_answer h tr r resp st = Some (a, b, c, e, st') \<Longrightarrow> guards_of st' = guards_of st"
  by (auto simp: stream_answer_def Let_def guards_time split: prod.splits option.splits if_splits)

lemma guards_plain: "plain_answer resp st = Some (a, b, c, e, st') \<Longrightarrow> guards_of st' = guards_of st"
  by (auto simp: plain_answer_def split: option.splits sum.splits)

lemma guards_forward: "guards_of (snd (forward_answer h tr r start ds resp st)) = guards_of st"
  by (simp add: forward_answer_def Let_def guards_emit guards_stream guards_plain split: option.split prod.split if_split)

lemma guards_call: "guards_of (snd (call_provider h tr r start ds st)) = guards_of st"
  by (simp add: call_provider_def Let_def guards_fail guards_forward split: option.split sum.split)

lemma guards_ask: "ask_breaker p st = (b, st') \<Longrightarrow> guards_of st' = guards_of st"
  by (auto simp: ask_breaker_def Let_def dest!: guards_time split: prod.splits option.splits)

lemma guards_refuse: "guards_of (snd (refuse h tr r start wait msg st)) = guards_of st"
  by (simp add: refuse_def guards_emit)

lemma guards_breaker: "guards_of (snd (serve_breaker h tr r start ds st)) = guards_of st"
  by (auto simp: serve_breaker_def guards_refuse guards_call dest: guards_ask split: prod.split bool.split)

lemma deferred_snd: "fst res \<noteq> Hung \<Longrightarrow> deferred f res = (fst res, f (snd res))"
  by (cases res; cases "fst res") (simp_all add: deferred_def)

lemma deferred_fst [simp]: "fst (deferred f res) = fst res"
  by (cases res; cases "fst res") (simp_all add: deferred_def)

text \<open>A request under the bulkhead leaves the slots as they were.\<close>

definition slots_ok :: "Bulkhead option \<Rightarrow> bool" where
  "slots_ok b \<longleftrightarrow> b = None \<or> bulkhead_ok b"

lemma slots_round:
  assumes "slots_ok b" "TryAcquire b p = (True, b')"
  shows "holders (Release b' p) = holders b \<and> slots_ok (Release b' p)"
proof (cases b)
  case None
  with assms show ?thesis by (simp add: TryAcquire_def Release_def slots_ok_def)
next
  case (Some x)
  with assms(1) have ok: "bulkhead_ok b" by (simp add: slots_ok_def)
  have "fst (TryAcquire b p)" "snd (TryAcquire b p) = b'" using assms(2) by simp_all
  with bh.acquire_release [OF ok] bh.acquire_state [OF ok, of p] bh.release_state [of b' p]
  show ?thesis by (auto simp: slots_ok_def)
qed

lemma slots_bulkhead:
  assumes "slots_ok (gw_bulkhead st)" "serve_bulkhead h tr r start ds st = (x, st')" "x \<noteq> Hung"
  shows "gw_active st' = gw_active st \<and> holders (gw_bulkhead st') = holders (gw_bulkhead st) \<and> slots_ok (gw_bulkhead st')"
proof -
  obtain ok b where t: "TryAcquire (gw_bulkhead st) (dr_Provider ds) = (ok, b)" by (metis surj_pair)
  show ?thesis
  proof (cases ok)
    case False
    with t have b: "b = gw_bulkhead st"
      by (auto simp: TryAcquire_def split: option.splits if_splits)
    have "guards_of st' = guards_of (st\<lparr>gw_bulkhead := b\<rparr>)"
      using guards_refuse [of h tr r start "''5''" "''bulkhead full''" "st\<lparr>gw_bulkhead := b\<rparr>"] assms(2) t False
      by (simp add: serve_bulkhead_def)
    with b assms(1) show ?thesis by (simp add: guards_of_def)
  next
    case True
    let ?res = "serve_breaker h tr r start ds (st\<lparr>gw_bulkhead := b\<rparr>)"
    from assms(2,3) t True have "(x, st') = (fst ?res, release_slot (dr_Provider ds) (snd ?res))"
      using deferred_snd [of ?res] deferred_fst [of "release_slot (dr_Provider ds)" ?res] by (auto simp: serve_bulkhead_def)
    moreover have "guards_of (snd ?res) = guards_of (st\<lparr>gw_bulkhead := b\<rparr>)" by (rule guards_breaker)
    ultimately have "gw_active st' = gw_active st" "gw_bulkhead st' = Release b (dr_Provider ds)"
      by (simp_all add: guards_of_def release_slot_def)
    with slots_round [OF assms(1), of "dr_Provider ds" b] t True show ?thesis by simp
  qed
qed

text \<open>
  C9. The proxy gives back what it takes.  Unless it waits for ever on an answer, every request, served,
  refused or ended by a panic, leaves the number of running requests and the slots of the bulkhead as
  they were: the shutdown loop that waits for the count to reach zero, and the capacity of a provider,
  are not worn out by any traffic.
\<close>

theorem proxy_releases:
  assumes "ServeHTTP h tr r st = (x, st')" "x \<noteq> Hung"
    and "in_i64 (gw_active st)" "slots_ok (gw_bulkhead st)"
  shows "gw_active st' = gw_active st \<and> holders (gw_bulkhead st') = holders (gw_bulkhead st) \<and> slots_ok (gw_bulkhead st')"
proof -
  define st0 where "st0 = st\<lparr>gw_active := IncActive (gw_active st), gw_metrics := IncRequests (gw_metrics st)\<rparr>"
  obtain start st1 where t: "time_Now st0 = (start, st1)" by (metis surj_pair)
  have s1: "gw_active st1 = IncActive (gw_active st)" "gw_bulkhead st1 = gw_bulkhead st"
    using guards_time [OF t] by (simp_all add: guards_of_def st0_def)
  define res where "res = (case Downstream (rq_ctx r) of
      None \<Rightarrow> (Served, on_w (http_Error ''no downstream'' 500) st1)
    | Some ds \<Rightarrow> serve_bulkhead h tr r start ds st1)"
  have serve: "ServeHTTP h tr r st = deferred (\<lambda>st. st\<lparr>gw_active := DecActive (gw_active st)\<rparr>) res"
    unfolding ServeHTTP_def Let_def st0_def [symmetric] t prod.case res_def ..
  then have x: "fst res = x" using assms(1) deferred_fst [of _ res] by (metis fst_conv)
  with assms(1,2) serve have st': "st' = (snd res)\<lparr>gw_active := DecActive (gw_active (snd res))\<rparr>"
    using deferred_snd [of res] by simp
  have "gw_active (snd res) = gw_active st1 \<and> holders (gw_bulkhead (snd res)) = holders (gw_bulkhead st1) \<and>
      slots_ok (gw_bulkhead (snd res))"
  proof (cases "Downstream (rq_ctx r)")
    case None
    then show ?thesis using assms(4) s1(2) by (simp add: res_def on_w_def)
  next
    case (Some ds)
    have "serve_bulkhead h tr r start ds st1 = (x, snd res)" using Some x by (simp add: res_def prod_eq_iff)
    from slots_bulkhead [OF _ this assms(2)] assms(4) s1(2) show ?thesis by simp
  qed
  moreover have "DecActive (IncActive (gw_active st)) = gw_active st"
    using assms(3) i64_add_left [of "gw_active st + 1" "-1"] by (simp add: IncActive_def DecActive_def)
  ultimately show ?thesis using st' s1 by simp
qed

theorem proxy_releases_witness:
  "gw_active (snd (ServeHTTP sample_handler sample_transport sample_routed sample_gw)) = 0 \<and>
   holders (gw_bulkhead (snd (ServeHTTP sample_handler sample_transport sample_routed sample_gw))) = {#}"
proof -
  have f: "fst (ServeHTTP sample_handler sample_transport sample_routed sample_gw) = Served" by code_simp
  have "in_i64 (gw_active sample_gw)" "slots_ok (gw_bulkhead sample_gw)" "gw_active sample_gw = 0" "holders (gw_bulkhead sample_gw) = {#}"
    by (simp_all add: sample_gw_def in_i64_iff slots_ok_def NewBulkhead_def bulkhead_ok_def holders_def active_of_def)
  then show ?thesis using proxy_releases [OF prod.collapse [symmetric], of sample_handler sample_transport sample_routed sample_gw] f
    by simp
qed

section \<open>The metering event\<close>

text \<open>What the event of a request says.\<close>

definition event_of :: "Handler \<Rightarrow> ctx \<Rightarrow> MeteringEvent \<Rightarrow> bool" where
  "event_of h c ev \<longleftrightarrow>
     me_RequestID ev = h_str h (RequestID c) \<and> me_UserID ev = h_str h (UserID c) \<and> me_HoldMicro ev = HoldMicro c \<and>
     me_IdempotencyKey ev = IdempotencyKey c \<and> (\<exists>rm. Route c = Some rm \<and> me_Provider ev = rm_Provider rm)"

definition meter_log :: "redis \<Rightarrow> string gomap list" where
  "meter_log s = map snd (st_entries (stream_of MeterStreamKey s))"

definition stream_entry :: "MeteringEvent \<Rightarrow> string gomap" where
  "stream_entry ev = map (\<lambda>(k, v). (k, the (xadd_arg v))) (event_fields ev)"

lemma xadd_event: "xadd_fields (event_fields ev) = Some (stream_entry ev)"
  by (simp add: xadd_fields_def stream_entry_def event_fields_def)

lemma emit_log:
  assumes "rd_fates (gw_rd st) = []"
  shows "meter_log (gw_rd (gateway_EmitMeterEvent ev st)) = meter_log (gw_rd st) @ [stream_entry ev]"
  using assms by (simp add: gateway_EmitMeterEvent_def EmitMeterEvent_def rd_call_def xadd_def xadd_event Let_def meter_log_def)

text \<open>A handler's result has exactly one event more if it was served, and none otherwise.\<close>

definition one_event :: "Handler \<Rightarrow> ctx \<Rightarrow> redis \<Rightarrow> outcome \<times> gw \<Rightarrow> bool" where
  "one_event h c s res \<longleftrightarrow>
     (if fst res = Served then \<exists>ev. event_of h c ev \<and> meter_log (gw_rd (snd res)) = meter_log s @ [stream_entry ev]
      else meter_log (gw_rd (snd res)) = meter_log s)"

lemma rd_time: "time_Now st = (t, st') \<Longrightarrow> gw_rd st' = gw_rd st"
  by (auto simp: time_Now_def split: list.splits)

lemma one_event_emit:
  assumes "h_redis h" "rd_fates (gw_rd st) = []"
  shows "one_event h (rq_ctx r) (gw_rd st) (emitMeter h tr r start status p raw st)"
proof (cases "Route (rq_ctx r)")
  case None
  with assms(1) show ?thesis by (simp add: one_event_def emitMeter_def)
next
  case (Some rm)
  obtain since st1 now st2 where t: "time_Now st = (since, st1)" "time_Now st1 = (now, st2)" by (metis surj_pair)
  let ?ev = "meter_event h tr (rq_ctx r) rm start since now status p raw"
  have rd: "gw_rd st2 = gw_rd st" using rd_time [OF t(1)] rd_time [OF t(2)] by simp
  have "event_of h (rq_ctx r) ?ev" using Some by (simp add: event_of_def meter_event_def)
  moreover have "emitMeter h tr r start status p raw st = (Served, gateway_EmitMeterEvent ?ev st2)"
    using assms(1) Some t by (simp add: emitMeter_def)
  ultimately show ?thesis using emit_log [of st2 ?ev] assms(2) rd by (auto simp: one_event_def)
qed

lemma one_event_rd: "one_event h c s (x, st) \<Longrightarrow> gw_rd st' = gw_rd st \<Longrightarrow> one_event h c s (x, st')"
  by (auto simp: one_event_def split: if_splits)

lemma one_event_fail:
  assumes "h_redis h" "rd_fates (gw_rd st) = []"
  shows "one_event h (rq_ctx r) (gw_rd st) (proxy_fail h tr r start st)"
proof -
  obtain x st1 where e: "emitMeter h tr r start ''failed'' False None st = (x, st1)" by (metis surj_pair)
  with one_event_emit [OF assms] have "one_event h (rq_ctx r) (gw_rd st) (x, st1)" by metis
  then show ?thesis unfolding proxy_fail_def e by (cases x) (auto intro: one_event_rd)
qed

lemma rd_stream: "stream_answer h tr r resp st = Some (a, b, c, e, st') \<Longrightarrow> gw_rd st' = gw_rd st"
  by (auto simp: stream_answer_def Let_def rd_time split: prod.splits option.splits if_splits)

lemma rd_plain: "plain_answer resp st = Some (a, b, c, e, st') \<Longrightarrow> gw_rd st' = gw_rd st"
  by (auto simp: plain_answer_def split: option.splits sum.splits)

lemma one_event_forward:
  assumes "h_redis h" "rd_fates (gw_rd st) = []"
  shows "one_event h (rq_ctx r) (gw_rd st) (forward_answer h tr r start ds resp st)"
proof (cases "valid_code (rs_StatusCode resp)")
  case False
  then show ?thesis by (simp add: forward_answer_def Let_def one_event_def)
next
  case True
  define st2 where "st2 = on_w (rw_WriteHeader (rs_StatusCode resp)) (on_w (answer_headers resp) st)"
  define ans where "ans = (if dr_Streaming ds \<and> 200 \<le> rs_StatusCode resp \<and> rs_StatusCode resp < 300
      then stream_answer h tr r resp st2 else plain_answer resp st2)"
  show ?thesis
  proof (cases ans)
    case None
    with True show ?thesis
      by (simp add: forward_answer_def Let_def ans_def [symmetric] st2_def [symmetric]) (simp add: one_event_def st2_def)
  next
    case (Some a)
    obtain status p u body st3 where a: "a = (status, p, u, body, st3)" by (cases a)
    from Some a have "gw_rd st3 = gw_rd st" by (auto simp: ans_def st2_def dest: rd_stream rd_plain split: if_splits)
    with one_event_emit [OF assms(1), of st3] assms(2) True Some a show ?thesis
      by (simp add: forward_answer_def Let_def ans_def [symmetric] st2_def [symmetric])
  qed
qed

lemma rd_breaker [simp]: "gw_rd (record_breaker b st) = gw_rd st"
  by (simp add: record_breaker_def)

lemma one_event_call:
  assumes "h_redis h" "rd_fates (gw_rd st) = []"
  shows "one_event h (rq_ctx r) (gw_rd st) (call_provider h tr r start ds st)"
  using assms one_event_fail [of h st] one_event_fail [of h "record_breaker False st"]
    one_event_forward [of h "record_breaker b st" for b]
  by (auto simp: call_provider_def Let_def split: option.split sum.split)

lemma rd_ask: "ask_breaker p st = (b, st') \<Longrightarrow> gw_rd st' = gw_rd st"
  by (auto simp: ask_breaker_def Let_def dest!: rd_time split: prod.splits option.splits)

lemma one_event_bulkhead:
  assumes "h_redis h" "rd_fates (gw_rd st) = []"
  shows "one_event h (rq_ctx r) (gw_rd st) (serve_bulkhead h tr r start ds st)"
proof -
  have refuse: "one_event h (rq_ctx r) (gw_rd st) (refuse h tr r start wait msg st')" if "gw_rd st' = gw_rd st" for st' wait msg
    using one_event_emit [OF assms(1), of "on_w (\<lambda>w. writeErr 503 msg (rw_Set ''Retry-After'' wait w)) st'"] that assms(2)
    by (simp add: refuse_def)
  have breaker: "one_event h (rq_ctx r) (gw_rd st) (serve_breaker h tr r start ds st')" if s: "gw_rd st' = gw_rd st" for st'
  proof -
    obtain b st1 where a: "ask_breaker (dr_Provider ds) st' = (b, st1)" by (metis surj_pair)
    with rd_ask [OF a] refuse one_event_call [OF assms(1), of st1] s assms(2) show ?thesis
      by (cases b) (simp_all add: serve_breaker_def)
  qed
  have "one_event h (rq_ctx r) (gw_rd st) (deferred (release_slot p) res)" if "one_event h (rq_ctx r) (gw_rd st) res" for res p
    using that by (cases res; cases "fst res") (auto simp: deferred_def release_slot_def intro: one_event_rd)
  with refuse breaker show ?thesis
    by (simp add: serve_bulkhead_def split: prod.split bool.split)
qed

text \<open>What the worker reads out of a message with the event.\<close>

definition worker_reads :: "(float64 \<Rightarrow> int) \<Rightarrow> MeteringEvent \<Rightarrow> gmap \<Rightarrow> bool" where
  "worker_reads oob ev flds \<longleftrightarrow>
     str_or_empty (mget flds ''request_id'') = me_RequestID ev \<and> str_or_empty (mget flds ''user_id'') = me_UserID ev \<and>
     str_or_empty (mget flds ''provider'') = me_Provider ev \<and> toInt64 oob (mget flds ''hold_micro'') = me_HoldMicro ev \<and>
     str_or_empty (mget flds ''idempotency_key'') = me_IdempotencyKey ev"

lemma event_read:
  assumes "in_i64 (me_HoldMicro ev)"
  shows "worker_reads oob ev (xm_Values (message_of (i, stream_entry ev)))"
  using assms by (simp add: worker_reads_def message_of_def stream_entry_def event_fields_def str_or_empty_def)

text \<open>The flag for a partial answer is written as a digit, which the worker does not read as true.\<close>

lemma partial_flag_lost: "\<not> event_partial (xm_Values (message_of (i, stream_entry ev)))"
  by (simp add: event_partial_def message_of_def stream_entry_def event_fields_def)



end
