(* ===== verification/Boot.thy ===== *)
theory Boot
  imports Proxy Worker Admin
begin

text \<open>
  The processes around the components: how \<open>cmd/gateway/main.go\<close> and \<open>cmd/ledger-worker/main.go\<close> come up
  from a configuration, the worker's loop and the gateway's shutdown.  Listening, signals and the tickers
  of the background loops are outside: a served request is \<open>gateway_serve\<close>, one round of the worker's loop
  \<open>processBatch\<close>, one tick \<open>sweep\<close> or \<open>reconcile\<close>.
\<close>

section \<open>Connections\<close>

text \<open>
  What a process meets when it starts: the host, the cryptography, and the errors of the libraries that
  parse the addresses of the servers (\<open>pgxpool.New\<close>, \<open>goredis.ParseURL\<close>), if any.
\<close>

record boot =
  bo_host :: host
  bo_str :: "uuid \<Rightarrow> string"
  bo_parse :: "string \<Rightarrow> uuid option"
  bo_oob :: "float64 \<Rightarrow> int"
  bo_crypto :: crypto
  bo_new_gcm :: "string \<Rightarrow> AEAD result"
  bo_pool_err :: "string \<Rightarrow> goerr option"
  bo_url_err :: "string \<Rightarrow> goerr option"
  bo_script :: "string \<Rightarrow> tables \<Rightarrow> tables result"

definition db_Connect :: "boot \<Rightarrow> string \<Rightarrow> unit stmt" where
  "db_Connect bo url d =
     (case bo_pool_err bo url of
        Some e \<Rightarrow> (Inl (ErrWrap ''db connect'' e), d)
      | None \<Rightarrow> wrap_err ''db ping'' (pg_call (stmt_return ())) d)"

definition redis_Connect :: "boot \<Rightarrow> string \<Rightarrow> unit rcmd" where
  "redis_Connect bo url s =
     (case bo_url_err bo url of Some e \<Rightarrow> (Inl e, s) | None \<Rightarrow> rd_call (\<lambda>s. (Inr (), s)) s)"

text \<open>A start is a function on the two servers that ends with an error (\<open>os.Exit(1)\<close>) or a value.\<close>

type_synonym 'a start = "servers \<Rightarrow> 'a result \<times> servers"

definition start_pg :: "'a stmt \<Rightarrow> ('a \<Rightarrow> 'b start) \<Rightarrow> 'b start" where
  "start_pg q f s = (case q (fst s) of (Inl e, d) \<Rightarrow> (Inl e, (d, snd s)) | (Inr x, d) \<Rightarrow> f x (d, snd s))"

definition start_rd :: "'a rcmd \<Rightarrow> ('a \<Rightarrow> 'b start) \<Rightarrow> 'b start" where
  "start_rd q f s = (case q (snd s) of (Inl e, k) \<Rightarrow> (Inl e, (fst s, k)) | (Inr x, k) \<Rightarrow> f x (fst s, k))"

definition start_val :: "'a result \<Rightarrow> ('a \<Rightarrow> 'b start) \<Rightarrow> 'b start" where
  "start_val r f s = (case r of Inl e \<Rightarrow> (Inl e, s) | Inr x \<Rightarrow> f x s)"

section \<open>The gateway\<close>

definition NewHandler :: "boot \<Rightarrow> int \<Rightarrow> int \<Rightarrow> Registry \<Rightarrow> Handler" where
  "NewHandler bo idleSec maxStreamSec reg =
     \<lparr>h_redis = True, h_reg = Some reg, h_host = bo_host bo, h_str = bo_str bo, h_idleSec = idleSec,
      h_maxStreamSec = maxStreamSec\<rparr>"

record gateway_process =
  gp_env :: genv
  gp_handler :: Handler
  gp_breaker :: "CircuitBreaker option"
  gp_bulkhead :: "Bulkhead option"

definition gateway_build :: "boot \<Rightarrow> Config \<Rightarrow> Vault \<Rightarrow> Registry \<Rightarrow> gateway_process" where
  "gateway_build bo cfg v reg =
     \<lparr>gp_env = \<lparr>ge_host = bo_host bo, ge_reg = reg, ge_str = bo_str bo, ge_parse = bo_parse bo, ge_crypto = bo_crypto bo,
        ge_vault = v, ge_pepper = VaultKEK cfg, ge_holdTTL = hold_ttl (HoldTTLMinutes cfg), ge_defaultHold = 10000000\<rparr>,
      gp_handler = NewHandler bo (StreamIdleSec cfg) (StreamMaxSec cfg) reg,
      gp_breaker = Some (NewCircuitBreaker (rnd (1 / 2)) (30 * 1000000000)),
      gp_bulkhead = (if BulkheadPerProvider cfg > 0 then NewBulkhead (BulkheadPerProvider cfg) else None)\<rparr>"

definition gateway_start :: "boot \<Rightarrow> Config \<Rightarrow> gateway_process start" where
  "gateway_start bo cfg =
     start_pg (db_Connect bo (DatabaseURL cfg)) (\<lambda>_.
       start_pg (Migrate (h_ReadFile (bo_host bo)) (bo_script bo) migration_files) (\<lambda>_.
         start_rd (redis_Connect bo (RedisURL cfg)) (\<lambda>_.
           start_val (vault_New (bo_new_gcm bo) (VaultKEK cfg)) (\<lambda>v.
             start_val (Load (bo_host bo) (DriversPath cfg) (NodePath cfg)) (\<lambda>reg s.
               (Inr (gateway_build bo cfg v reg), s))))))"

definition gateway_serve :: "gateway_process \<Rightarrow> transport \<Rightarrow> handler" where
  "gateway_serve gp tr = gateway_mux (gp_env gp) (ServeHTTP (gp_handler gp) tr)"

text \<open>
  The shutdown waits for the running requests.  \<open>seen i\<close> is what the \<open>i\<close>-th test of the loop sees: the
  count of running requests and the clock in nanoseconds.  The result is the number of sleeps.
\<close>

partial_function (option) drain :: "(nat \<Rightarrow> int \<times> instant) \<Rightarrow> instant \<Rightarrow> nat \<Rightarrow> nat option" where
  "drain seen deadline i =
     (if ActiveCount (fst (seen i)) > 0 \<and> snd (seen i) < deadline then drain seen deadline (Suc i) else Some i)"

declare drain.simps [code]

definition gateway_shutdown :: "(nat \<Rightarrow> int \<times> instant) \<Rightarrow> instant \<Rightarrow> nat option" where
  "gateway_shutdown seen now = drain seen (now + 30 * 1000000000) 0"

section \<open>The ledger worker\<close>

definition worker_build :: "boot \<Rightarrow> Config \<Rightarrow> Registry \<Rightarrow> Worker" where
  "worker_build bo cfg reg =
     \<lparr>w_parse = bo_parse bo, w_str = bo_str bo, w_oob = bo_oob bo, w_host = bo_host bo, w_Registry = Some reg,
      w_Config = cfg\<rparr>"

definition worker_start :: "boot \<Rightarrow> Config \<Rightarrow> Worker start" where
  "worker_start bo cfg =
     start_pg (db_Connect bo (DatabaseURL cfg)) (\<lambda>_.
       start_pg (Migrate (h_ReadFile (bo_host bo)) (bo_script bo) migration_files) (\<lambda>_.
         start_rd (redis_Connect bo (RedisURL cfg)) (\<lambda>_.
           start_rd (CreateConsumerGroup consumerGroup) (\<lambda>_.
             start_val (Load (bo_host bo) (DriversPath cfg) (NodePath cfg)) (\<lambda>reg s.
               (Inr (worker_build bo cfg reg), s))))))"

text \<open>The loop: one batch after the other until the signal; a panic ends the process before.\<close>

fun worker_loop :: "Worker \<Rightarrow> nat \<Rightarrow> world \<Rightarrow> unit go \<times> world" where
  "worker_loop w 0 wo = (Returns (), wo)"
| "worker_loop w (Suc n) wo =
     (case processBatch w wo of
        (Panics s, wo1) \<Rightarrow> (Panics s, wo1)
      | (Returns _, wo1) \<Rightarrow> worker_loop w n wo1)"

definition worker_replay :: "boot \<Rightarrow> Config \<Rightarrow> unit start" where
  "worker_replay bo cfg =
     start_rd (redis_Connect bo (RedisURL cfg)) (\<lambda>_. start_rd replayDLQ (\<lambda>_ s. (Inr (), s)))"

section \<open>Shutting down\<close>

definition waits :: "(nat \<Rightarrow> int \<times> instant) \<Rightarrow> instant \<Rightarrow> nat \<Rightarrow> bool" where
  "waits seen deadline i \<longleftrightarrow> ActiveCount (fst (seen i)) > 0 \<and> snd (seen i) < deadline"

lemma drain_step: "drain seen deadline i = (if waits seen deadline i then drain seen deadline (Suc i) else Some i)"
  unfolding waits_def by (rule drain.simps)

lemma drain_least:
  assumes "\<not> waits seen deadline n" "i \<le> n"
  shows "\<exists>k. i \<le> k \<and> k \<le> n \<and> drain seen deadline i = Some k \<and> \<not> waits seen deadline k \<and>
    (\<forall>j. i \<le> j \<longrightarrow> j < k \<longrightarrow> waits seen deadline j)"
  using assms(2)
proof (induction rule: inc_induct)
  case base
  then show ?case using drain_step [of seen deadline n] assms(1) by (intro exI [of _ n]) auto
next
  case (step i)
  show ?case
  proof (cases "waits seen deadline i")
    case True
    from step.IH obtain k where k: "Suc i \<le> k" "k \<le> n" "drain seen deadline (Suc i) = Some k" "\<not> waits seen deadline k"
        "\<forall>j. Suc i \<le> j \<longrightarrow> j < k \<longrightarrow> waits seen deadline j" by blast
    have "\<forall>j. i \<le> j \<longrightarrow> j < k \<longrightarrow> waits seen deadline j" using k(5) True by (metis Suc_leI order_le_less)
    with k True drain_step [of seen deadline i] show ?thesis by (intro exI [of _ k]) auto
  next
    case False
    with drain_step [of seen deadline i] step.hyps show ?thesis by (intro exI [of _ i]) auto
  qed
qed

text \<open>
  C38. The shutdown ends.  If the clock moves on by the hundred milliseconds of a sleep, the loop that waits
  for the running requests returns after at most 300 sleeps, and it returns at the first moment at which
  no request runs or the thirty seconds are over, not before.
\<close>

theorem shutdown_ends:
  assumes "now \<le> snd (seen 0)" "\<forall>i. snd (seen i) + 100000000 \<le> snd (seen (Suc i))"
  shows "\<exists>k \<le> 300. gateway_shutdown seen now = Some k \<and>
    (ActiveCount (fst (seen k)) \<le> 0 \<or> now + 30000000000 \<le> snd (seen k)) \<and>
    (\<forall>j < k. ActiveCount (fst (seen j)) > 0)"
proof -
  have "now + int i * 100000000 \<le> snd (seen i)" for i
  proof (induction i)
    case (Suc i)
    then show ?case using assms(2) [rule_format, of i] by (simp add: algebra_simps)
  qed (use assms(1) in simp)
  from this [of 300] have "\<not> waits seen (now + 30000000000) 300" by (simp add: waits_def)
  from drain_least [OF this, of 0] obtain k where k: "k \<le> 300" "drain seen (now + 30000000000) 0 = Some k"
      "\<not> waits seen (now + 30000000000) k" "\<forall>j < k. waits seen (now + 30000000000) j" by auto
  then show ?thesis by (intro exI [of _ k]) (auto simp: gateway_shutdown_def waits_def)
qed

theorem shutdown_ends_witness:
  "\<exists>k \<le> 300. gateway_shutdown (\<lambda>i. (if i < 2 then 1 else 0, int i * 100000000)) 0 = Some k \<and> k = 2"
proof -
  let ?seen = "\<lambda>i. (if i < 2 then 1 else 0, int i * 100000000)"
  from shutdown_ends [of 0 ?seen] obtain k where k: "k \<le> 300" "gateway_shutdown ?seen 0 = Some k"
      "ActiveCount (fst (?seen k)) \<le> 0 \<or> 30000000000 \<le> snd (?seen k)" "\<forall>j < k. ActiveCount (fst (?seen j)) > 0"
    by auto
  have "k = 2"
  proof (rule ccontr)
    assume "k \<noteq> 2"
    then consider "k < 2" | "2 < k" by linarith
    then show False
    proof cases
      case 1
      with k(3) show False by (simp add: ActiveCount_def)
    next
      case 2
      with k(4) have "ActiveCount (fst (?seen 2)) > 0" by blast
      then show False by (simp add: ActiveCount_def)
    qed
  qed
  with k(1,2) show ?thesis by blast
qed

end
