(* ===== verification/System.thy ===== *)
theory System
  imports Lifecycle Serving Boot
begin

text \<open>
  The whole system over one database.  Whatever a request to the gateway, a batch of the ledger worker, a
  tick of its sweeper or of its reconciliation, or a command of the administration tool does, is on the
  database a sequence of the steps of \<open>Reachable\<close>, whose interleavings are all covered there; so the
  facts about reachable databases hold of every run of the system.
\<close>

section \<open>Statements\<close>

abbreviation store_steps :: "pg \<Rightarrow> pg \<Rightarrow> bool" where
  "store_steps \<equiv> store_step\<^sup>*\<^sup>*"

definition moves :: "'a stmt \<Rightarrow> bool" where
  "moves q \<longleftrightarrow> (\<forall>d. store_steps d (snd (q d)))"

named_theorems moves_rules

lemma movesD: "moves q \<Longrightarrow> q d = (x, d') \<Longrightarrow> store_steps d d'"
  by (auto simp: moves_def dest: spec [of _ d])

lemma moves_same:
  assumes "\<And>d. same_store (pg_tabs d) (pg_tabs (snd (q d)))"
  shows "moves q"
  unfolding moves_def using assms by (auto intro: r_into_rtranclp store_step.environment)

lemma moves_query: "(\<And>T. keeps (\<lambda>T'. T' = T) q) \<Longrightarrow> moves q"
  by (rule moves_same) (simp add: keeps_def)

lemma moves_call:
  assumes "\<And>d. same_store (pg_tabs d) (pg_tabs (snd (q d)))"
  shows "moves (pg_call q)"
proof (rule moves_same)
  fix d
  have "same_store (pg_tabs d) (pg_tabs (snd (q (d\<lparr>pg_fates := tl (pg_fates d)\<rparr>))))"
    using assms [of "d\<lparr>pg_fates := tl (pg_fates d)\<rparr>"] by simp
  then show "same_store (pg_tabs d) (pg_tabs (snd (pg_call q d)))"
    by (cases rule: pg_call_cases [of d q]) simp_all
qed

lemma moves_store [moves_rules]:
  "moves (CreateUser email)" "moves (DepositCredits i a idem)" "moves (CreateKey i name pre hash scopes rpm)"
  "moves (RevokeKey k)" "moves (CreateUsageLog l)" "in_i64 h \<Longrightarrow> moves (CreateMeteringSession rid i h e)"
  "moves (DeleteMeteringSession rid)" "in_i64 h \<Longrightarrow> moves (ApplyHold i h rid idem)"
  "in_i64 c \<Longrightarrow> in_i64 r \<Longrightarrow> moves (CaptureAndRelease ustr i rid c r usage idem)"
  by (auto simp: moves_def intro: r_into_rtranclp store_step.intros)

lemma moves_queries [moves_rules]:
  "moves (GetUser i)" "moves (GetProviderBySlug s)" "moves (GetExpiredSessions n)" "moves (LedgerBalance i)"
  "moves (GetUsageLogByRequestID rid)" "moves (GetMeteringSession rid)" "moves (UsageSummary24h i)"
  "moves (BurnRate24h i)" "moves (ListLedgerByReference rid)" "moves (ReconcileUserBalance i)"
  by (intro moves_query inv_rules)+

lemma moves_lookups [moves_rules]:
  "moves (findKeyByTokenPG cr token)" "moves list_balances" "moves (pg_call (stmt_return x))"
  "moves (migration_applied path)" "moves (record_migration path)"
  unfolding findKeyByTokenPG_def list_balances_def migration_applied_def record_migration_def
  by (rule moves_call, simp add: Let_def stmt_return_def same_store_def split: option.split)+

lemma vault_upsert_same: "same_store (pg_tabs d) (pg_tabs (snd (vault_upsert i label blob d)))"
  by (simp add: vault_upsert_def Let_def same_store_def split: prod.split)

lemma moves_vault [moves_rules]: "moves (vault_Get v slug label)" "moves (vault_Put uparse v rand i label text1)"
proof -
  have "moves (pg_call (select_row (vault_lookup slug label)))"
    by (rule moves_call) (simp add: select_row_def split: option.split)
  then show "moves (vault_Get v slug label)"
    by (auto simp: moves_def vault_Get_def split: prod.split sum.split) (metis snd_conv)+
  have "moves (pg_call (\<lambda>d. case uparse i of
      None \<Rightarrow> (Inl (ErrInvalidText ''uuid''), d) | Some j \<Rightarrow> vault_upsert j label blob d))" for blob
    by (rule moves_call) (simp add: vault_upsert_same split: option.split)
  then show "moves (vault_Put uparse v rand i label text1)"
    by (simp add: moves_def vault_Put_def split: sum.split)
qed

text \<open>The sum that was read is the sum the repair writes.\<close>

lemma LedgerBalance_Inr:
  assumes "LedgerBalance i d = (Inr s, d')"
  shows "ledger_sum i (pg_tabs d') = s" "in_i64 s"
proof -
  have "pg_tabs d' = pg_tabs d"
    using keeps_pairD [OF keeps_queries(6) [of "\<lambda>T. T = pg_tabs d"] _ assms] by simp
  with assms show "ledger_sum i (pg_tabs d') = s" "in_i64 s"
    by (auto simp: LedgerBalance_def scan_int8_def dest!: pg_call_InrD split: if_splits)
qed

lemma repair_steps:
  "ledger_sum i (pg_tabs d) = s \<Longrightarrow> in_i64 s \<Longrightarrow> SetUserBalanceFromLedger i s d = (x, d') \<Longrightarrow> store_steps d d'"
  using store_step.repair [of i d s] by (simp add: r_into_rtranclp)

lemma ReconcileUserBalance_Inr:
  assumes "ReconcileUserBalance i d = (Inr (cached, s), d')"
  shows "ledger_sum i (pg_tabs d') = s" "in_i64 s"
  using assms by (auto simp: ReconcileUserBalance_def stmt_return_def elim!: and_then_Inr dest: LedgerBalance_Inr)

section \<open>Requests\<close>

definition goes :: "gw \<Rightarrow> gw \<Rightarrow> bool" where
  "goes st st' \<longleftrightarrow> store_steps (gw_pg st) (gw_pg st')"

definition moving :: "(Request \<Rightarrow> bool) \<Rightarrow> handler \<Rightarrow> bool" where
  "moving P n \<longleftrightarrow> (\<forall>r st. P r \<longrightarrow> goes st (snd (n r st)))"

lemma goes_refl [simp]: "goes st st"
  by (simp add: goes_def)

lemma goes_trans: "goes a b \<Longrightarrow> goes b c \<Longrightarrow> goes a c"
  by (simp add: goes_def)

lemma goes_same: "gw_pg st' = gw_pg st \<Longrightarrow> goes st st'"
  by (simp add: goes_def)

lemma goes_pg: "on_pg q st = (x, st') \<Longrightarrow> moves q \<Longrightarrow> goes st st'"
  by (auto simp: on_pg_def goes_def dest: movesD split: prod.splits)

lemma goes_rd: "on_rd q st = (x, st') \<Longrightarrow> gw_pg st' = gw_pg st"
  by (auto simp: on_rd_def split: prod.splits)

lemma goes_steps [simp]:
  "goes st (on_w f st') = goes st st'" "goes st (snd (on_rd q st')) = goes st st'"
  "goes st (snd (reply_json code v st')) = goes st st'" "goes st (st'\<lparr>gw_metrics := m\<rparr>) = goes st st'"
  by (simp_all add: goes_def reply_json_def)

lemma movingD: "moving P n \<Longrightarrow> P r \<Longrightarrow> goes st st' \<Longrightarrow> goes st (snd (n r st'))"
  by (auto simp: moving_def intro: goes_trans)

text \<open>The hold in the context is a 64-bit integer.\<close>

definition hold_ok :: "Request \<Rightarrow> bool" where
  "hold_ok r \<longleftrightarrow> in_i64 (HoldMicro (rq_ctx r))"

lemma goes_check_balance: "check_balance g u st = (b, st') \<Longrightarrow> goes st st'"
  by (auto simp: check_balance_def Let_def goes_def dest!: goes_rd goes_pg [OF _ moves_queries(1)]
      split: prod.splits sum.splits option.splits)

lemma hold_ok_simps [simp]:
  "hold_ok (WithContext r (WithRequestID i c)) = in_i64 (HoldMicro c)"
  "hold_ok (WithContext r (WithTraceID t c)) = in_i64 (HoldMicro c)"
  "hold_ok (WithContext r (WithKey k c)) = in_i64 (HoldMicro c)"
  "hold_ok (WithContext r (WithIdempotencyKey s c)) = in_i64 (HoldMicro c)"
  "hold_ok (WithContext r (WithHoldMicro h c)) = in_i64 h"
  "HoldMicro (WithRequestID i c) = HoldMicro c" "HoldMicro (WithKeyID i c) = HoldMicro c"
  "HoldMicro (WithUserID i c) = HoldMicro c"
  by (simp_all add: hold_ok_def WithContext_def context_defs)

lemma goes_time: "time_Now st = (t, st') \<Longrightarrow> goes s st' = goes s st"
  by (simp add: goes_def time_pg)

lemma goes_uuid: "uuid_New st = (i, st') \<Longrightarrow> goes s st' = goes s st"
  by (simp add: goes_def uuid_pg)

lemma goes_open_session:
  assumes "moving hold_ok n" "hold_ok r" "in_i64 h"
  shows "goes st (snd (open_session g n h rm r st))"
proof -
  let ?c = "rq_ctx r"
  obtain i st1 where 1: "uuid_New st = (i, st1)" by (metis surj_pair)
  obtain now st2 where 2: "time_Now st1 = (now, st2)" by (metis surj_pair)
  obtain res st3 where 3: "on_pg (CreateUsageLog (pending_usage i ?c rm h now)) st2 = (res, st3)" by (metis surj_pair)
  obtain now2 st4 where 4: "time_Now st3 = (now2, st4)" by (metis surj_pair)
  obtain res2 st5 where 5: "on_pg (CreateMeteringSession (RequestID ?c) (UserID ?c) h (pg_time (now2 + ge_holdTTL g))) st4 = (res2, st5)"
    by (metis surj_pair)
  have "goes st st2" using goes_time [OF 2] goes_uuid [OF 1] by simp
  note go3 = goes_trans [OF this goes_pg [OF 3 moves_store(5)]]
  then have go4: "goes st st4" using goes_time [OF 4] by simp
  note go5 = goes_trans [OF go4 goes_pg [OF 5 moves_store(6) [OF assms(3)]]]
  have "goes st (snd (n (WithContext r (WithHoldMicro h ?c)) st5))"
    by (rule movingD [OF assms(1) _ go5]) (simp add: assms(3))
  with go3 go5 1 2 3 4 5 show ?thesis by (cases res; cases res2) (simp_all add: open_session_def Let_def)
qed

lemma moving_Solvency:
  assumes "moving hold_ok n" "in_i64 (ge_defaultHold g)"
  shows "moving hold_ok (Solvency_Wrap g n)"
  unfolding moving_def
proof (intro allI impI)
  fix r st
  assume r: "hold_ok r"
  let ?c = "rq_ctx r" and ?h = "solvency_hold g (rq_ctx r)"
  have h: "in_i64 ?h" using r assms(2) by (simp add: solvency_hold_def hold_ok_def)
  obtain b st1 where b: "check_balance g (UserID ?c) st = (b, st1)" by (metis surj_pair)
  obtain res st2 where a: "on_pg (ApplyHold (UserID ?c) ?h (RequestID ?c) (hold_idem g ?c)) st1 = (res, st2)"
    by (metis surj_pair)
  note go2 = goes_trans [OF goes_check_balance [OF b] goes_pg [OF a moves_store(8) [OF h]]]
  have "goes st (snd (open_session g n ?h rm r st3))" if "goes st st3" for rm st3
    using goes_trans [OF that goes_open_session [OF assms(1) r h]] .
  with go2 goes_check_balance [OF b] b a show "goes st (snd (Solvency_Wrap g n r st))"
    by (cases b; cases res) (simp_all add: Solvency_Wrap_def Let_def split: option.split)
qed

lemma moving_Scope: "moving hold_ok n \<Longrightarrow> moving hold_ok (Scope_Wrap n)"
  by (auto simp: moving_def Scope_Wrap_def split: option.split)

text \<open>Storing a response, and answering from the cache, are no calls to the database.\<close>

lemma goes_recorder [simp]:
  "goes st (start_recorder st') = goes st st'" "goes st (stop_recorder st') = goes st st'"
  "goes st (store_response k st') = goes st st'"
  by (simp_all add: goes_def start_recorder_def stop_recorder_def store_response_def split: option.split)

lemma goes_replay: "goes st (snd (replayCached c st))"
  by (simp add: replayCached_def Let_def)

lemma goes_getCached: "getCached k st = (x, st') \<Longrightarrow> goes st st'"
  by (auto simp: getCached_def intro!: goes_same dest: goes_rd split: prod.splits sum.splits option.splits)

lemma moving_record: "moving hold_ok n \<Longrightarrow> moving hold_ok (record_response n k)"
  unfolding moving_def
proof (intro allI impI)
  fix r st
  assume n: "\<forall>r st. hold_ok r \<longrightarrow> goes st (snd (n r st))" and r: "hold_ok r"
  obtain x st1 where e: "n r (start_recorder st) = (x, st1)" by (metis surj_pair)
  have "goes (start_recorder st) st1" using n r e by (metis snd_conv)
  then have "goes st st1" by (simp add: goes_def start_recorder_def)
  then show "goes st (snd (record_response n k r st))"
    by (cases x) (simp_all add: record_response_def e split: option.split)
qed

lemma moving_Idempotency:
  assumes "moving hold_ok n"
  shows "moving hold_ok (Idempotency_Wrap g n)"
  unfolding moving_def
proof (intro allI impI)
  fix r st
  assume r: "hold_ok r"
  let ?r = "WithContext r (WithIdempotencyKey k (rq_ctx r))"
  have ok: "hold_ok (WithContext r (WithIdempotencyKey k (rq_ctx r)))" for k using r by (simp add: hold_ok_def [of r])
  have rec: "goes st (snd (record_response n c (WithContext r (WithIdempotencyKey k (rq_ctx r))) st'))" if "goes st st'" for c k st'
    by (rule movingD [OF moving_record [OF assms] ok that])
  have plain: "goes st (snd (n (WithContext r (WithIdempotencyKey k (rq_ctx r))) st))" for k
    by (rule movingD [OF assms ok goes_refl])
  show "goes st (snd (Idempotency_Wrap g n r st))"
    using rec plain goes_trans [OF goes_getCached goes_replay] goes_getCached
    by (simp add: Idempotency_Wrap_def Let_def split: prod.split sum.split option.split)
qed

lemma dr_estimate_range:
  assumes "InvokePrepare h reg p e c b = Inr ds"
  shows "in_i64 (dr_EstimateMicro ds)"
proof -
  from assms obtain t where t: "unmarshal_struct downstream_fields zero_downstream t = Some ds"
    by (auto simp: InvokePrepare_def invoke_struct_def split: sum.splits option.splits)
  show ?thesis
  proof (rule unmarshal_struct_keeps [where P = "\<lambda>ds. in_i64 (dr_EstimateMicro ds)", OF _ _ t])
    show "in_i64 (dr_EstimateMicro zero_downstream)" by (simp add: zero_downstream_def in_i64_iff)
    fix n f r j r'
    assume "(n, f) \<in> set downstream_fields" "in_i64 (dr_EstimateMicro r)" "f r j = Some r'"
    then show "in_i64 (dr_EstimateMicro r')" by (auto simp: downstream_fields_def dest: dec_int64_range)
  qed
qed

lemma route_hold_range: "in_i64 (dr_EstimateMicro ds) \<Longrightarrow> in_i64 (route_hold p e ds)"
  by (auto simp: route_hold_def Let_def EstimateMax_def in_i64_iff [of 10000000] split: option.split)

lemma hold_ok_route [simp]: "hold_ok (WithContext r (route_context rm e ds h cr b c)) = in_i64 h"
  by (simp add: hold_ok_def WithContext_def route_context_def context_defs)

lemma moving_Route:
  assumes "moving hold_ok n"
  shows "moving (\<lambda>r. True) (Route_Wrap g n)"
  unfolding moving_def
proof (intro allI impI)
  fix r st
  have cont: "goes st (snd (n (WithContext r (route_context rm e ds (route_hold p e ds) cr b (rq_ctx r))) st'))"
    if "InvokePrepare h reg pr eb c bu = Inr ds" "goes st st'" for rm e ds p cr b st' h reg pr eb c bu
    by (rule movingD [OF assms _ that(2)]) (simp add: route_hold_range dr_estimate_range [OF that(1)])
  have two: "goes st st2" if "on_pg (GetProviderBySlug s) st = (x, st1)" "on_pg (vault_Get v s l) st1 = (y, st2)" for s x st1 v l y st2
    using goes_trans [OF goes_pg [OF that(1) moves_queries(2)] goes_pg [OF that(2) moves_vault(1)]] .
  show "goes st (snd (Route_Wrap g n r st))"
    using cont two goes_pg [OF _ moves_queries(2)]
    by (auto simp: Route_Wrap_def Let_def split: sum.split prod.split)
qed

lemma moving_RateLimit:
  assumes "moving (\<lambda>r. True) n"
  shows "moving (\<lambda>r. True) (RateLimit_Wrap g n)"
  unfolding moving_def
proof (intro allI impI)
  fix r st
  have pass: "goes st (snd (n r st'))" if "gw_pg st' = gw_pg st" for st'
    using movingD [OF assms TrueI goes_same [OF that]] .
  show "goes st (snd (RateLimit_Wrap g n r st))"
  proof (cases "Key (rq_ctx r)")
    case None
    then show ?thesis using pass by (simp add: RateLimit_Wrap_def)
  next
    case (Some k)
    obtain now st1 where 1: "time_Now st = (now, st1)" by (metis surj_pair)
    obtain res st2 where 2: "on_rd (AllowRate (ge_str g (k_UserID k)) (k_RateLimitRPM k) (now div 1000000000)) st1 = (res, st2)"
      by (metis surj_pair)
    have "gw_pg st2 = gw_pg st" using time_pg [OF 1] goes_rd [OF 2] by simp
    with pass goes_same Some 1 2 show ?thesis by (simp add: RateLimit_Wrap_def)
  qed
qed

lemma goes_findKey: "findKeyByToken g token st = (x, st') \<Longrightarrow> goes st st'"
proof -
  obtain meta st1 where 1: "on_rd (GetKeyMeta (HMACHash (ge_crypto g) token (ge_pepper g))) st = (meta, st1)" by (metis surj_pair)
  obtain y st2 where 2: "on_pg (findKeyByTokenPG (ge_crypto g) token) st1 = (y, st2)" by (metis surj_pair)
  have "goes st st1" using goes_rd [OF 1] by (rule goes_same)
  moreover have "goes st st2" using goes_trans [OF calculation goes_pg [OF 2 moves_lookups(1)]] .
  moreover assume "findKeyByToken g token st = (x, st')"
  ultimately show ?thesis using 1 2 by (auto simp: findKeyByToken_def Let_def split: option.splits sum.splits)
qed

lemma moving_Auth: "moving (\<lambda>r. True) n \<Longrightarrow> moving (\<lambda>r. True) (Auth_Wrap g n)"
  by (auto simp: moving_def [of _ "Auth_Wrap g n"] Auth_Wrap_def Let_def dest: goes_findKey
      intro: movingD [of "\<lambda>r. True"] split: sum.split prod.split)

lemma moving_RequestID: "moving (\<lambda>r. True) n \<Longrightarrow> moving (\<lambda>r. True) (RequestID_Wrap g n)"
  by (auto simp: moving_def [of _ "RequestID_Wrap g n"] RequestID_Wrap_def Let_def goes_uuid
      intro!: movingD [of "\<lambda>r. True"] split: prod.split)

text \<open>The proxy does not call the database.\<close>

lemma pg_emit: "emitMeter h tr r start status p raw st = (x, st') \<Longrightarrow> gw_pg st' = gw_pg st"
  by (auto simp: emitMeter_def gateway_EmitMeterEvent_def time_pg split: option.splits prod.splits if_splits)

lemma pg_answers:
  "stream_answer h tr r resp st = Some (a, b, c, e, st') \<Longrightarrow> gw_pg st' = gw_pg st"
  "plain_answer resp st = Some (a, b, c, e, st') \<Longrightarrow> gw_pg st' = gw_pg st"
  by (auto simp: stream_answer_def plain_answer_def Let_def time_pg split: prod.splits option.splits if_splits sum.splits)

lemma pg_forward: "forward_answer h tr r start ds resp st = (x, st') \<Longrightarrow> gw_pg st' = gw_pg st"
  by (auto simp: forward_answer_def Let_def dest!: pg_emit pg_answers split: option.splits prod.splits if_splits)

lemma pg_fail: "proxy_fail h tr r start st = (x, st') \<Longrightarrow> gw_pg st' = gw_pg st"
  by (auto simp: proxy_fail_def dest!: pg_emit split: prod.splits outcome.splits)

lemma pg_breaker [simp]: "gw_pg (record_breaker b st) = gw_pg st"
  by (simp add: record_breaker_def)

lemma pg_call_provider: "call_provider h tr r start ds st = (x, st') \<Longrightarrow> gw_pg st' = gw_pg st"
  by (auto simp: call_provider_def Let_def dest!: pg_fail pg_forward split: option.splits sum.splits)

lemma pg_refuse: "refuse h tr r start wait msg st = (x, st') \<Longrightarrow> gw_pg st' = gw_pg st"
  by (auto simp: refuse_def dest!: pg_emit)

lemma pg_ask: "ask_breaker p st = (b, st') \<Longrightarrow> gw_pg st' = gw_pg st"
  by (auto simp: ask_breaker_def Let_def dest!: time_pg split: prod.splits option.splits)

lemma pg_serve_breaker: "serve_breaker h tr r start ds st = (x, st') \<Longrightarrow> gw_pg st' = gw_pg st"
  by (auto simp: serve_breaker_def dest!: pg_ask pg_refuse pg_call_provider split: prod.splits bool.splits)

lemma pg_deferred: "deferred f res = (x, st') \<Longrightarrow> (\<And>st. gw_pg (f st) = gw_pg st) \<Longrightarrow> gw_pg st' = gw_pg (snd res)"
  by (cases res; cases "fst res") (auto simp: deferred_def)

lemma pg_serve_bulkhead: "serve_bulkhead h tr r start ds st = (x, st') \<Longrightarrow> gw_pg st' = gw_pg st"
proof -
  assume s: "serve_bulkhead h tr r start ds st = (x, st')"
  obtain ok b where t: "TryAcquire (gw_bulkhead st) (dr_Provider ds) = (ok, b)" by (metis surj_pair)
  obtain y st1 where e: "serve_breaker h tr r start ds (st\<lparr>gw_bulkhead := b\<rparr>) = (y, st1)" by (metis surj_pair)
  have "gw_pg (release_slot p st) = gw_pg st" for p st by (simp add: release_slot_def)
  with s t e pg_serve_breaker [OF e] show ?thesis
    by (cases ok) (auto simp: serve_bulkhead_def dest!: pg_refuse pg_deferred)
qed

lemma moving_proxy: "moving P (ServeHTTP h tr)"
proof -
  have "gw_pg (snd (ServeHTTP h tr r st)) = gw_pg st" for r st
  proof -
    obtain x st' where s: "ServeHTTP h tr r st = (x, st')" by (metis surj_pair)
    have "gw_pg (snd (serve_bulkhead h tr r start ds st1)) = gw_pg st1" for start ds st1
      using pg_serve_bulkhead [OF prod.collapse [symmetric]] .
    with pg_deferred [OF s [unfolded ServeHTTP_def]] show ?thesis
      by (auto simp: s Let_def dest!: time_pg split: prod.splits option.splits)
  qed
  then show ?thesis by (simp add: moving_def goes_same)
qed

lemma moving_healthz: "moving P healthz" "moving P metrics_handler" "moving P readyz"
  by (auto simp: moving_def healthz_def metrics_handler_def readyz_def dest!: goes_pg [OF _ moves_lookups(3)] goes_rd
      split: prod.split sum.split) (auto simp: goes_def)

lemma moving_gateway:
  assumes "moving hold_ok proxy" "in_i64 (ge_defaultHold g)"
  shows "moving (\<lambda>r. True) (gateway_mux g proxy)"
proof -
  have "moving (\<lambda>r. True) (gateway_chain g proxy)"
    unfolding gateway_chain_def
    by (intro moving_RequestID moving_Auth moving_RateLimit moving_Route moving_Idempotency moving_Scope moving_Solvency assms)
  with moving_healthz show ?thesis by (simp add: moving_def gateway_mux_def)
qed

section \<open>The ledger worker\<close>

lemma same_steps: "pg_tabs d' = pg_tabs d \<Longrightarrow> store_steps d d'"
  by (metis r_into_rtranclp same_store_refl store_step.environment)

lemma after_settlement_steps: "store_steps (wo_pg wo) (wo_pg (after_settlement w u rid c wo))"
proof -
  have "store_steps (wo_pg wo) (snd (DeleteMeteringSession rid (wo_pg wo)))"
    using moves_store(7) by (simp add: moves_def)
  with same_steps [OF after_settlement_tabs] show ?thesis by (rule rtranclp_trans [rotated])
qed

lemma ProcessEvent_steps:
  assumes "stream_fields flds" "ProcessEvent w flds wo = (res, wo')"
  shows "store_steps (wo_pg wo) (wo_pg wo')"
  using assms(2)
proof (cases rule: ProcessEvent_cases)
  case (early x)
  then show ?thesis by (intro same_steps)
next
  case (settled rid uid cfg d1 c r usage q d2)
  note rng = event_settlement_range [OF assms(1) settled(4)]
  have "store_steps (wo_pg wo) d2"
    using rtranclp_trans [OF movesD [OF moves_queries(2) settled(3)] movesD [OF moves_store(9) [OF rng(1,2)] settled(5)]] .
  with rtranclp_trans [OF this, of "wo_pg (after_settlement w uid rid c (wo\<lparr>wo_pg := d2\<rparr>))"]
    after_settlement_steps [of "wo\<lparr>wo_pg := d2\<rparr>" w uid rid c] settled(6)
  show ?thesis by (cases q) simp_all
qed

lemma handleMessage_steps:
  assumes "stream_fields (xm_Values m)" "handleMessage w m wo = (res, wo')"
  shows "store_steps (wo_pg wo) (wo_pg wo')"
proof -
  obtain r wo1 where p: "ProcessEvent w (xm_Values m) wo = (r, wo1)" by (metis surj_pair)
  have "wo_pg wo' = wo_pg wo1"
    using assms(2) p by (auto simp: handleMessage_def Let_def split: go.splits sum.splits prod.splits if_splits)
  with ProcessEvent_steps [OF assms(1) p] show ?thesis by simp
qed

lemma handleMessages_steps:
  "\<forall>m \<in> set ms. stream_fields (xm_Values m) \<Longrightarrow> handleMessages w ms wo = (res, wo') \<Longrightarrow> store_steps (wo_pg wo) (wo_pg wo')"
proof (induction ms arbitrary: wo)
  case (Cons m ms)
  obtain r wo1 where h: "handleMessage w m wo = (r, wo1)" by (metis surj_pair)
  have "store_steps (wo_pg wo) (wo_pg wo1)" using handleMessage_steps [OF _ h] Cons.prems(1) by simp
  with Cons h show ?case by (cases r) (auto intro: rtranclp_trans)
qed simp

text \<open>What a worker reads from the stream are strings.\<close>

lemma read_fields:
  "AutoClaimMeterEvents g c t n s = (Inr ms, s') \<Longrightarrow> m \<in> set ms \<Longrightarrow> stream_fields (xm_Values m)"
  "ReadMeterEvents g c n s = (Inr ms, s') \<Longrightarrow> m \<in> set ms \<Longrightarrow> stream_fields (xm_Values m)"
  by (auto simp: AutoClaimMeterEvents_def ReadMeterEvents_def rd_call_def Let_def message_stream_fields
      split: fate.splits option.splits if_splits)

lemma processBatch_steps:
  assumes "processBatch w wo = (res, wo')"
  shows "store_steps (wo_pg wo) (wo_pg wo')"
proof -
  obtain cl s1 where c: "AutoClaimMeterEvents consumerGroup ''worker-1'' (30 * second) 10 (wo_rd wo) = (cl, s1)" by (metis surj_pair)
  let ?ms = "case cl of Inl _ \<Rightarrow> [] | Inr ms \<Rightarrow> ms"
  obtain r wo1 where h: "handleMessages w ?ms (wo\<lparr>wo_rd := s1\<rparr>) = (r, wo1)" by (metis surj_pair)
  obtain rd s2 where e: "ReadMeterEvents consumerGroup ''worker-1'' 10 (wo_rd wo1) = (rd, s2)" by (metis surj_pair)
  have "\<forall>m \<in> set ?ms. stream_fields (xm_Values m)" using c by (cases cl) (auto dest: read_fields(1))
  from handleMessages_steps [OF this h] have 1: "store_steps (wo_pg wo) (wo_pg wo1)" by simp
  have "store_steps (wo_pg wo1) (wo_pg wo')" if "handleMessages w ms (wo1\<lparr>wo_rd := s2\<rparr>) = (res, wo')" "rd = Inr ms" for ms
    using handleMessages_steps [OF _ that(1)] e that(2) read_fields(2) by fastforce
  with 1 assms c h e show ?thesis
    by (cases r; cases rd) (auto simp: processBatch_def intro: rtranclp_trans)
qed

lemma store_steps_inv: "store_steps d d' \<Longrightarrow> db_inv (pg_tabs d) \<Longrightarrow> db_inv (pg_tabs d')"
  by (induction rule: rtranclp_induct) (auto intro: store_step_inv)

lemma sweep_one_steps:
  assumes "db_inv (pg_tabs (fst ds))"
  shows "store_steps (fst ds) (fst (sweep_one ustr i ds))"
proof -
  obtain d s where ds: "ds = (d, s)" by (cases ds)
  obtain rh d1 where g: "GetMeteringSession i d = (rh, d1)" by (metis surj_pair)
  obtain ru d2 where u: "GetUsageLogByRequestID i d1 = (ru, d2)" by (metis surj_pair)
  let ?h = "case rh of Inl _ \<Rightarrow> 0 | Inr h \<Rightarrow> h"
  have h: "in_i64 ?h" using GetMeteringSession_range(2) [OF _ g] assms ds by simp
  have 2: "store_steps d d2" using rtranclp_trans [OF movesD [OF moves_queries(6) g] movesD [OF moves_queries(5) u]] .
  have 3: "store_steps d d3" if "CaptureAndRelease ustr v i 0 ?h abandoned_usage [] d2 = (q, d3)" for v q d3
    using rtranclp_trans [OF 2 movesD [OF moves_store(9) [OF _ h] that]] by (simp add: in_i64_iff)
  have 4: "store_steps d (snd (DeleteMeteringSession i d3))" if "store_steps d d3" for d3
    using rtranclp_trans [OF that] moves_store(7) [of i] by (simp add: moves_def)
  from ds g u 2 3 4 show ?thesis by (auto simp: sweep_one_def split: sum.split prod.split)
qed

lemma sweep_steps:
  assumes "db_inv (pg_tabs (fst ds))"
  shows "store_steps (fst ds) (fst (sweep ustr ds))"
proof -
  have fold: "store_steps (fst e) (fst (fold (sweep_one ustr) ids e))" if "db_inv (pg_tabs (fst e))" for ids e
    using that
  proof (induction ids arbitrary: e)
    case (Cons i ids)
    note 1 = sweep_one_steps [OF Cons.prems, of ustr i]
    from rtranclp_trans [OF 1 Cons.IH [OF store_steps_inv [OF 1 Cons.prems]]] show ?case by simp
  qed simp
  obtain r d1 where g: "GetExpiredSessions 100 (fst ds) = (r, d1)" by (metis surj_pair)
  note 1 = movesD [OF moves_queries(3) g]
  from rtranclp_trans [OF 1] fold [of "(d1, snd ds)"] store_steps_inv [OF 1 assms] 1 g show ?thesis
    by (cases r) (simp_all add: sweep_def)
qed

lemma reconcile_one_steps: "store_steps (wo_pg wo) (wo_pg (reconcile_one ustr autoFix row wo))"
proof -
  obtain i cached where row: "row = (i, cached)" by (cases row)
  obtain r d1 where b: "LedgerBalance i (wo_pg wo) = (r, d1)" by (metis surj_pair)
  note 1 = movesD [OF moves_queries(4) b]
  show ?thesis
  proof (cases r)
    case (Inl e)
    with 1 row b show ?thesis by (simp add: reconcile_one_def)
  next
    case (Inr s)
    obtain q d2 where q: "SetUserBalanceFromLedger i s d1 = (q, d2)" by (metis surj_pair)
    note sum = LedgerBalance_Inr [OF b [unfolded Inr]]
    have 2: "store_steps (wo_pg wo) d2" using rtranclp_trans [OF 1 repair_steps [OF sum q]] .
    show ?thesis using 1 2 row b Inr q by (cases q) (simp_all add: reconcile_one_def Let_def)
  qed
qed

lemma reconcile_steps: "store_steps (wo_pg wo) (wo_pg (reconcile ustr autoFix wo))"
proof -
  have fold: "store_steps (wo_pg v) (wo_pg (fold (reconcile_one ustr autoFix) rows v))" for rows v
    by (induction rows arbitrary: v) (auto intro: rtranclp_trans reconcile_one_steps)
  obtain r d1 where l: "list_balances (wo_pg wo) = (r, d1)" by (metis surj_pair)
  note 1 = movesD [OF moves_lookups(2) l]
  from rtranclp_trans [OF 1] fold [of "wo\<lparr>wo_pg := d1\<rparr>"] 1 l show ?thesis
    by (cases r) (simp_all add: reconcile_def)
qed

section \<open>The administration tool\<close>

definition runs :: "pg \<Rightarrow> exit \<times> servers \<Rightarrow> bool" where
  "runs d res \<longleftrightarrow> store_steps d (fst (snd res))"

named_theorems tool_rules

lemma runs_ends [tool_rules]:
  "store_steps d (fst s) \<Longrightarrow> runs d (prints ls s)" "store_steps d (fst s) \<Longrightarrow> runs d (fatal e s)"
  "store_steps d (fst s) \<Longrightarrow> runs d (usage_error t s)" "store_steps d (fst s) \<Longrightarrow> runs d (show_usage s)"
  by (simp_all add: runs_def prints_def fatal_def usage_error_def show_usage_def)

lemma runs_try_pg [tool_rules]:
  assumes "moves q" "store_steps d (fst s)" "\<And>x d'. store_steps d d' \<Longrightarrow> runs d (f x (d', snd s))"
  shows "runs d (try_pg q s f)"
proof -
  obtain r d1 where q: "q (fst s) = (r, d1)" by (metis surj_pair)
  have "store_steps d d1" using rtranclp_trans [OF assms(2) movesD [OF assms(1) q]] .
  with assms(3) q show ?thesis by (cases r) (simp_all add: try_pg_def runs_ends)
qed

lemma runs_try [tool_rules]:
  "store_steps d (fst s) \<Longrightarrow> (\<And>x k. runs d (f x (fst s, k))) \<Longrightarrow> runs d (try_rd q2 s f)"
  "store_steps d (fst s) \<Longrightarrow> (\<And>x. runs d (g x s)) \<Longrightarrow> runs d (try_val v s g)"
  "store_steps d (fst s) \<Longrightarrow> (\<And>i. runs d (h i s)) \<Longrightarrow> runs d (try_uuid a t s h)"
  by (auto simp: try_rd_def try_val_def try_uuid_def runs_ends split: sum.split prod.split option.split)

lemma runs_pair [tool_rules]: "(\<And>x y. p = (x, y) \<Longrightarrow> runs d (f x y s)) \<Longrightarrow> runs d ((case p of (x, y) \<Rightarrow> f x y) s)"
  by (cases p) simp

lemma runs_line [tool_rules]: "runs d res \<Longrightarrow> runs d (after_line l res)"
  by (auto simp: runs_def after_line_def split: prod.split)

lemma tool_states [simp]: "fst (also_rd q s) = fst s" "fst (forget_key a i s) = fst s"
  by (simp_all add: also_rd_def forget_key_def split: prod.split sum.split option.split)

lemma commands_run:
  "runs (fst s) (cmd_create_user a args s)" "runs (fst s) (cmd_deposit_credits a args s)"
  "runs (fst s) (cmd_create_key a args s)" "runs (fst s) (cmd_revoke_key a args s)"
  "runs (fst s) (cmd_store_credential a args s)" "runs (fst s) (cmd_driver_health a args s)"
  "runs (fst s) (cmd_usage_summary a args s)" "runs (fst s) (cmd_burn_rate a args s)"
  "runs (fst s) (cmd_usage_log a args s)"
  unfolding cmd_create_user_def cmd_deposit_credits_def cmd_create_key_def cmd_revoke_key_def cmd_store_credential_def
    cmd_driver_health_def cmd_usage_summary_def cmd_burn_rate_def cmd_usage_log_def
  by (auto split: list.split intro!: tool_rules moves_rules)

lemma cmd_balance_runs: "runs (fst s) (cmd_balance a args s)"
  unfolding cmd_balance_def
  by (auto simp: Let_def split: list.split prod.split intro!: tool_rules moves_rules)

lemma cmd_reconcile_runs: "runs (fst s) (cmd_reconcile_user a args s)"
proof -
  have "runs (fst s) (try_pg (ReconcileUserBalance userID) s (\<lambda>(cached, ledger) s.
            if cached = ledger then prints [''no drift''] s
            else try_pg (SetUserBalanceFromLedger userID ledger) s (\<lambda>_ s.
              prints [''fixed cached='' @ show_int cached @ '' -> ledger='' @ show_int ledger]
                (also_rd (SetBalance (ae_str a userID) ledger) s))))" for userID s
  proof -
    obtain r d1 where r: "ReconcileUserBalance userID (fst s) = (r, d1)" by (metis surj_pair)
    note 1 = movesD [OF moves_queries(10) r]
    show ?thesis
    proof (cases r)
      case (Inl e)
      with 1 r show ?thesis by (simp add: try_pg_def runs_ends)
    next
      case (Inr v)
      obtain cached ledger where v: "v = (cached, ledger)" by (cases v)
      obtain q d2 where q: "SetUserBalanceFromLedger userID ledger d1 = (q, d2)" by (metis surj_pair)
      note sum = ReconcileUserBalance_Inr [OF r [unfolded Inr v]]
      have "store_steps (fst s) d2" using rtranclp_trans [OF 1 repair_steps [OF sum q]] .
      with 1 r Inr v q show ?thesis by (cases q) (simp_all add: try_pg_def runs_ends)
    qed
  qed
  then show ?thesis
    by (cases args) (simp_all add: cmd_reconcile_user_def runs_ends try_uuid_def split: option.split)
qed

lemma replay_messages_runs: "store_steps d (fst s) \<Longrightarrow> runs d (replay_messages ms s)"
  by (induction ms arbitrary: s) (auto intro!: tool_rules)

lemma cmd_replay_runs: "runs (fst s) (cmd_replay_dlq a args s)"
  unfolding cmd_replay_dlq_def by (intro tool_rules replay_messages_runs) simp_all

text \<open>Migration scripts write the tables the store does not: the schema and the seeded providers.\<close>

definition scripts_seed :: "(string \<Rightarrow> tables \<Rightarrow> tables result) \<Rightarrow> bool" where
  "scripts_seed script \<longleftrightarrow> (\<forall>data T T'. script data T = Inr T' \<longrightarrow> same_store T T')"

lemma moves_script: "scripts_seed script \<Longrightarrow> moves (run_script script data)"
  unfolding run_script_def by (rule moves_call) (auto simp: scripts_seed_def split: sum.split)

lemma moves_wrap: "moves q \<Longrightarrow> moves (wrap_err t q)"
  by (auto simp: moves_def wrap_err_def split: prod.split sum.split) (metis snd_conv)+

lemma migrate_steps:
  assumes "scripts_seed script"
  shows "migrate_paths read script paths d = (x, d') \<Longrightarrow> store_steps d d'"
proof (induction paths arbitrary: d)
  case (Cons path paths)
  obtain r d1 where 1: "wrap_err (''migrate check '' @ path) (migration_applied path) d = (r, d1)" by (metis surj_pair)
  note s1 = movesD [OF moves_wrap [OF moves_lookups(4)] 1]
  show ?case
  proof (cases r)
    case (Inl e)
    with Cons.prems 1 s1 show ?thesis by simp
  next
    case (Inr b)
    show ?thesis
    proof (cases b)
      case True
      with Cons.prems 1 Inr rtranclp_trans [OF s1 Cons.IH] show ?thesis by simp
    next
      case False
      have s2: "store_steps d d2" if "wrap_err t (run_script script data) d1 = (y, d2)" for t data y d2
        using rtranclp_trans [OF s1 movesD [OF moves_wrap [OF moves_script [OF assms]] that]] .
      have s3: "store_steps d d3" if "wrap_err t (record_migration p) d2 = (y, d3)" "store_steps d d2" for t p y d2 d3
        using rtranclp_trans [OF that(2) movesD [OF moves_wrap [OF moves_lookups(5)] that(1)]] .
      show ?thesis
        using Cons.prems 1 Inr False s1 by (auto dest!: Cons.IH s3 s2 intro: rtranclp_trans split: sum.splits prod.splits)
    qed
  qed
qed simp

lemma moves_Migrate: "scripts_seed script \<Longrightarrow> moves (Migrate read script paths)"
proof -
  assume s: "scripts_seed script"
  have "store_steps d (snd (Migrate read script paths d))" for d
  proof -
    obtain r d1 where 1: "wrap_err ''migrate schema_migrations'' (pg_call (stmt_return ())) d = (r, d1)" by (metis surj_pair)
    obtain x d2 where 2: "migrate_paths read script paths d1 = (x, d2)" by (metis surj_pair)
    note s1 = movesD [OF moves_wrap [OF moves_lookups(3)] 1]
    from s1 rtranclp_trans [OF s1 migrate_steps [OF s 2]] 1 2 show ?thesis
      by (cases r) (simp_all add: Migrate_def and_then_def)
  qed
  then show ?thesis by (simp add: moves_def)
qed

lemma admin_switch_runs: "runs (fst s) (admin_switch a cmd args s)"
  unfolding admin_switch_def
  by (simp add: commands_run cmd_balance_runs cmd_reconcile_runs cmd_replay_runs runs_ends)

lemma admin_main_runs:
  assumes "scripts_seed script"
  shows "runs (fst s) (admin_main a script args s)"
proof -
  have "runs (fst s) (admin_switch a cmd rest (d', snd s))" if "store_steps (fst s) d'" for cmd rest d'
    using admin_switch_runs [of "(d', snd s)"] rtranclp_trans [OF that] by (simp add: runs_def)
  then show ?thesis
    unfolding admin_main_def by (auto split: list.split intro!: tool_rules moves_Migrate assms)
qed

section \<open>Starting\<close>

definition starts :: "pg \<Rightarrow> 'a result \<times> servers \<Rightarrow> bool" where
  "starts d res \<longleftrightarrow> store_steps d (fst (snd res))"

named_theorems start_rules

lemma starts_pg [start_rules]:
  assumes "moves q" "store_steps d (fst s)" "\<And>x d'. store_steps d d' \<Longrightarrow> starts d (f x (d', snd s))"
  shows "starts d (start_pg q f s)"
proof -
  obtain r d1 where q: "q (fst s) = (r, d1)" by (metis surj_pair)
  have "store_steps d d1" using rtranclp_trans [OF assms(2) movesD [OF assms(1) q]] .
  with assms(3) q show ?thesis by (cases r) (simp_all add: start_pg_def starts_def)
qed

lemma starts_other [start_rules]:
  "store_steps d (fst s) \<Longrightarrow> (\<And>x k. starts d (f x (fst s, k))) \<Longrightarrow> starts d (start_rd q2 f s)"
  "store_steps d (fst s) \<Longrightarrow> (\<And>x. starts d (g x s)) \<Longrightarrow> starts d (start_val v g s)"
  "store_steps d (fst s) \<Longrightarrow> starts d (Inr y, s)"
  by (auto simp: start_rd_def start_val_def starts_def split: sum.split prod.split)

lemma moves_Connect: "moves (db_Connect bo url)"
  using moves_wrap [OF moves_lookups(3), of "''db ping''" "()"] by (simp add: moves_def db_Connect_def split: option.split)

lemma gateway_start_steps: "scripts_seed (bo_script bo) \<Longrightarrow> starts (fst s) (gateway_start bo cfg s)"
  unfolding gateway_start_def by (auto intro!: start_rules moves_Connect moves_Migrate)

lemma worker_start_steps: "scripts_seed (bo_script bo) \<Longrightarrow> starts (fst s) (worker_start bo cfg s)"
  unfolding worker_start_def by (auto intro!: start_rules moves_Connect moves_Migrate)

lemma start_build:
  "start_pg q f s = (Inr x, s') \<Longrightarrow> \<exists>y s1. f y s1 = (Inr x, s')"
  "start_rd q2 f2 s = (Inr x, s') \<Longrightarrow> \<exists>y s1. f2 y s1 = (Inr x, s')"
  "start_val v f3 s = (Inr x, s') \<Longrightarrow> \<exists>y. v = Inr y \<and> f3 y s = (Inr x, s')"
  by (auto simp: start_pg_def start_rd_def start_val_def split: sum.splits prod.splits)

lemma gateway_start_build:
  "gateway_start bo cfg s = (Inr gp, s') \<Longrightarrow> \<exists>v reg. gp = gateway_build bo cfg v reg"
  unfolding gateway_start_def by (auto dest!: start_build)

lemma gateway_start_hold: "gateway_start bo cfg s = (Inr gp, s') \<Longrightarrow> in_i64 (ge_defaultHold (gp_env gp))"
  by (auto dest!: gateway_start_build simp: gateway_build_def in_i64_iff)

section \<open>Runs of the system\<close>

text \<open>
  One activity of one process, from the state of the two servers to the state it leaves.  The processes
  restart at any time: what they keep in memory is quantified in every step.  The last two rules are the
  environment: time, identifiers and lost calls to come, and Redis, which may lose anything.
\<close>

inductive activity :: "servers \<Rightarrow> servers \<Rightarrow> bool" where
  gateway: "scripts_seed (bo_script bo) \<Longrightarrow> activity s (snd (gateway_start bo cfg s))"
| request: "gateway_start bo cfg s0 = (Inr gp, s1) \<Longrightarrow> gateway_serve gp tr r st = (x, st') \<Longrightarrow>
    activity (gw_pg st, gw_rd st) (gw_pg st', gw_rd st')"
| worker: "scripts_seed (bo_script bo) \<Longrightarrow> activity s (snd (worker_start bo cfg s))"
| batch: "processBatch w wo = (x, wo') \<Longrightarrow> activity (wo_pg wo, wo_rd wo) (wo_pg wo', wo_rd wo')"
| sweeping: "activity s (sweep ustr s)"
| reconciliation: "activity (wo_pg wo, wo_rd wo) (wo_pg (reconcile ustr autoFix wo), wo_rd (reconcile ustr autoFix wo))"
| administration: "scripts_seed script \<Longrightarrow> activity s (snd (admin_main a script args s))"
| database: "pg_tabs d' = pg_tabs d \<Longrightarrow> activity (d, k) (d', k)"
| cache: "activity (d, k) (d, k')"

lemma activity_steps:
  assumes "activity s s'" "db_inv (pg_tabs (fst s))"
  shows "store_steps (fst s) (fst s')"
  using assms
proof (induction rule: activity.induct)
  case (request bo cfg s0 gp s1 tr r st x st')
  have "goes st (snd (gateway_serve gp tr r st))"
    using moving_gateway [OF moving_proxy gateway_start_hold [OF request(1)]] by (simp add: moving_def gateway_serve_def)
  with request(2) show ?case by (simp add: goes_def)
next
  case (gateway bo s cfg)
  then show ?case using gateway_start_steps by (simp add: starts_def)
next
  case (worker bo s cfg)
  then show ?case using worker_start_steps by (simp add: starts_def)
next
  case (administration script s a args)
  then show ?case using admin_main_runs by (simp add: runs_def)
qed (simp_all add: processBatch_steps sweep_steps reconcile_steps same_steps)

end
