(* ===== verification/Spec2Isabelle.thy ===== *)
theory Spec2Isabelle
  imports System
begin

text \<open>
  \<^bold>\<open>QuarkGate\<close>, a metered gateway in front of paid providers: a model of its Go code (\<open>src/cmd\<close>,
  \<open>src/internal\<close>) and the theorems that make it correct.

  \<^bold>\<open>The program.\<close>  A client calls the gateway with an API key.  A chain of middlewares authenticates it,
  limits its rate, resolves the route, answers repeated requests from a cache, checks the scopes of the
  key and places a hold on the user's credits; the proxy then forwards the request to the provider and
  writes one metering event to a Redis stream.  The ledger worker reads the events, prices the usage and
  settles the hold: it captures the charge and releases the rest.  A sweeper releases the holds of requests
  whose event never came, a reconciliation compares the balances with the ledger, and an administration
  tool creates users, keys and deposits.  The processes share PostgreSQL (users, keys, providers,
  credentials, the ledger, usage logs, metering sessions) and Redis (cached balances, holds and keys, rate
  windows, cached answers, the stream and its dead letters).

  \<^bold>\<open>The theories\<close>, in the order of their imports:

  \<^item> \<open>QG_Prelude\<close>: results, finite maps as association lists, 64-bit wrap-around, shared lemmas.
    \<open>Go_Float\<close>: binary64 arithmetic with its rounding; \<open>Go_Json\<close>, \<open>Json_Roundtrip\<close>: \<open>encoding/json\<close>
    between text and values, and that decoding undoes encoding; \<open>Go_Bytes\<close>: hexadecimal and base64.
  \<^item> \<open>Models\<close>: the structs of \<open>internal/models\<close>.
  \<^item> \<open>Postgres\<close>, \<open>Store\<close>: the tables with their constraints, statements and transactions, and every
    operation of \<open>internal/store/store.go\<close>.  \<open>Ledger\<close>: the invariant of the database and that every
    operation keeps it.  \<open>Credits\<close>: the exact effect of deposits, holds and settlements.  \<open>Reachable\<close>: the
    states any interleaving of store operations can reach.
  \<^item> \<open>Pricing\<close>: \<open>internal/metering/normalize.go\<close> and \<open>hold.go\<close>.
  \<^item> \<open>Redis\<close>, \<open>Meter_Queue\<close>: \<open>internal/redis/client.go\<close> over a server with expiring strings, sorted
    sets, streams and consumer groups; the stream as a queue that loses nothing.
  \<^item> \<open>Registry\<close>: \<open>internal/registry\<close>, manifests, routes and the calls to driver processes.
    \<open>Runtime\<close>: \<open>internal/config\<close> and \<open>internal/observability\<close>.
  \<^item> \<open>Worker\<close>: \<open>internal/metering/worker.go\<close> and the loops of \<open>cmd/ledger-worker/main.go\<close>.
  \<^item> \<open>Access\<close>: \<open>internal/keys\<close>, \<open>internal/auth\<close>, \<open>internal/vault\<close>.
  \<^item> \<open>Resilience\<close>, \<open>Stream_Meter\<close>: the guards of the proxy and its copy loop (\<open>internal/proxy\<close>).
  \<^item> \<open>Http\<close>: header maps, the response writer, the request context (\<open>internal/gateway/context.go\<close>) and
    the state of a handler.  \<open>Gateway\<close>: \<open>middleware.go\<close>, \<open>route.go\<close>, \<open>idempotency.go\<close>.  \<open>Proxy\<close>:
    \<open>internal/proxy/handler.go\<close>, the chain and the multiplexer of \<open>cmd/gateway/main.go\<close>.
  \<^item> \<open>Admin\<close>: \<open>cmd/admin/main.go\<close> and \<open>internal/db\<close>.  \<open>Boot\<close>: how the gateway and the worker come up, the
    worker's loop and the gateway's shutdown.  \<open>Sample\<close>: a small deployment for concrete runs.
  \<^item> \<open>Admission\<close>, \<open>Serving\<close>, \<open>Lifecycle\<close>: facts that span the middlewares, the proxy and its worker, the
    tool and the gateway.  \<open>System\<close>: all processes over one database.

  \<^bold>\<open>Interfaces.\<close>  A locale states what a client of a component relies on, and is interpreted on the model
  of the component that provides it: the credit ledger (\<open>Credits\<close>), a key family of Redis (\<open>Redis\<close>), the
  event queue (\<open>Meter_Queue\<close>), the counting semaphore (\<open>Resilience\<close>), a middleware as a guard and the
  composition of two (\<open>Admission\<close>).

  \<^bold>\<open>How effects are modelled.\<close>  A call to a server is a function from its state to a result and the new
  state.  Each call consumes one entry of a list of fates that the server's state carries: answered, lost
  before it took effect, or lost after.  An exhausted list means that the rest is answered.  So a theorem
  about every state speaks of every pattern of lost calls; a transaction ends with a call that can be lost
  on either side of its commit.  Transactions are atomic and ordered by the row locks they take; statements outside
  transactions interleave freely in \<open>Reachable\<close>.  Errors are \<open>Inl\<close>, panics a constructor of their own.
  Integers are \<open>int\<close> with \<open>i64\<close> wherever Go computes in 64 bits; identifiers are words of 128 bits;
  strings are lists of bytes.  Loops that may not end are partial functions into \<open>option\<close>, where
  \<open>None\<close> is a loop that never returns: reading a body (\<open>read_all\<close>), copying a stream (\<open>copy_loop\<close>),
  waiting for the shutdown (\<open>drain\<close>); there is no fuel.

  \<^bold>\<open>What the theorems show.\<close>  Credits: balances are the sums of the ledger in every run of the whole
  system, holds and settlements are atomic and happen at most once, and the amounts are exact.  Admission: the proxy
  is reached only behind an authenticated key, its scopes, a hold in the ledger, a usage log and a session.
  Metering: a served request leaves one event, no event is lost before it is acknowledged, an event is
  settled once.  Pricing: exact charges in binary64, independence of map order, monotonicity.  Guards: the
  bulkhead is a semaphore, the breaker recovers, requests give back what they took.  Streams: bytes are
  forwarded verbatim and the loop ends when the context, the body or the deadline does.  Access: round trips of cached keys and of the
  vault, created keys open and revoked keys are refused.  Several theorems state what the code does where
  that is not what it means to do: \<open>request_charged_twice\<close>, \<open>sweep_then_late_event\<close>,
  \<open>AllowRate_counts_seconds\<close>, \<open>deposit_not_seen\<close>, \<open>Normalize_outcome\<close>.

  \<^bold>\<open>Parameters.\<close>  What is not in the repository is an argument: the file system and driver processes
  (\<open>host\<close>), bcrypt and the message authentication code (\<open>crypto\<close>), the authenticated cipher (\<open>AEAD\<close>), the
  HTTP client and its providers (\<open>transport\<close>, \<open>body\<close>), the clock readings, random bytes, the text form of
  identifiers, the number scanner, the effect of a migration script, the conversion of floats outside the range of
  integers.  Hypotheses about them are their documented behaviour: \<open>bcrypt_ok\<close>, \<open>aead_ok\<close>, parsing an
  identifier's text gives it back, \<open>scripts_ok\<close> and \<open>scripts_seed\<close>.

  \<^bold>\<open>Not modelled.\<close>  Logging; listening, signals and tickers (a tick is one function); the HTTP server
  between the multiplexer and the handlers beyond the response writer (its redirects of unclean paths, request
  parsing); retries inside the client libraries; texts that are not UTF-8, which the JSON encoder replaces;
  calendar formats; the drivers in JavaScript and Python, the scripts and the infrastructure.  The
  interleaving of whole activities is as coarse as an activity in \<open>System\<close> and as fine as a statement in
  \<open>Reachable\<close>; the reconciliation's repair is taken without a movement between its read and its write.
\<close>



text \<open>
  C2. The processes refine the store.  Whatever a process of the system does in one activity, a request
  through the whole gateway, a batch of metering events, a sweep, a reconciliation or a command, it
  changes the database only by operations of the store, each with amounts of 64 bits and each repair with
  the sum the ledger has: every activity is a sequence of the store's steps.
\<close>

theorem activity_refines_store:
  assumes "activity s s'" "db_inv (pg_tabs (fst s))"
  shows "store_step\<^sup>*\<^sup>* (fst s) (fst s')"
  using activity_steps [OF assms] .

theorem activity_refines_store_witness:
  "store_step\<^sup>*\<^sup>* abandoned_pg (fst (sweep (\<lambda>_. ''7'') (abandoned_pg, empty_redis)))"
proof -
  have "db_inv (pg_tabs abandoned_pg)"
    by (simp add: abandoned_pg_def demo_usage_def db_inv_defs demo_defs ledger_sum_def max_i64_def in_i64_iff)
  with activity_refines_store [OF activity.sweeping, of "(abandoned_pg, empty_redis)"] show ?thesis by simp
qed

end
